theory Spec2Isabelle
  imports Main "HOL-Library.Word" "HOL-Library.Sublist"
begin

section \<open>The program\<close>

subsection \<open>Python: \<open>is_prime\<close>, trial division\<close>

text \<open>
  \<^verbatim>\<open>
  def is_prime(n):
      if n <= 1:
          return False
      i = 2
      while i * i <= n:
          if n % i == 0:
              return False
          i += 1
      return True
  \<close>
  Python integers are unbounded, so \<open>n\<close> and \<open>i\<close> are of type \<open>int\<close>. The \<open>while\<close>
  loop is the recursive function \<open>is_prime_loop\<close>, whose second argument is the loop
  variable \<open>i\<close>. Python's \<open>%\<close> with a positive divisor is HOL's \<open>mod\<close> on \<open>int\<close>; the
  divisor starts at 2 and only grows, so ZeroDivisionError cannot be raised. The loop
  terminates because \<open>i \<le> i * i \<le> n\<close> whenever the body runs, so \<open>n + 1 - i\<close> decreases.
\<close>

function is_prime_loop :: "int \<Rightarrow> int \<Rightarrow> bool" where
  "is_prime_loop n i =
     (if i * i \<le> n then
        (if n mod i = 0 then False else is_prime_loop n (i + 1))
      else True)"
  by pat_completeness auto

termination is_prime_loop
proof (relation "measure (\<lambda>(n, i). nat (n + 1 - i))")
  show "wf (measure (\<lambda>(n, i). nat (n + 1 - i)))" by simp
next
  fix n i :: int
  assume sq: "i * i \<le> n"
  have "i \<le> i * i"
  proof (cases "1 \<le> i")
    case True
    then have "i * 1 \<le> i * i" by (intro mult_left_mono) auto
    then show ?thesis by simp
  next
    case False
    then have "i \<le> 0" by simp
    moreover have "0 \<le> i * i" by simp
    ultimately show ?thesis by linarith
  qed
  with sq have "i \<le> n" by linarith
  then show "((n, i + 1), (n, i)) \<in> measure (\<lambda>(n, i). nat (n + 1 - i))" by simp
qed

declare is_prime_loop.simps [simp del]

definition is_prime :: "int \<Rightarrow> bool" where
  "is_prime n = (if n \<le> 1 then False else is_prime_loop n 2)"

text \<open>
  The same function, instrumented: the second component of the result counts how often
  the body of the \<open>while\<close> loop (the divisibility test) is executed.
\<close>

function is_prime_loop_count :: "int \<Rightarrow> int \<Rightarrow> nat \<Rightarrow> bool \<times> nat" where
  "is_prime_loop_count n i k =
     (if i * i \<le> n then
        (if n mod i = 0 then (False, k + 1) else is_prime_loop_count n (i + 1) (k + 1))
      else (True, k))"
  by pat_completeness auto

termination is_prime_loop_count
proof (relation "measure (\<lambda>(n, i, k). nat (n + 1 - i))")
  show "wf (measure (\<lambda>(n, i, k). nat (n + 1 - i)))" by simp
next
  fix n i :: int and k :: nat
  assume sq: "i * i \<le> n"
  have "i \<le> i * i"
  proof (cases "1 \<le> i")
    case True
    then have "i * 1 \<le> i * i" by (intro mult_left_mono) auto
    then show ?thesis by simp
  next
    case False
    then have "i \<le> 0" by simp
    moreover have "0 \<le> i * i" by simp
    ultimately show ?thesis by linarith
  qed
  with sq have "i \<le> n" by linarith
  then show "((n, i + 1, k + 1), (n, i, k)) \<in> measure (\<lambda>(n, i, k). nat (n + 1 - i))" by simp
qed

declare is_prime_loop_count.simps [simp del]

definition is_prime_count :: "int \<Rightarrow> bool \<times> nat" where
  "is_prime_count n = (if n \<le> 1 then (False, 0) else is_prime_loop_count n 2 0)"

subsection \<open>Python: \<open>generate_primes\<close>\<close>

text \<open>
  \<^verbatim>\<open>
  def generate_primes(target):
      primes = [n for n in range(2, target + 1) if is_prime(n)]
      return primes
  \<close>
  \<open>range(2, target + 1)\<close> is the list \<open>[2..target]\<close> of integers, empty when
  \<open>target < 2\<close>.
\<close>

definition generate_primes :: "int \<Rightarrow> int list" where
  "generate_primes target = filter is_prime [2..target]"

subsection \<open>Python: \<open>longest_sum_of_consecutive_primes\<close>\<close>

text \<open>
  \<^verbatim>\<open>
  def longest_sum_of_consecutive_primes(primes, target):
      max_length = 0
      max_prime = 0

      for i in range(len(primes)):
          for j in range(i + max_length, len(primes)):
              sum_of_primes = sum(primes[i:j])
              if sum_of_primes > target:
                  break
              if is_prime(sum_of_primes) and (j - i) > max_length:
                  max_length = j - i
                  max_prime = sum_of_primes

      return max_prime, max_length
  \<close>
  Indices and lengths are natural numbers, list entries and sums are integers. The
  slice \<open>primes[i:j]\<close> with non-negative bounds holds the entries at the positions
  \<open>i, \<dots>, min j (len primes) - 1\<close>. The two variables the loops update are passed as the
  pair \<open>(max_length, max_prime)\<close>. The inner \<open>range\<close> is evaluated once, with the value
  \<open>max_length\<close> has when the inner loop is entered; \<open>j\<close> starts at \<open>i + max_length\<close>, so
  \<open>j - i\<close> never truncates. \<open>break\<close> leaves the inner loop with the pair unchanged.
\<close>

definition py_slice :: "'a list \<Rightarrow> nat \<Rightarrow> nat \<Rightarrow> 'a list" where
  "py_slice xs i j = drop i (take j xs)"

function inner_loop :: "int list \<Rightarrow> int \<Rightarrow> nat \<Rightarrow> nat \<Rightarrow> nat \<times> int \<Rightarrow> nat \<times> int" where
  "inner_loop primes target i j (max_length, max_prime) =
     (if j < length primes then
        (let sum_of_primes = sum_list (py_slice primes i j) in
         if sum_of_primes > target then (max_length, max_prime)
         else if is_prime sum_of_primes \<and> j - i > max_length
           then inner_loop primes target i (j + 1) (j - i, sum_of_primes)
           else inner_loop primes target i (j + 1) (max_length, max_prime))
      else (max_length, max_prime))"
  by pat_completeness auto

termination inner_loop
  by (relation "measure (\<lambda>(primes, target, i, j, st). length primes - j)") auto

declare inner_loop.simps [simp del]

function outer_loop :: "int list \<Rightarrow> int \<Rightarrow> nat \<Rightarrow> nat \<times> int \<Rightarrow> nat \<times> int" where
  "outer_loop primes target i (max_length, max_prime) =
     (if i < length primes then
        outer_loop primes target (i + 1)
          (inner_loop primes target i (i + max_length) (max_length, max_prime))
      else (max_length, max_prime))"
  by pat_completeness auto

termination outer_loop
  by (relation "measure (\<lambda>(primes, target, i, st). length primes - i)") auto

declare outer_loop.simps [simp del]

definition longest_sum_of_consecutive_primes :: "int list \<Rightarrow> int \<Rightarrow> int \<times> nat" where
  "longest_sum_of_consecutive_primes primes target =
     (case outer_loop primes target 0 (0, 0) of
        (max_length, max_prime) \<Rightarrow> (max_prime, max_length))"

text \<open>
  The double loop, instrumented: the extra component \<open>k\<close> counts the executions of the
  body of the inner loop, the one that ends in \<open>break\<close> included.
\<close>

function inner_loop_count ::
  "int list \<Rightarrow> int \<Rightarrow> nat \<Rightarrow> nat \<Rightarrow> (nat \<times> int) \<times> nat \<Rightarrow> (nat \<times> int) \<times> nat" where
  "inner_loop_count primes target i j ((max_length, max_prime), k) =
     (if j < length primes then
        (let sum_of_primes = sum_list (py_slice primes i j) in
         if sum_of_primes > target then ((max_length, max_prime), k + 1)
         else if is_prime sum_of_primes \<and> j - i > max_length
           then inner_loop_count primes target i (j + 1) ((j - i, sum_of_primes), k + 1)
           else inner_loop_count primes target i (j + 1) ((max_length, max_prime), k + 1))
      else ((max_length, max_prime), k))"
  by pat_completeness auto

termination inner_loop_count
  by (relation "measure (\<lambda>(primes, target, i, j, st). length primes - j)") auto

declare inner_loop_count.simps [simp del]

function outer_loop_count ::
  "int list \<Rightarrow> int \<Rightarrow> nat \<Rightarrow> (nat \<times> int) \<times> nat \<Rightarrow> (nat \<times> int) \<times> nat" where
  "outer_loop_count primes target i ((max_length, max_prime), k) =
     (if i < length primes then
        outer_loop_count primes target (i + 1)
          (inner_loop_count primes target i (i + max_length) ((max_length, max_prime), k))
      else ((max_length, max_prime), k))"
  by pat_completeness auto

termination outer_loop_count
  by (relation "measure (\<lambda>(primes, target, i, st). length primes - i)") auto

declare outer_loop_count.simps [simp del]

definition longest_sum_of_consecutive_primes_count :: "int list \<Rightarrow> int \<Rightarrow> (int \<times> nat) \<times> nat" where
  "longest_sum_of_consecutive_primes_count primes target =
     (case outer_loop_count primes target 0 ((0, 0), 0) of
        ((max_length, max_prime), k) \<Rightarrow> ((max_prime, max_length), k))"

subsection \<open>Rust: \<open>is_prime\<close> on \<open>u32\<close>\<close>

text \<open>
  \<^verbatim>\<open>
  fn is_prime(n: u32) -> bool {
      if n <= 1 {
          return false;
      }
      let mut i = 2;
      while i * i <= n {
          if n % i == 0 {
              return false;
          }
          i += 1;
      }
      true
  }
  \<close>
  \<open>i\<close> is inferred to be a \<open>u32\<close>, a 32-bit word. An arithmetic overflow panics in a
  build with overflow checks (the default of a debug build) and wraps around without
  them (the default of a release build); the flag \<open>overflow_checks\<close> selects the build.
  The remainder by zero panics in both. A panic is the left summand of the result.
  The loop terminates: \<open>i\<close> grows until it either overflows (a panic) or wraps to \<open>0\<close>,
  where the remainder panics.
\<close>

datatype panic = Overflow | DivisionByZero

type_synonym u32 = "32 word"

definition mul_u32 :: "bool \<Rightarrow> u32 \<Rightarrow> u32 \<Rightarrow> panic + u32" where
  "mul_u32 overflow_checks a b =
     (if overflow_checks \<and> 2 ^ 32 \<le> uint a * uint b then Inl Overflow else Inr (a * b))"

definition add_u32 :: "bool \<Rightarrow> u32 \<Rightarrow> u32 \<Rightarrow> panic + u32" where
  "add_u32 overflow_checks a b =
     (if overflow_checks \<and> 2 ^ 32 \<le> uint a + uint b then Inl Overflow else Inr (a + b))"

definition rem_u32 :: "u32 \<Rightarrow> u32 \<Rightarrow> panic + u32" where
  "rem_u32 a b = (if b = 0 then Inl DivisionByZero else Inr (a mod b))"

function rs_is_prime_loop :: "bool \<Rightarrow> u32 \<Rightarrow> u32 \<Rightarrow> panic + bool" where
  "rs_is_prime_loop overflow_checks n i =
     (case mul_u32 overflow_checks i i of
        Inl e \<Rightarrow> Inl e
      | Inr sq \<Rightarrow>
          if sq \<le> n then
            (case rem_u32 n i of
               Inl e \<Rightarrow> Inl e
             | Inr r \<Rightarrow>
                 if r = 0 then Inr False
                 else (case add_u32 overflow_checks i 1 of
                         Inl e \<Rightarrow> Inl e
                       | Inr i' \<Rightarrow> rs_is_prime_loop overflow_checks n i'))
          else Inr True)"
  by pat_completeness auto

termination rs_is_prime_loop
proof (relation "measure (\<lambda>(c, n, i). if i = 0 then 0 else nat (2 ^ 32 - uint i))")
  show "wf (measure (\<lambda>(c, n, i :: u32). if i = 0 then 0 else nat (2 ^ 32 - uint i)))" by simp
next
  fix overflow_checks :: bool and n i sq r i' :: u32
  assume "rem_u32 n i = Inr r" and "add_u32 overflow_checks i 1 = Inr i'"
  then have i: "i \<noteq> 0" and i': "i' = i + 1"
    by (auto simp: rem_u32_def add_u32_def split: if_splits)
  have lt: "uint i < 2 ^ 32" using uint_bounded [of i] by simp
  have ge: "0 \<le> uint i" by simp
  have m: "uint (i + 1) = (uint i + 1) mod 2 ^ 32"
    by (simp add: uint_word_ariths)
  show "((overflow_checks, n, i'), (overflow_checks, n, i))
        \<in> measure (\<lambda>(c, n, i). if i = 0 then 0 else nat (2 ^ 32 - uint i))"
  proof (cases "i' = 0")
    case True
    then show ?thesis using i lt by simp
  next
    case False
    have "uint i' = uint i + 1"
    proof (cases "uint i + 1 < 2 ^ 32")
      case True
      with ge m show ?thesis by (simp add: i')
    next
      case wrap: False
      with lt have "uint i + 1 = 2 ^ 32" by simp
      with m have "uint (i + 1) = 0" by simp
      then have "i + 1 = 0" by (simp add: uint_0_iff)
      with False show ?thesis by (simp add: i')
    qed
    then show ?thesis using False i lt by simp
  qed
qed

declare rs_is_prime_loop.simps [simp del]

definition rs_is_prime :: "bool \<Rightarrow> u32 \<Rightarrow> panic + bool" where
  "rs_is_prime overflow_checks n =
     (if n \<le> 1 then Inr False else rs_is_prime_loop overflow_checks n 2)"

subsection \<open>Python: the DataFrame of \<open>overlay_untargeted_data\<close>\<close>


















subsection \<open>Python: \<open>overlay_untargeted_data\<close>, its files and its figure\<close>








section \<open>Specifications and proof data\<close>

subsection \<open>Runs of consecutive entries\<close>

text \<open>
  A slice \<open>primes[i:j]\<close> qualifies when its sum is a prime not exceeding the target.
  \<open>found\<close> says where a pair \<open>(max_length, max_prime)\<close> comes from: it is the initial
  pair or it records a qualifying slice the loops have seen.
\<close>

definition qualifies :: "int list \<Rightarrow> int \<Rightarrow> nat \<Rightarrow> nat \<Rightarrow> bool" where
  "qualifies primes target i j \<longleftrightarrow>
     is_prime (sum_list (py_slice primes i j)) \<and> sum_list (py_slice primes i j) \<le> target"

definition found :: "int list \<Rightarrow> int \<Rightarrow> nat \<times> int \<Rightarrow> bool" where
  "found primes target st \<longleftrightarrow>
     st = (0, 0) \<or>
     (\<exists>i j. i \<le> j \<and> j < length primes \<and> fst st = j - i
        \<and> snd st = sum_list (py_slice primes i j) \<and> qualifies primes target i j)"



text \<open>
  \<open>prefix_sum xs j s\<close>: the list has at least \<open>j\<close> entries and its first \<open>j\<close> entries
  sum to \<open>s\<close>.
\<close>

definition prefix_sum :: "int list \<Rightarrow> nat \<Rightarrow> int \<Rightarrow> bool" where
  "prefix_sum xs j s \<longleftrightarrow> j \<le> length xs \<and> sum_list (take j xs) = s"

subsection \<open>Displayed unchanged, in the words of the specification\<close>







subsection \<open>Certificates of primality\<close>

text \<open>
  Modular exponentiation by repeated squaring, for the test of Lucas: \<open>n\<close> is prime when
  some \<open>a\<close> has order \<open>n - 1\<close> modulo \<open>n\<close>.
\<close>

function modpow :: "int \<Rightarrow> int \<Rightarrow> int \<Rightarrow> int" where
  "modpow a e n =
     (if e \<le> 0 then 1 mod n
      else let h = modpow a (e div 2) n in
           if e mod 2 = 0 then (h * h) mod n else (h * h * a) mod n)"
  by pat_completeness auto

termination modpow
  by (relation "measure (\<lambda>(a, e, n). nat e)") auto

declare modpow.simps [simp del]

text \<open>
  Certificates for a run of consecutive numbers: \<open>Cm a b\<close> states that the number is
  the product \<open>a * b\<close> of two factors from 2 on; \<open>Pr u v\<close> states that
  \<open>u * n = v * M + 1\<close> for the product \<open>M\<close> of the primes up to 61, so that \<open>n\<close> has
  no prime factor up to 61. \<open>sieve_run\<close> checks the certificates of the numbers after
  \<open>n\<close>, one by one, and keeps the count and the sum of the primes up to \<open>n\<close>.
\<close>

datatype cert = Cm int int | Pr int int

definition small_prime_product :: int where
  "small_prime_product = 117288381359406970983270"

definition small_primes :: "int list" where
  "small_primes = [2, 3, 5, 7, 11, 13, 17, 19, 23, 29, 31, 37, 41, 43, 47, 53, 59, 61]"

fun sieve_step :: "int \<times> nat \<times> int \<Rightarrow> cert \<Rightarrow> (int \<times> nat \<times> int) option" where
  "sieve_step (n, c, s) (Cm a b) =
     (if 2 \<le> a \<and> 2 \<le> b \<and> a * b = n + 1 then Some (n + 1, c, s) else None)"
| "sieve_step (n, c, s) (Pr u v) =
     (if u * (n + 1) = v * small_prime_product + 1 then Some (n + 1, c + 1, s + (n + 1))
      else None)"

fun sieve_run :: "int \<times> nat \<times> int \<Rightarrow> cert list \<Rightarrow> (int \<times> nat \<times> int) option" where
  "sieve_run st [] = Some st"
| "sieve_run st (x # xs) =
     (case sieve_step st x of None \<Rightarrow> None | Some st' \<Rightarrow> sieve_run st' xs)"

definition primes_state :: "int \<times> nat \<times> int \<Rightarrow> bool" where
  "primes_state st \<longleftrightarrow>
     (case st of (n, c, s) \<Rightarrow>
        61 \<le> n \<and> length (generate_primes n) = c \<and> sum_list (generate_primes n) = s)"

section \<open>\<open>is_prime\<close> is trial division\<close>

lemma square_mono_nonneg: "0 \<le> (i::int) \<Longrightarrow> i \<le> d \<Longrightarrow> i * i \<le> d * d"
  by (rule mult_mono) auto

lemma is_prime_loop_iff:
  "0 \<le> i \<Longrightarrow> is_prime_loop n i \<longleftrightarrow> (\<forall>d. i \<le> d \<and> d * d \<le> n \<longrightarrow> n mod d \<noteq> 0)"
proof (induction n i rule: is_prime_loop.induct)
  case (1 n i)
  show ?case
  proof (cases "i * i \<le> n")
    case False
    have "\<not> d * d \<le> n" if "i \<le> d" for d
      using square_mono_nonneg [OF \<open>0 \<le> i\<close> that] False by linarith
    then have "\<forall>d. i \<le> d \<and> d * d \<le> n \<longrightarrow> n mod d \<noteq> 0" by blast
    moreover have "is_prime_loop n i" 
      using False by (subst is_prime_loop.simps) simp
    ultimately show ?thesis by simp
  next
    case le: True
    show ?thesis
    proof (cases "n mod i = 0")
      case True
      have "\<not> is_prime_loop n i"
        using le True by (subst is_prime_loop.simps) simp
      moreover have "\<not> (\<forall>d. i \<le> d \<and> d * d \<le> n \<longrightarrow> n mod d \<noteq> 0)"
      proof
        assume "\<forall>d. i \<le> d \<and> d * d \<le> n \<longrightarrow> n mod d \<noteq> 0"
        then have "i \<le> i \<and> i * i \<le> n \<longrightarrow> n mod i \<noteq> 0" by (rule spec)
        with le True show False by simp
      qed
      ultimately show ?thesis by simp
    next
      case False
      have "0 \<le> i + 1" using "1.prems" by simp
      from "1.IH" [OF le False this]
      have ih: "is_prime_loop n (i + 1) \<longleftrightarrow> (\<forall>d. i + 1 \<le> d \<and> d * d \<le> n \<longrightarrow> n mod d \<noteq> 0)" .
      have step: "is_prime_loop n i = is_prime_loop n (i + 1)"
        using le False by (subst is_prime_loop.simps) simp
      have "(\<forall>d. i \<le> d \<and> d * d \<le> n \<longrightarrow> n mod d \<noteq> 0) \<longleftrightarrow>
            (\<forall>d. i + 1 \<le> d \<and> d * d \<le> n \<longrightarrow> n mod d \<noteq> 0)"
      proof
        assume a: "\<forall>d. i + 1 \<le> d \<and> d * d \<le> n \<longrightarrow> n mod d \<noteq> 0"
        show "\<forall>d. i \<le> d \<and> d * d \<le> n \<longrightarrow> n mod d \<noteq> 0"
        proof (intro allI impI)
          fix d assume d: "i \<le> d \<and> d * d \<le> n"
          show "n mod d \<noteq> 0"
          proof (cases "d = i")
            case True
            then show ?thesis using False by simp
          next
            case False
            then have "i + 1 \<le> d \<and> d * d \<le> n" using d by simp
            with a show ?thesis by simp
          qed
        qed
      next
        assume a: "\<forall>d. i \<le> d \<and> d * d \<le> n \<longrightarrow> n mod d \<noteq> 0"
        show "\<forall>d. i + 1 \<le> d \<and> d * d \<le> n \<longrightarrow> n mod d \<noteq> 0"
        proof (intro allI impI)
          fix d assume d: "i + 1 \<le> d \<and> d * d \<le> n"
          then have "i \<le> d \<and> d * d \<le> n" by simp
          with a show "n mod d \<noteq> 0" by simp
        qed
      qed
      then show ?thesis using step ih by simp
    qed
  qed
qed

lemma is_prime_iff:
  "is_prime n \<longleftrightarrow> 2 \<le> n \<and> (\<forall>d. 2 \<le> d \<and> d * d \<le> n \<longrightarrow> \<not> d dvd n)"
proof (cases "n \<le> 1")
  case True
  then show ?thesis by (simp add: is_prime_def)
next
  case False
  then have "is_prime n = is_prime_loop n 2" by (simp add: is_prime_def)
  also have "\<dots> \<longleftrightarrow> (\<forall>d. 2 \<le> d \<and> d * d \<le> n \<longrightarrow> n mod d \<noteq> 0)"
    by (rule is_prime_loop_iff) simp
  finally show ?thesis using False by (simp add: dvd_eq_mod_eq_0)
qed

lemma small_divisor:
  assumes "2 \<le> (n::int)" "1 < d" "d < n" "d dvd n"
  shows "\<exists>e. 2 \<le> e \<and> e * e \<le> n \<and> e dvd n"
proof -
  from \<open>d dvd n\<close> obtain c where c: "n = d * c" by (auto simp: dvd_def)
  have "0 < d * c" "0 < d" using assms c by auto
  then have cpos: "0 < c" by (rule zero_less_mult_pos)
  have c2: "2 \<le> c"
  proof (rule ccontr)
    assume "\<not> 2 \<le> c" with cpos have "c = 1" by simp
    with c assms show False by simp
  qed
  show ?thesis
  proof (cases "d \<le> c")
    case True
    then have "d * d \<le> d * c" using assms by (intro mult_left_mono) auto
    with c assms have "2 \<le> d \<and> d * d \<le> n \<and> d dvd n" by simp
    then show ?thesis by (rule exI)
  next
    case False
    then have "c * c \<le> d * c" using cpos by (intro mult_right_mono) auto
    with c c2 have "2 \<le> c \<and> c * c \<le> n \<and> c dvd n" by simp
    then show ?thesis by (rule exI)
  qed
qed

lemma is_prime_iff_no_proper_divisor:
  "is_prime n \<longleftrightarrow> 2 \<le> n \<and> (\<forall>d. 1 < d \<and> d < n \<longrightarrow> \<not> d dvd n)"
proof (cases "2 \<le> n")
  case False
  then show ?thesis by (simp add: is_prime_def)
next
  case n: True
  have "(\<forall>d. 2 \<le> d \<and> d * d \<le> n \<longrightarrow> \<not> d dvd n) \<longleftrightarrow> (\<forall>d. 1 < d \<and> d < n \<longrightarrow> \<not> d dvd n)"
  proof
    assume a: "\<forall>d. 2 \<le> d \<and> d * d \<le> n \<longrightarrow> \<not> d dvd n"
    show "\<forall>d. 1 < d \<and> d < n \<longrightarrow> \<not> d dvd n"
    proof (intro allI impI notI)
      fix d assume "1 < d \<and> d < n" "d dvd n"
      then obtain e where e: "2 \<le> e \<and> e * e \<le> n" "e dvd n"
        using small_divisor [OF n, of d] by auto
      from a [rule_format, OF e(1)] e(2) show False by simp
    qed
  next
    assume a: "\<forall>d. 1 < d \<and> d < n \<longrightarrow> \<not> d dvd n"
    show "\<forall>d. 2 \<le> d \<and> d * d \<le> n \<longrightarrow> \<not> d dvd n"
    proof (intro allI impI)
      fix d assume d: "2 \<le> d \<and> d * d \<le> n"
      then have "d * 2 \<le> d * d" by (intro mult_left_mono) auto
      with d have "1 < d \<and> d < n" by linarith
      then show "\<not> d dvd n" by (rule a [rule_format])
    qed
  qed
  then show ?thesis using is_prime_iff [of n] by simp
qed

text \<open>
  Claim C3: \<open>is_prime\<close> is a correct trial-division primality test. For every integer
  \<open>n\<close>, \<open>is_prime n\<close> holds if and only if \<open>n \<ge> 2\<close> and \<open>n\<close> has no divisor \<open>d\<close> with
  \<open>2 \<le> d\<close> and \<open>d * d \<le> n\<close>.
\<close>

theorem is_prime_correct:
  "is_prime n \<longleftrightarrow> 2 \<le> n \<and> (\<forall>d. 2 \<le> d \<and> d * d \<le> n \<longrightarrow> \<not> d dvd n)"
  by (rule is_prime_iff)

text \<open>Witness: 7 has no divisor \<open>d\<close> with \<open>4 \<le> d * d \<le> 7\<close>, and 9 has the divisor 3.\<close>

theorem is_prime_correct_witness: "is_prime 7 \<and> \<not> is_prime 9"
proof
  have "\<forall>d::int. 2 \<le> d \<and> d * d \<le> 7 \<longrightarrow> \<not> d dvd 7"
  proof (intro allI impI)
    fix d :: int
    assume d: "2 \<le> d \<and> d * d \<le> 7"
    have "d < 3"
    proof (rule ccontr)
      assume "\<not> d < 3"
      then have "3 * 3 \<le> d * d" by (intro mult_mono) auto
      with d show False by simp
    qed
    with d have "d = 2" by simp
    then show "\<not> d dvd 7" by simp
  qed
  then show "is_prime 7" using is_prime_correct [of 7] by simp
next
  have "(2::int) \<le> 3 \<and> 3 * 3 \<le> (9::int) \<and> (3::int) dvd 9" by simp
  then have "\<not> (\<forall>d::int. 2 \<le> d \<and> d * d \<le> 9 \<longrightarrow> \<not> d dvd 9)" by blast
  then show "\<not> is_prime 9" using is_prime_correct [of 9] by simp
qed

lemma is_prime_loop_count_fst: "fst (is_prime_loop_count n i k) = is_prime_loop n i"
proof (induction n i k rule: is_prime_loop_count.induct)
  case (1 n i k)
  then show ?case
    by (subst is_prime_loop_count.simps, subst is_prime_loop.simps) simp
qed

lemma is_prime_count_fst: "fst (is_prime_count n) = is_prime n"
  by (simp add: is_prime_count_def is_prime_def is_prime_loop_count_fst)

text \<open>
  Claim C8: for every integer \<open>n \<le> 1\<close>, zero and the negative integers included,
  \<open>is_prime n\<close> is \<open>False\<close> and the body of the trial-division loop is not executed.
\<close>

theorem is_prime_le_one:
  "n \<le> 1 \<Longrightarrow> is_prime n = False \<and> snd (is_prime_count n) = 0"
  by (simp add: is_prime_def is_prime_count_def)

theorem is_prime_le_one_witness:
  "(0::int) \<le> 1 \<and> is_prime 0 = False \<and> snd (is_prime_count 0) = 0
   \<and> (- 5::int) \<le> 1 \<and> is_prime (- 5) = False \<and> snd (is_prime_count (- 5)) = 0"
  using is_prime_le_one [of 0] is_prime_le_one [of "- 5"] by simp

section \<open>\<open>generate_primes\<close>\<close>

lemma strict_sorted_upto: "sorted_wrt (<) [m..n]"
  by (simp add: strict_sorted_iff)

lemma generate_primes_props:
  "set (generate_primes target) = {n. 2 \<le> n \<and> n \<le> target \<and> is_prime n}
   \<and> sorted_wrt (<) (generate_primes target)
   \<and> (target < 2 \<longrightarrow> generate_primes target = [])"
  by (auto simp: generate_primes_def intro: sorted_wrt_filter strict_sorted_upto)

text \<open>
  Claim C9: for every integer \<open>target\<close>, \<open>generate_primes target\<close> is the list of the
  integers \<open>n\<close> with \<open>2 \<le> n \<le> target\<close> and \<open>is_prime n\<close>, in strictly increasing order;
  for \<open>target < 2\<close> it is the empty list.
\<close>

theorem generate_primes_spec:
  "set (generate_primes target) = {n. 2 \<le> n \<and> n \<le> target \<and> is_prime n}
   \<and> sorted_wrt (<) (generate_primes target)
   \<and> (target < 2 \<longrightarrow> generate_primes target = [])"
  by (rule generate_primes_props)

theorem generate_primes_spec_witness:
  "(1::int) < 2 \<and> generate_primes 1 = [] \<and> set (generate_primes 10) = {n. 2 \<le> n \<and> n \<le> 10 \<and> is_prime n}"
  using generate_primes_spec [of 1] generate_primes_spec [of 10] by simp

lemma generate_primes_Suc:
  assumes "1 \<le> n"
  shows "generate_primes (n + 1) = generate_primes n @ (if is_prime (n + 1) then [n + 1] else [])"
proof -
  have "[2..n + 1] = [2..n] @ [n + 1]"
    using assms upto_rec2 [of 2 "n + 1"] by simp
  then show ?thesis by (simp add: generate_primes_def)
qed

lemma generate_primes_split:
  assumes "1 \<le> b" "b \<le> n"
  shows "generate_primes n = generate_primes b @ filter is_prime [b + 1..n]"
proof -
  have "[2..n] = [2..b] @ [b + 1..n]"
  proof (cases "2 \<le> b")
    case True
    then show ?thesis using assms by (intro upto_split2) simp_all
  next
    case False
    with assms have "b = 1" by simp
    then show ?thesis by simp
  qed
  then show ?thesis by (simp add: generate_primes_def)
qed

section \<open>The double loop\<close>

subsection \<open>The branches of the loops\<close>

lemma inner_loop_exit:
  assumes "\<not> j < length primes"
  shows "inner_loop primes target i j (ml, mp) = (ml, mp)"
  by (subst inner_loop.simps) (simp only: if_not_P [OF assms])

lemma inner_loop_break:
  assumes "j < length primes" "sum_list (py_slice primes i j) > target"
  shows "inner_loop primes target i j (ml, mp) = (ml, mp)"
  by (subst inner_loop.simps) (simp only: Let_def if_P [OF assms(1)] if_P [OF assms(2)])

lemma inner_loop_update:
  assumes "j < length primes" "\<not> sum_list (py_slice primes i j) > target"
    "is_prime (sum_list (py_slice primes i j)) \<and> j - i > ml"
  shows "inner_loop primes target i j (ml, mp)
         = inner_loop primes target i (j + 1) (j - i, sum_list (py_slice primes i j))"
  by (subst inner_loop.simps)
     (simp only: Let_def if_P [OF assms(1)] if_not_P [OF assms(2)] if_P [OF assms(3)])

lemma inner_loop_skip:
  assumes "j < length primes" "\<not> sum_list (py_slice primes i j) > target"
    "\<not> (is_prime (sum_list (py_slice primes i j)) \<and> j - i > ml)"
  shows "inner_loop primes target i j (ml, mp) = inner_loop primes target i (j + 1) (ml, mp)"
  by (subst inner_loop.simps)
     (simp only: Let_def if_P [OF assms(1)] if_not_P [OF assms(2)] if_not_P [OF assms(3)])

lemma inner_loop_count_exit:
  assumes "\<not> j < length primes"
  shows "inner_loop_count primes target i j ((ml, mp), k) = ((ml, mp), k)"
  by (subst inner_loop_count.simps) (simp only: if_not_P [OF assms])

lemma inner_loop_count_break:
  assumes "j < length primes" "sum_list (py_slice primes i j) > target"
  shows "inner_loop_count primes target i j ((ml, mp), k) = ((ml, mp), k + 1)"
  by (subst inner_loop_count.simps) (simp only: Let_def if_P [OF assms(1)] if_P [OF assms(2)])

lemma inner_loop_count_update:
  assumes "j < length primes" "\<not> sum_list (py_slice primes i j) > target"
    "is_prime (sum_list (py_slice primes i j)) \<and> j - i > ml"
  shows "inner_loop_count primes target i j ((ml, mp), k)
         = inner_loop_count primes target i (j + 1) ((j - i, sum_list (py_slice primes i j)), k + 1)"
  by (subst inner_loop_count.simps)
     (simp only: Let_def if_P [OF assms(1)] if_not_P [OF assms(2)] if_P [OF assms(3)])

lemma inner_loop_count_skip:
  assumes "j < length primes" "\<not> sum_list (py_slice primes i j) > target"
    "\<not> (is_prime (sum_list (py_slice primes i j)) \<and> j - i > ml)"
  shows "inner_loop_count primes target i j ((ml, mp), k)
         = inner_loop_count primes target i (j + 1) ((ml, mp), k + 1)"
  by (subst inner_loop_count.simps)
     (simp only: Let_def if_P [OF assms(1)] if_not_P [OF assms(2)] if_not_P [OF assms(3)])

lemma outer_loop_exit:
  assumes "\<not> i < length primes"
  shows "outer_loop primes target i (ml, mp) = (ml, mp)"
  by (subst outer_loop.simps) (simp only: if_not_P [OF assms])

lemma outer_loop_step:
  assumes "i < length primes"
  shows "outer_loop primes target i (ml, mp)
         = outer_loop primes target (i + 1) (inner_loop primes target i (i + ml) (ml, mp))"
  by (subst outer_loop.simps) (simp only: if_P [OF assms])

lemma outer_loop_count_exit:
  assumes "\<not> i < length primes"
  shows "outer_loop_count primes target i ((ml, mp), k) = ((ml, mp), k)"
  by (subst outer_loop_count.simps) (simp only: if_not_P [OF assms])

lemma outer_loop_count_step:
  assumes "i < length primes"
  shows "outer_loop_count primes target i ((ml, mp), k)
         = outer_loop_count primes target (i + 1)
             (inner_loop_count primes target i (i + ml) ((ml, mp), k))"
  by (subst outer_loop_count.simps) (simp only: if_P [OF assms])

subsection \<open>Termination within a bounded number of steps\<close>

lemma inner_loop_count_fst:
  "fst (inner_loop_count primes target i j st) = inner_loop primes target i j (fst st)"
proof (induction primes target i j st rule: inner_loop_count.induct)
  case (1 primes target i j max_length max_prime k)
  show ?case
  proof (cases "j < length primes")
    case False
    then show ?thesis by (simp add: inner_loop_count_exit inner_loop_exit)
  next
    case True
    let ?s = "sum_list (py_slice primes i j)"
    show ?thesis
    proof (cases "?s > target")
      case brk: True
      then show ?thesis using True by (simp add: inner_loop_count_break inner_loop_break)
    next
      case nobrk: False
      show ?thesis
      proof (cases "is_prime ?s \<and> j - i > max_length")
        case upd: True
        from "1.IH"(1) [OF True refl nobrk upd]
        show ?thesis
          by (simp add: inner_loop_count_update [OF True nobrk upd]
              inner_loop_update [OF True nobrk upd])
      next
        case noupd: False
        from "1.IH"(2) [OF True refl nobrk noupd]
        show ?thesis
          by (simp add: inner_loop_count_skip [OF True nobrk noupd]
              inner_loop_skip [OF True nobrk noupd])
      qed
    qed
  qed
qed

lemma inner_loop_count_snd:
  "snd (inner_loop_count primes target i j st) \<le> snd st + (length primes - j)"
proof (induction primes target i j st rule: inner_loop_count.induct)
  case (1 primes target i j max_length max_prime k)
  show ?case
  proof (cases "j < length primes")
    case False
    then show ?thesis by (simp add: inner_loop_count_exit)
  next
    case True
    let ?s = "sum_list (py_slice primes i j)"
    show ?thesis
    proof (cases "?s > target")
      case brk: True
      then show ?thesis using True by (simp add: inner_loop_count_break)
    next
      case nobrk: False
      show ?thesis
      proof (cases "is_prime ?s \<and> j - i > max_length")
        case upd: True
        from "1.IH"(1) [OF True refl nobrk upd] True
        show ?thesis
          by (simp add: inner_loop_count_update [OF True nobrk upd])
      next
        case noupd: False
        from "1.IH"(2) [OF True refl nobrk noupd] True
        show ?thesis
          by (simp add: inner_loop_count_skip [OF True nobrk noupd])
      qed
    qed
  qed
qed

lemma outer_loop_count_fst:
  "fst (outer_loop_count primes target i st) = outer_loop primes target i (fst st)"
proof (induction primes target i st rule: outer_loop_count.induct)
  case (1 primes target i max_length max_prime k)
  show ?case
  proof (cases "i < length primes")
    case False
    then show ?thesis by (simp add: outer_loop_count_exit outer_loop_exit)
  next
    case True
    from "1.IH" [OF True]
    show ?thesis
      by (simp add: outer_loop_count_step [OF True] outer_loop_step [OF True]
          inner_loop_count_fst)
  qed
qed

lemma outer_loop_count_snd:
  "snd (outer_loop_count primes target i st) \<le> snd st + (length primes - i) * length primes"
proof (induction primes target i st rule: outer_loop_count.induct)
  case (1 primes target i max_length max_prime k)
  show ?case
  proof (cases "i < length primes")
    case False
    then show ?thesis by (simp add: outer_loop_count_exit)
  next
    case True
    let ?st = "inner_loop_count primes target i (i + max_length) ((max_length, max_prime), k)"
    have "snd ?st \<le> k + (length primes - (i + max_length))"
      using inner_loop_count_snd [of primes target i "i + max_length" "((max_length, max_prime), k)"]
      by simp
    then have a: "snd ?st \<le> k + length primes" by simp
    from "1.IH" [OF True]
    have b: "snd (outer_loop_count primes target (i + 1) ?st)
             \<le> snd ?st + (length primes - (i + 1)) * length primes" .
    have "length primes - i = Suc (length primes - (i + 1))"
      using True by simp
    then have "(length primes - i) * length primes
          = length primes + (length primes - (i + 1)) * length primes"
      by simp
    with a b have "snd (outer_loop_count primes target (i + 1) ?st)
             \<le> k + (length primes - i) * length primes" by simp
    then show ?thesis by (simp add: outer_loop_count_step [OF True])
  qed
qed

text \<open>
  Claim C7: the double loop is bounded. For every list and every target the function
  returns, and the body of the inner loop is executed at most \<open>len(primes)\<close> times for
  each of the \<open>len(primes)\<close> values of \<open>i\<close>: the instrumented function returns the same
  result together with a count of at most \<open>len(primes) * len(primes)\<close>.
\<close>

theorem longest_sum_terminates_within:
  "fst (longest_sum_of_consecutive_primes_count primes target)
     = longest_sum_of_consecutive_primes primes target
   \<and> snd (longest_sum_of_consecutive_primes_count primes target)
     \<le> length primes * length primes"
proof -
  obtain ml mp k where r: "outer_loop_count primes target 0 ((0, 0), 0) = ((ml, mp), k)"
    by (metis surj_pair)
  have "outer_loop primes target 0 (0, 0) = (ml, mp)"
    using outer_loop_count_fst [of primes target 0 "((0, 0), 0)"] r by simp
  moreover have "k \<le> length primes * length primes"
    using outer_loop_count_snd [of primes target 0 "((0, 0), 0)"] r by simp
  ultimately show ?thesis
    by (simp add: longest_sum_of_consecutive_primes_count_def
        longest_sum_of_consecutive_primes_def r)
qed

subsection \<open>Where the result comes from\<close>

lemma inner_loop_found:
  "found primes target st \<Longrightarrow> i \<le> j \<Longrightarrow> found primes target (inner_loop primes target i j st)"
proof (induction primes target i j st rule: inner_loop.induct)
  case (1 primes target i j max_length max_prime)
  show ?case
  proof (cases "j < length primes")
    case False
    then show ?thesis using "1.prems" by (simp add: inner_loop_exit)
  next
    case True
    let ?s = "sum_list (py_slice primes i j)"
    show ?thesis
    proof (cases "?s > target")
      case brk: True
      then show ?thesis using True "1.prems" by (simp add: inner_loop_break)
    next
      case nobrk: False
      show ?thesis
      proof (cases "is_prime ?s \<and> j - i > max_length")
        case upd: True
        have "found primes target (j - i, ?s)"
          unfolding found_def qualifies_def using True nobrk upd "1.prems"(2)
          by (intro disjI2 exI [of _ i] exI [of _ j]) simp
        from "1.IH"(1) [OF True refl nobrk upd this] "1.prems"(2)
        show ?thesis by (simp add: inner_loop_update [OF True nobrk upd])
      next
        case noupd: False
        from "1.IH"(2) [OF True refl nobrk noupd "1.prems"(1)] "1.prems"(2)
        show ?thesis by (simp add: inner_loop_skip [OF True nobrk noupd])
      qed
    qed
  qed
qed

lemma outer_loop_found:
  "found primes target st \<Longrightarrow> found primes target (outer_loop primes target i st)"
proof (induction primes target i st rule: outer_loop.induct)
  case (1 primes target i max_length max_prime)
  show ?case
  proof (cases "i < length primes")
    case False
    then show ?thesis using "1.prems" by (simp add: outer_loop_exit)
  next
    case True
    have "found primes target (inner_loop primes target i (i + max_length) (max_length, max_prime))"
      using "1.prems" by (intro inner_loop_found) simp_all
    from "1.IH" [OF True this]
    show ?thesis by (simp add: outer_loop_step [OF True])
  qed
qed

lemma longest_sum_found:
  "found primes target (outer_loop primes target 0 (0, 0))"
  by (rule outer_loop_found) (simp add: found_def)

lemma longest_sum_none_aux:
  "(\<forall>j \<le> length primes. \<forall>i \<le> j.
      \<not> (is_prime (sum_list (py_slice primes i j)) \<and> sum_list (py_slice primes i j) \<le> target))
   \<longrightarrow> longest_sum_of_consecutive_primes primes target = (0, 0)"
proof
  assume none: "\<forall>j \<le> length primes. \<forall>i \<le> j.
      \<not> (is_prime (sum_list (py_slice primes i j)) \<and> sum_list (py_slice primes i j) \<le> target)"
  have "\<not> (\<exists>i j. i \<le> j \<and> j < length primes \<and> qualifies primes target i j)"
  proof
    assume "\<exists>i j. i \<le> j \<and> j < length primes \<and> qualifies primes target i j"
    then obtain i j where ij: "i \<le> j" "j < length primes" "qualifies primes target i j" by auto
    from none ij(1,2) have "\<not> (is_prime (sum_list (py_slice primes i j)) \<and> sum_list (py_slice primes i j) \<le> target)"
      by simp
    with ij(3) show False by (simp add: qualifies_def)
  qed
  with longest_sum_found [of primes target]
  have "outer_loop primes target 0 (0, 0) = (0, 0)"
    unfolding found_def by auto
  then show "longest_sum_of_consecutive_primes primes target = (0, 0)"
    by (simp add: longest_sum_of_consecutive_primes_def)
qed

lemma longest_sum_empty: "longest_sum_of_consecutive_primes [] target = (0, 0)"
  by (simp add: longest_sum_of_consecutive_primes_def outer_loop_exit)

text \<open>
  Claim C10: if no slice of consecutive entries of the list sums to a prime not exceeding
  the target, the function returns the initial pair \<open>(0, 0)\<close>; so it does for the empty
  list.
\<close>

theorem longest_sum_none:
  "((\<forall>j \<le> length primes. \<forall>i \<le> j.
       \<not> (is_prime (sum_list (py_slice primes i j)) \<and> sum_list (py_slice primes i j) \<le> target))
    \<longrightarrow> longest_sum_of_consecutive_primes primes target = (0, 0))
   \<and> longest_sum_of_consecutive_primes [] target = (0, 0)"
  using longest_sum_none_aux [of primes target] longest_sum_empty [of target] by simp

text \<open>Witness: no slice of \<open>[4, 6]\<close> sums to a prime.\<close>

theorem longest_sum_none_witness:
  "longest_sum_of_consecutive_primes [4, 6] 10 = (0, 0)"
proof -
  have "\<forall>j \<le> length [4, 6 :: int]. \<forall>i \<le> j.
       \<not> (is_prime (sum_list (py_slice [4, 6] i j)) \<and> sum_list (py_slice [4, 6 :: int] i j) \<le> 10)"
    by (simp add: eval_nat_numeral le_Suc_eq all_conj_distrib py_slice_def
        is_prime_def is_prime_loop.simps)
  then show ?thesis using longest_sum_none [of "[4, 6]" 10] by simp
qed

subsection \<open>Maximality\<close>

lemma inner_loop_mono: "fst st \<le> fst (inner_loop primes target i j st)"
proof (induction primes target i j st rule: inner_loop.induct)
  case (1 primes target i j max_length max_prime)
  show ?case
  proof (cases "j < length primes")
    case False
    then show ?thesis by (simp add: inner_loop_exit)
  next
    case True
    let ?s = "sum_list (py_slice primes i j)"
    show ?thesis
    proof (cases "?s > target")
      case brk: True
      then show ?thesis using True by (simp add: inner_loop_break)
    next
      case nobrk: False
      show ?thesis
      proof (cases "is_prime ?s \<and> j - i > max_length")
        case upd: True
        from "1.IH"(1) [OF True refl nobrk upd] upd
        show ?thesis by (simp add: inner_loop_update [OF True nobrk upd])
      next
        case noupd: False
        from "1.IH"(2) [OF True refl nobrk noupd]
        show ?thesis by (simp add: inner_loop_skip [OF True nobrk noupd])
      qed
    qed
  qed
qed

lemma outer_loop_mono: "fst st \<le> fst (outer_loop primes target i st)"
proof (induction primes target i st rule: outer_loop.induct)
  case (1 primes target i max_length max_prime)
  show ?case
  proof (cases "i < length primes")
    case False
    then show ?thesis by (simp add: outer_loop_exit)
  next
    case True
    have "max_length \<le> fst (inner_loop primes target i (i + max_length) (max_length, max_prime))"
      using inner_loop_mono [of "(max_length, max_prime)" primes target i "i + max_length"] by simp
    with "1.IH" [OF True]
    show ?thesis by (simp add: outer_loop_step [OF True])
  qed
qed

lemma sum_list_nonneg_int: "\<forall>x \<in> set xs. (0::int) \<le> x \<Longrightarrow> 0 \<le> sum_list xs"
  by (induction xs) auto

lemma py_slice_sum_mono:
  assumes "\<forall>x \<in> set primes. (0::int) \<le> x" "j \<le> j'"
  shows "sum_list (py_slice primes i j) \<le> sum_list (py_slice primes i j')"
proof -
  from \<open>j \<le> j'\<close> obtain d where d: "j' = j + d" by (auto simp: le_iff_add)
  have "take j' primes = take j primes @ take d (drop j primes)"
    by (simp add: d take_add)
  then have "py_slice primes i j'
             = py_slice primes i j @ drop (i - length (take j primes)) (take d (drop j primes))"
    by (simp add: py_slice_def)
  moreover have "0 \<le> sum_list (drop (i - length (take j primes)) (take d (drop j primes)))"
  proof (rule sum_list_nonneg_int, rule ballI)
    fix x assume "x \<in> set (drop (i - length (take j primes)) (take d (drop j primes)))"
    then have "x \<in> set primes"
      by (meson in_set_dropD in_set_takeD)
    with assms(1) show "0 \<le> x" by simp
  qed
  ultimately show ?thesis by simp
qed

lemma inner_loop_max:
  assumes "\<forall>x \<in> set primes. 0 \<le> x"
    and "\<forall>j'. i \<le> j' \<and> j' < j \<and> qualifies primes target i j' \<longrightarrow> j' - i \<le> fst st"
  shows "\<forall>j'. i \<le> j' \<and> j' < length primes \<and> qualifies primes target i j'
           \<longrightarrow> j' - i \<le> fst (inner_loop primes target i j st)"
  using assms
proof (induction primes target i j st rule: inner_loop.induct)
  case (1 primes target i j max_length max_prime)
  note nonneg = "1.prems"(1) and inv = "1.prems"(2)
  show ?case
  proof (cases "j < length primes")
    case False
    have "j' - i \<le> max_length"
      if "i \<le> j' \<and> j' < length primes \<and> qualifies primes target i j'" for j'
    proof -
      from that False have "i \<le> j' \<and> j' < j \<and> qualifies primes target i j'" by simp
      with inv show ?thesis by simp
    qed
    then show ?thesis using False by (simp add: inner_loop_exit)
  next
    case True
    let ?s = "sum_list (py_slice primes i j)"
    show ?thesis
    proof (cases "?s > target")
      case brk: True
      have "j' - i \<le> max_length"
        if q: "i \<le> j' \<and> j' < length primes \<and> qualifies primes target i j'" for j'
      proof (cases "j' < j")
        case True
        with q inv show ?thesis by simp
      next
        case False
        then have "?s \<le> sum_list (py_slice primes i j')"
          by (intro py_slice_sum_mono nonneg) simp
        with brk q show ?thesis by (simp add: qualifies_def)
      qed
      then show ?thesis using True brk by (simp add: inner_loop_break)
    next
      case nobrk: False
      show ?thesis
      proof (cases "is_prime ?s \<and> j - i > max_length")
        case upd: True
        have "\<forall>j'. i \<le> j' \<and> j' < j + 1 \<and> qualifies primes target i j'
                \<longrightarrow> j' - i \<le> fst (j - i, ?s)"
          by auto
        from "1.IH"(1) [OF True refl nobrk upd nonneg this]
        show ?thesis by (simp add: inner_loop_update [OF True nobrk upd])
      next
        case noupd: False
        have "\<forall>j'. i \<le> j' \<and> j' < j + 1 \<and> qualifies primes target i j'
                \<longrightarrow> j' - i \<le> fst (max_length, max_prime)"
        proof (intro allI impI)
          fix j' assume q: "i \<le> j' \<and> j' < j + 1 \<and> qualifies primes target i j'"
          show "j' - i \<le> fst (max_length, max_prime)"
          proof (cases "j' < j")
            case True
            with q inv show ?thesis by simp
          next
            case False
            with q have "j' = j" by simp
            with q noupd show ?thesis by (auto simp: qualifies_def)
          qed
        qed
        from "1.IH"(2) [OF True refl nobrk noupd nonneg this]
        show ?thesis by (simp add: inner_loop_skip [OF True nobrk noupd])
      qed
    qed
  qed
qed






subsection \<open>The result of the inner loop from what it meets last\<close>

lemma inner_loop_result:
  "inner_loop primes target i j st = st
   \<or> (\<exists>j'. j \<le> j' \<and> j' < length primes
          \<and> inner_loop primes target i j st = (j' - i, sum_list (py_slice primes i j'))
          \<and> is_prime (sum_list (py_slice primes i j'))
          \<and> sum_list (py_slice primes i j') \<le> target
          \<and> fst st < j' - i)"
proof (induction primes target i j st rule: inner_loop.induct)
  case (1 primes target i j max_length max_prime)
  show ?case
  proof (cases "j < length primes")
    case False
    then show ?thesis by (simp add: inner_loop_exit)
  next
    case True
    let ?s = "sum_list (py_slice primes i j)"
    show ?thesis
    proof (cases "?s > target")
      case brk: True
      then show ?thesis using True by (simp add: inner_loop_break)
    next
      case nobrk: False
      show ?thesis
      proof (cases "is_prime ?s \<and> j - i > max_length")
        case upd: True
        note eq = inner_loop_update [OF True nobrk upd, of max_prime]
        from "1.IH"(1) [OF True refl nobrk upd]
        show ?thesis
        proof (elim disjE exE conjE)
          assume "inner_loop primes target i (j + 1) (j - i, ?s) = (j - i, ?s)"
          with True nobrk upd eq
          have "j \<le> j \<and> j < length primes
                \<and> inner_loop primes target i j (max_length, max_prime) = (j - i, ?s)
                \<and> is_prime ?s \<and> ?s \<le> target \<and> fst (max_length, max_prime) < j - i"
            by simp
          then show ?thesis by blast
        next
          fix j'
          assume "j + 1 \<le> j'" "j' < length primes"
            "inner_loop primes target i (j + 1) (j - i, ?s) = (j' - i, sum_list (py_slice primes i j'))"
            "is_prime (sum_list (py_slice primes i j'))"
            "sum_list (py_slice primes i j') \<le> target"
            "fst (j - i, ?s) < j' - i"
          with upd eq
          have "j \<le> j' \<and> j' < length primes
                \<and> inner_loop primes target i j (max_length, max_prime)
                    = (j' - i, sum_list (py_slice primes i j'))
                \<and> is_prime (sum_list (py_slice primes i j'))
                \<and> sum_list (py_slice primes i j') \<le> target
                \<and> fst (max_length, max_prime) < j' - i"
            by simp
          then show ?thesis by blast
        qed
      next
        case noupd: False
        note eq = inner_loop_skip [OF True nobrk noupd, of max_prime]
        from "1.IH"(2) [OF True refl nobrk noupd]
        show ?thesis
        proof (elim disjE exE conjE)
          assume "inner_loop primes target i (j + 1) (max_length, max_prime) = (max_length, max_prime)"
          with eq show ?thesis by simp
        next
          fix j'
          assume "j + 1 \<le> j'" "j' < length primes"
            "inner_loop primes target i (j + 1) (max_length, max_prime)
               = (j' - i, sum_list (py_slice primes i j'))"
            "is_prime (sum_list (py_slice primes i j'))"
            "sum_list (py_slice primes i j') \<le> target"
            "fst (max_length, max_prime) < j' - i"
          with eq
          have "j \<le> j' \<and> j' < length primes
                \<and> inner_loop primes target i j (max_length, max_prime)
                    = (j' - i, sum_list (py_slice primes i j'))
                \<and> is_prime (sum_list (py_slice primes i j'))
                \<and> sum_list (py_slice primes i j') \<le> target
                \<and> fst (max_length, max_prime) < j' - i"
            by simp
          then show ?thesis by blast
        qed
      qed
    qed
  qed
qed

lemma inner_loop_unchanged:
  assumes "\<forall>j. i + ml < j \<and> j < length primes \<and> sum_list (py_slice primes i j) \<le> target
             \<longrightarrow> \<not> is_prime (sum_list (py_slice primes i j))"
  shows "inner_loop primes target i (i + ml) (ml, mp) = (ml, mp)"
proof (rule ccontr)
  assume ne: "inner_loop primes target i (i + ml) (ml, mp) \<noteq> (ml, mp)"
  with inner_loop_result [of primes target i "i + ml" "(ml, mp)"]
  obtain j where j: "i + ml \<le> j" "j < length primes"
    "is_prime (sum_list (py_slice primes i j))" "sum_list (py_slice primes i j) \<le> target"
    "ml < j - i"
    by auto
  from j(5) have "i + ml < j" by simp
  with assms j(2,3,4) show False by simp
qed

lemma inner_loop_last:
  assumes nonneg: "\<forall>x \<in> set primes. 0 \<le> x"
    and js: "i + ml < js" "js < length primes"
    and prime: "is_prime (sum_list (py_slice primes i js))"
    and le: "sum_list (py_slice primes i js) \<le> target"
    and later: "\<forall>j. js < j \<and> j < length primes \<and> sum_list (py_slice primes i j) \<le> target
             \<longrightarrow> \<not> is_prime (sum_list (py_slice primes i j))"
  shows "inner_loop primes target i (i + ml) (ml, mp)
         = (js - i, sum_list (py_slice primes i js))"
proof -
  let ?r = "inner_loop primes target i (i + ml) (ml, mp)"
  have "\<forall>j'. i \<le> j' \<and> j' < i + ml \<and> qualifies primes target i j' \<longrightarrow> j' - i \<le> fst (ml, mp)"
    by auto
  from inner_loop_max [OF nonneg this]
  have "i \<le> js \<and> js < length primes \<and> qualifies primes target i js \<longrightarrow> js - i \<le> fst ?r"
    by blast
  then have ge: "js - i \<le> fst ?r"
    using js prime le by (simp add: qualifies_def)
  from inner_loop_result [of primes target i "i + ml" "(ml, mp)"]
  show ?thesis
  proof (elim disjE exE conjE)
    assume "?r = (ml, mp)"
    with ge js(1) show ?thesis by simp
  next
    fix j
    assume j: "i + ml \<le> j" "j < length primes"
      "?r = (j - i, sum_list (py_slice primes i j))"
      "is_prime (sum_list (py_slice primes i j))" "sum_list (py_slice primes i j) \<le> target"
    from ge j(3) have "js - i \<le> j - i" by simp
    with js(1) have "js \<le> j" by simp
    moreover have "\<not> js < j" using later j(2,4,5) by blast
    ultimately have "j = js" by simp
    with j(3) show ?thesis by simp
  qed
qed

lemma outer_loop_fixed:
  assumes "\<forall>i'. i \<le> i' \<and> i' < length primes
             \<longrightarrow> inner_loop primes target i' (i' + ml) (ml, mp) = (ml, mp)"
  shows "outer_loop primes target i (ml, mp) = (ml, mp)"
  using assms
proof (induction primes target i "(ml, mp)" rule: outer_loop.induct)
  case (1 primes target i)
  show ?case
  proof (cases "i < length primes")
    case False
    then show ?thesis by (simp add: outer_loop_exit)
  next
    case True
    have here: "inner_loop primes target i (i + ml) (ml, mp) = (ml, mp)"
      using "1.prems" True by simp
    have "\<forall>i'. i + 1 \<le> i' \<and> i' < length primes
             \<longrightarrow> inner_loop primes target i' (i' + ml) (ml, mp) = (ml, mp)"
      using "1.prems" by simp
    from "1.hyps" [OF True here this]
    show ?thesis by (simp add: outer_loop_step [OF True] here)
  qed
qed

lemma py_slice_window:
  "py_slice xs i (i + L) = take L (drop i xs)"
  by (simp add: py_slice_def drop_take)

lemma window_sum_mono:
  fixes xs :: "int list"
  assumes "sorted_wrt (<) xs" "i \<le> i'" "i' + L \<le> length xs"
  shows "sum_list (py_slice xs i (i + L)) \<le> sum_list (py_slice xs i' (i' + L))"
  unfolding py_slice_window
proof (rule sum_list_mono2)
  show "length (take L (drop i xs)) = length (take L (drop i' xs))"
    using assms(2,3) by simp
next
  fix k
  show "k < length (take L (drop i xs)) \<longrightarrow> take L (drop i xs) ! k \<le> take L (drop i' xs) ! k"
  proof
    assume "k < length (take L (drop i xs))"
    then have k: "k < L" by simp
    have "sorted xs" using assms(1) by (simp add: strict_sorted_iff)
    then have "xs ! (i + k) \<le> xs ! (i' + k)"
      using assms(2,3) k by (intro sorted_nth_mono) simp_all
    then show "take L (drop i xs) ! k \<le> take L (drop i' xs) ! k"
      using assms(2,3) k by simp
  qed
qed

lemma py_slice_sum_diff:
  fixes xs :: "int list"
  assumes "i \<le> j"
  shows "sum_list (py_slice xs i j) = sum_list (take j xs) - sum_list (take i xs)"
proof -
  have "take j xs = take i (take j xs) @ drop i (take j xs)"
    by (rule append_take_drop_id [symmetric])
  also have "take i (take j xs) = take i xs" using assms by (simp add: min_def)
  finally have "sum_list (take j xs) = sum_list (take i xs) + sum_list (py_slice xs i j)"
    by (metis py_slice_def sum_list_append)
  then show ?thesis by simp
qed

lemma slice_sum:
  assumes "prefix_sum xs i si" "prefix_sum xs j sj" "i \<le> j"
  shows "sum_list (py_slice xs i j) = sj - si"
  using assms by (simp add: prefix_sum_def py_slice_sum_diff)

section \<open>Primality by certificate\<close>

subsection \<open>The test of Lucas\<close>

lemma modpow_eq: "0 \<le> e \<Longrightarrow> modpow a e n = a ^ nat e mod n"
proof (induction a e n rule: modpow.induct)
  case (1 a e n)
  show ?case
  proof (cases "e \<le> 0")
    case True
    with "1.prems" have "e = 0" by simp
    then show ?thesis by (subst modpow.simps) simp
  next
    case False
    define k where "k = nat (e div 2)"
    have q: "0 \<le> e div 2" using False by simp
    have h: "modpow a (e div 2) n = a ^ k mod n"
      using "1.IH" [OF False q] by (simp add: k_def)
    show ?thesis
    proof (cases "e mod 2 = 0")
      case True
      then have "e = 2 * (e div 2)" by presburger
      then have "nat e = nat (2 * (e div 2))" by simp
      also have "\<dots> = 2 * k" by (simp add: k_def nat_mult_distrib)
      finally have "a ^ nat e = a ^ k * a ^ k" by (simp add: power_add mult_2)
      then have "a ^ nat e mod n = (a ^ k mod n) * (a ^ k mod n) mod n"
        by (simp add: mod_mult_eq)
      then show ?thesis using False True h
        by (subst modpow.simps) (simp add: Let_def)
    next
      case odd: False
      then have "e = 2 * (e div 2) + 1" by presburger
      then have "nat e = nat (2 * (e div 2) + 1)" by simp
      also have "\<dots> = Suc (2 * k)" using q by (simp add: k_def nat_add_distrib nat_mult_distrib)
      finally have "a ^ nat e = a ^ k * a ^ k * a" by (simp add: power_add mult_2)
      moreover have "a ^ k * a ^ k * a mod n = (a ^ k mod n) * (a ^ k mod n) * a mod n"
        by (metis mod_mult_left_eq mod_mult_eq)
      ultimately have "a ^ nat e mod n = (a ^ k mod n) * (a ^ k mod n) * a mod n"
        by simp
      then show ?thesis using False odd h
        by (subst modpow.simps) (simp add: Let_def)
    qed
  qed
qed

lemma power_mod_one_mult:
  fixes a n :: int
  assumes "2 \<le> n" "a ^ e mod n = 1"
  shows "a ^ (e * k) mod n = 1"
proof -
  have "a ^ (e * k) mod n = (a ^ e mod n) ^ k mod n"
    by (simp add: power_mult power_mod)
  then show ?thesis using assms by simp
qed

lemma power_mod_one_gcd:
  fixes a n :: int
  assumes n: "2 \<le> n" and e: "0 < e" "a ^ e mod n = 1" and m: "a ^ m mod n = 1"
  shows "a ^ gcd e m mod n = 1"
proof -
  from e(1) have "e \<noteq> 0" by simp
  from bezout_nat [OF this, of m] obtain x y where xy: "e * x = m * y + gcd e m" by blast
  have "a ^ (e * x) mod n = 1" by (rule power_mod_one_mult [OF n e(2)])
  moreover have "a ^ (m * y) mod n = 1" by (rule power_mod_one_mult [OF n m])
  moreover have "a ^ (e * x) mod n = (a ^ (m * y) mod n) * (a ^ gcd e m) mod n"
    by (simp add: xy power_add mod_mult_left_eq)
  ultimately show ?thesis by simp
qed

lemma is_prime_coprime:
  assumes "is_prime q" "\<not> q dvd c"
  shows "coprime q c"
proof (rule coprimeI)
  fix d assume d: "d dvd q" "d dvd c"
  from assms(1) have q: "2 \<le> q" and np: "\<forall>e. 1 < e \<and> e < q \<longrightarrow> \<not> e dvd q"
    by (simp_all add: is_prime_iff_no_proper_divisor)
  have "\<bar>d\<bar> dvd q" using d(1) by simp
  moreover have "\<bar>d\<bar> \<le> q" using d(1) q by (intro zdvd_imp_le) auto
  moreover have "\<bar>d\<bar> \<noteq> q"
  proof
    assume "\<bar>d\<bar> = q"
    then have "q dvd d" by (metis abs_dvd_iff dvd_refl)
    then have "q dvd c" using d(2) by (rule dvd_trans)
    with assms(2) show False by simp
  qed
  moreover have "\<bar>d\<bar> \<noteq> 0" using d(1) q by auto
  ultimately have "\<bar>d\<bar> = 1" using np by (metis abs_ge_zero le_less not_less zle_add1_eq_le less_le one_add_one int_one_le_iff_zero_less)
  then show "is_unit d" by simp
qed

lemma coprime_prod_list:
  fixes c :: int
  assumes "\<forall>q \<in> set qs. coprime c q"
  shows "coprime c (prod_list qs)"
  using assms by (induction qs) (simp_all add: coprime_mult_right_iff)

lemma exists_prime_factor:
  fixes c :: int
  assumes "\<forall>q \<in> set qs. is_prime q" "c dvd prod_list qs" "1 < c"
  shows "\<exists>q \<in> set qs. q dvd c"
proof (rule ccontr)
  assume "\<not> (\<exists>q \<in> set qs. q dvd c)"
  with assms(1) have "\<forall>q \<in> set qs. coprime c q"
    by (auto intro: is_prime_coprime simp: coprime_commute)
  then have "coprime c (prod_list qs)" by (rule coprime_prod_list)
  with assms(2) have "is_unit c" by (simp add: coprime_absorb_left)
  with assms(3) show False by simp
qed

lemma coprime_of_power_one:
  fixes a n :: int
  assumes "2 \<le> n" "0 < m" "a ^ m mod n = 1"
  shows "coprime a n"
proof (rule coprimeI)
  fix c assume c: "c dvd a" "c dvd n"
  have "a dvd a ^ m" using assms(2) by (intro dvd_power) simp
  with c(1) have "c dvd a ^ m" by (rule dvd_trans)
  with c(2) have "c dvd a ^ m mod n" by (simp add: dvd_mod)
  with assms(3) show "is_unit c" by simp
qed

lemma lucas_order:
  fixes n a :: int and qs :: "int list"
  assumes n: "2 \<le> n"
    and one: "a ^ nat (n - 1) mod n = 1"
    and fact: "prod_list qs = n - 1"
    and qs: "\<forall>q \<in> set qs. is_prime q \<and> a ^ (nat (n - 1) div nat q) mod n \<noteq> 1"
    and e: "0 < e" "e < nat (n - 1)"
  shows "a ^ e mod n \<noteq> 1"
proof
  assume ae: "a ^ e mod n = 1"
  define m where "m = nat (n - 1)"
  define g where "g = gcd e m"
  have ag: "a ^ g mod n = 1"
    unfolding g_def m_def by (rule power_mod_one_gcd [OF n e(1) ae one])
  have gm: "g dvd m" by (simp add: g_def)
  have "g \<le> e" unfolding g_def using e(1) by (intro gcd_le1_nat) simp
  then have g_lt: "g < m" using e(2) by (simp add: m_def)
  have g_pos: "0 < g" using e(1) by (simp add: g_def)
  define c where "c = m div g"
  have m_eq: "m = g * c" using gm by (simp add: c_def)
  have c_gt: "1 < c"
  proof (rule ccontr)
    assume "\<not> 1 < c"
    then have "c = 0 \<or> c = 1" by auto
    then show False using m_eq g_lt g_pos by auto
  qed
  have "int c dvd int m" using m_eq by simp
  moreover have "int m = prod_list qs" using n fact by (simp add: m_def)
  ultimately have "int c dvd prod_list qs" by simp
  moreover have "\<forall>q \<in> set qs. is_prime q" using qs by simp
  moreover have "1 < int c" using c_gt by simp
  ultimately obtain q where q: "q \<in> set qs" "q dvd int c"
    using exists_prime_factor by blast
  from q(1) qs have qp: "is_prime q" and qn: "a ^ (m div nat q) mod n \<noteq> 1"
    by (simp_all add: m_def)
  from qp have q2: "2 \<le> q" by (simp add: is_prime_iff)
  then have "int (nat q) dvd int c" using q(2) by simp
  then have "nat q dvd c" by (simp only: int_dvd_int_iff)
  then obtain c' where c': "c = nat q * c'" by (auto simp: dvd_def)
  have "m = nat q * (g * c')" using m_eq c' by simp
  moreover have "0 < nat q" using q2 by simp
  ultimately have "m div nat q = g * c'" by simp
  then have "a ^ (m div nat q) mod n = 1"
    using power_mod_one_mult [OF n ag, of c'] by simp
  with qn show False by simp
qed

lemma lucas_prime:
  fixes n a :: int and qs :: "int list"
  assumes n: "2 \<le> n"
    and one: "a ^ nat (n - 1) mod n = 1"
    and fact: "prod_list qs = n - 1"
    and qs: "\<forall>q \<in> set qs. is_prime q \<and> a ^ (nat (n - 1) div nat q) mod n \<noteq> 1"
  shows "is_prime n"
proof -
  define m where "m = nat (n - 1)"
  define f where "f k = a ^ k mod n" for k :: nat
  have m_pos: "0 < m" using n by (simp add: m_def)
  have cop: "coprime a n"
    using n m_pos one unfolding m_def by (rule coprime_of_power_one)
  have ord: "a ^ e mod n \<noteq> 1" if "0 < e" "e < m" for e
    using lucas_order [OF n one fact qs] that by (simp add: m_def)
  have inj: "inj_on f {0..<m}"
  proof (rule linorder_inj_onI')
    fix i j assume ij: "i \<in> {0..<m}" "j \<in> {0..<m}" "i < j"
    show "f i \<noteq> f j"
    proof
      assume eq: "f i = f j"
      define e where "e = j - i"
      have e: "0 < e" "e < m" using ij by (simp_all add: e_def)
      have "a ^ j = a ^ i * a ^ e" using ij(3) by (simp add: e_def flip: power_add)
      with eq have "(a ^ i * a ^ e) mod n = (a ^ i * 1) mod n" by (simp add: f_def)
      then have "n dvd a ^ i * a ^ e - a ^ i * 1" by (simp only: mod_eq_dvd_iff)
      then have "n dvd a ^ i * (a ^ e - 1)" by (simp add: right_diff_distrib)
      moreover have "coprime n (a ^ i)"
        using cop by (simp add: coprime_commute)
      ultimately have "n dvd a ^ e - 1"
        by (simp add: coprime_dvd_mult_right_iff)
      then have "a ^ e mod n = 1 mod n" by (simp only: mod_eq_dvd_iff)
      then have "a ^ e mod n = 1" using n by simp
      with ord [OF e] show False by simp
    qed
  qed
  have rng: "1 \<le> f k \<and> f k < n \<and> coprime (f k) n" for k
  proof -
    have "coprime (a ^ k) n" using cop by simp
    then have c: "coprime (f k) n" using n by (simp add: f_def coprime_mod_left_iff)
    have "0 \<le> f k" "f k < n" using n by (simp_all add: f_def)
    moreover have "f k \<noteq> 0"
    proof
      assume "f k = 0"
      with c have "is_unit n" by simp
      with n show False by simp
    qed
    ultimately show ?thesis using c by simp
  qed
  have "\<not> d dvd n" if d: "1 < d \<and> d < n" for d
  proof
    assume dn: "d dvd n"
    have sub: "f ` {0..<m} \<subseteq> {1..n - 1} - {d}"
    proof
      fix x assume "x \<in> f ` {0..<m}"
      then obtain k where x: "x = f k" by auto
      have "f k \<noteq> d"
      proof
        assume "f k = d"
        with rng [of k] have "coprime d n" by simp
        with dn have "is_unit d" by (simp add: coprime_absorb_left)
        with d show False by simp
      qed
      with rng [of k] x show "x \<in> {1..n - 1} - {d}" by simp
    qed
    have "card (f ` {0..<m}) = m" using inj by (simp add: card_image)
    moreover have "card ({1..n - 1} - {d}) = m - 1"
      using d n by (simp add: m_def)
    moreover have "card (f ` {0..<m}) \<le> card ({1..n - 1} - {d})"
      using sub by (intro card_mono) simp_all
    ultimately show False using m_pos by simp
  qed
  then show ?thesis using n by (simp add: is_prime_iff_no_proper_divisor)
qed

lemma lucas_certificate:
  fixes n a :: int and qs :: "int list"
  assumes "2 \<le> n"
    and "modpow a (n - 1) n = 1"
    and "prod_list qs = n - 1"
    and "\<forall>q \<in> set qs. is_prime q \<and> modpow a ((n - 1) div q) n \<noteq> 1"
  shows "is_prime n"
proof (rule lucas_prime [OF assms(1) _ assms(3)])
  show "a ^ nat (n - 1) mod n = 1"
    using assms(1,2) by (simp add: modpow_eq)
  show "\<forall>q \<in> set qs. is_prime q \<and> a ^ (nat (n - 1) div nat q) mod n \<noteq> 1"
  proof
    fix q assume q: "q \<in> set qs"
    with assms(4) have qp: "is_prime q" and mp: "modpow a ((n - 1) div q) n \<noteq> 1" by simp_all
    from qp have q2: "2 \<le> q" by (simp add: is_prime_iff)
    have "0 \<le> (n - 1) div q" using assms(1) q2 by (simp add: pos_imp_zdiv_nonneg_iff)
    then have "modpow a ((n - 1) div q) n = a ^ nat ((n - 1) div q) mod n"
      by (rule modpow_eq)
    moreover have "nat ((n - 1) div q) = nat (n - 1) div nat q"
      using assms(1) q2 by (simp add: nat_div_distrib)
    ultimately show "is_prime q \<and> a ^ (nat (n - 1) div nat q) mod n \<noteq> 1"
      using qp mp by simp
  qed
qed

lemma is_prime_small:
  "is_prime 2" "is_prime 3" "is_prime 5" "is_prime 19" "is_prime 23" "is_prime 149"
  "is_prime 181" "is_prime 331" "is_prime 547" "is_prime 739"
  by (simp_all add: is_prime_def is_prime_loop.simps)

lemma is_prime_22605091: "is_prime 22605091"
  by (rule lucas_certificate [where a = 11 and qs = "[2, 3, 5, 23, 181, 181]"])
     (simp_all add: is_prime_small, code_simp+)

lemma is_prime_4294967291: "is_prime 4294967291"
  by (rule lucas_certificate [where a = 2 and qs = "[2, 5, 19, 22605091]"])
     (simp_all add: is_prime_22605091 is_prime_small, code_simp+)

lemma is_prime_958577: "is_prime 958577"
  by (rule lucas_certificate [where a = 3 and qs = "[2, 2, 2, 2, 181, 331]"])
     (simp_all add: is_prime_small, code_simp+)

lemma is_prime_978037: "is_prime 978037"
  by (rule lucas_certificate [where a = 2 and qs = "[2, 2, 3, 149, 547]"])
     (simp_all add: is_prime_small, code_simp+)

lemma is_prime_997651: "is_prime 997651"
  by (rule lucas_certificate [where a = 3 and qs = "[2, 3, 3, 3, 5, 5, 739]"])
     (simp_all add: is_prime_small, code_simp+)

subsection \<open>The primes up to 3943\<close>

lemma small_primes_prod: "prod_list small_primes = small_prime_product"
  by (simp add: small_primes_def small_prime_product_def)

lemma dvd_prod_list_member:
  fixes q :: int
  shows "q \<in> set xs \<Longrightarrow> q dvd prod_list xs"
  by (induction xs) (auto simp: dvd_mult)

lemma small_primes_dvd: "q \<in> set small_primes \<Longrightarrow> q dvd small_prime_product"
  unfolding small_primes_prod [symmetric] by (rule dvd_prod_list_member)

lemma small_factor:
  fixes d :: int
  assumes "2 \<le> d" "d \<le> 66"
  shows "\<exists>q \<in> set small_primes. q dvd d"
proof -
  have "d \<in> set [2..66]" using assms by (simp only: set_upto atLeastAtMost_iff)
  moreover have "\<forall>d \<in> set [2..66]. \<exists>q \<in> set small_primes. q dvd d"
    unfolding small_primes_def by code_simp
  ultimately show ?thesis by blast
qed

lemma bezout_is_prime:
  assumes n: "2 \<le> n" "n < 4489" and bz: "u * n = v * small_prime_product + 1"
  shows "is_prime n"
  unfolding is_prime_iff
proof (intro conjI allI impI notI)
  show "2 \<le> n" by fact
next
  fix d assume d: "2 \<le> d \<and> d * d \<le> n" and dn: "d dvd n"
  have "d \<le> 66"
  proof (rule ccontr)
    assume "\<not> d \<le> 66"
    then have "67 * 67 \<le> d * d" by (intro mult_mono) auto
    with d n show False by simp
  qed
  with d obtain q where q: "q \<in> set small_primes" "q dvd d"
    using small_factor by blast
  from q(2) dn have "q dvd n" by (rule dvd_trans)
  then have "q dvd u * n" by simp
  moreover have "q dvd v * small_prime_product"
    using small_primes_dvd [OF q(1)] by simp
  ultimately have "q dvd u * n - v * small_prime_product" by (rule dvd_diff)
  with bz have "q dvd 1" by simp
  moreover have "2 \<le> q" using q(1) by (auto simp: small_primes_def)
  ultimately show False by simp
qed

lemma product_not_prime:
  assumes "2 \<le> a" "2 \<le> b"
  shows "\<not> is_prime (a * b)"
proof -
  have "a * 1 < a * b" using assms by (intro mult_strict_left_mono) auto
  then have "1 < a \<and> a < a * b" using assms by simp
  moreover have "a dvd a * b" by simp
  ultimately show ?thesis unfolding is_prime_iff_no_proper_divisor by blast
qed

lemma sieve_step_sound:
  assumes "primes_state st" "sieve_step st x = Some st'" "fst st' < 4489"
  shows "primes_state st' \<and> fst st' = fst st + 1"
proof -
  obtain n c s where st: "st = (n, c, s)" by (cases st) auto
  from assms(1) have n: "61 \<le> n" and len: "length (generate_primes n) = c"
    and sm: "sum_list (generate_primes n) = s"
    by (simp_all add: primes_state_def st)
  have gp: "generate_primes (n + 1) = generate_primes n @ (if is_prime (n + 1) then [n + 1] else [])"
    using n by (intro generate_primes_Suc) simp
  show ?thesis
  proof (cases x)
    case (Cm a b)
    with assms(2) have ab: "2 \<le> a" "2 \<le> b" "a * b = n + 1" and st': "st' = (n + 1, c, s)"
      by (auto simp: st split: if_splits)
    from product_not_prime [OF ab(1,2)] ab(3) have "\<not> is_prime (n + 1)" by simp
    then show ?thesis using gp n len sm by (simp add: primes_state_def st st')
  next
    case (Pr u v)
    with assms(2) have bz: "u * (n + 1) = v * small_prime_product + 1"
      and st': "st' = (n + 1, c + 1, s + (n + 1))"
      by (auto simp: st split: if_splits)
    have "is_prime (n + 1)"
      using n assms(3) bz by (intro bezout_is_prime [of _ u v]) (simp_all add: st')
    then show ?thesis using gp n len sm by (simp add: primes_state_def st st')
  qed
qed

lemma sieve_run_fst:
  "sieve_run st certs = Some st' \<Longrightarrow> fst st \<le> fst st'"
proof (induction certs arbitrary: st)
  case Nil
  then show ?case by simp
next
  case (Cons x xs)
  then obtain st1 where st1: "sieve_step st x = Some st1" "sieve_run st1 xs = Some st'"
    by (auto split: option.splits)
  have "fst st \<le> fst st1"
    using st1(1) by (cases st; cases x) (auto split: if_splits)
  with Cons.IH [OF st1(2)] show ?case by simp
qed

lemma sieve_run_sound:
  assumes "primes_state st" "sieve_run st certs = Some st'" "fst st' < 4489"
  shows "primes_state st'"
  using assms
proof (induction certs arbitrary: st)
  case Nil
  then show ?case by simp
next
  case (Cons x xs)
  then obtain st1 where st1: "sieve_step st x = Some st1" "sieve_run st1 xs = Some st'"
    by (auto split: option.splits)
  have "fst st1 \<le> fst st'" using st1(2) by (rule sieve_run_fst)
  with Cons.prems(3) have "fst st1 < 4489" by simp
  with sieve_step_sound [OF Cons.prems(1) st1(1)] have "primes_state st1" by simp
  from Cons.IH [OF this st1(2) Cons.prems(3)] show ?case .
qed

lemma primes_upto_61: "primes_state (61, 18, 501)"
  unfolding primes_state_def by code_simp

text \<open>
  The count and the sum of the primes up to each bound, from the certificates of the
  numbers since the bound before.
\<close>

lemma primes_upto_125: "primes_state (125, 30, 1593)"
  by (rule sieve_run_sound [OF primes_upto_61, where certs = "[
        Cm 2 31, Cm 3 21, Cm 2 32, Cm 5 13, Cm 2 33, Pr 50766612827206002365893 29, Cm 2 34, Cm 3 23, Cm
        2 35, Pr 19823388398773009180271 12, Cm 2 36, Pr 16066901556083146710037 10, Cm 2 37, Cm 3
        25, Cm 2 38, Cm 7 11, Cm 2 39, Pr 96503098586853836884969 65, Cm 2 40, Cm 3 27, Cm 2 41, Pr
        105983477131994250888497 75, Cm 2 42, Cm 5 17, Cm 2 43, Cm 3 29, Cm 2 44, Pr
        65892349078318523024309 50, Cm 2 45, Cm 7 13, Cm 2 46, Cm 3 31, Cm 2 47, Cm 5 19, Cm 2 48, Pr
        87059417091518576399953 72, Cm 2 49, Cm 3 33, Cm 2 50, Pr 114965839154270199280631 99, Cm 2
        51, Pr 101346271271720586577777 89, Cm 2 52, Cm 3 35, Cm 2 53, Pr 42749970775858615592033 39,
        Cm 2 54, Pr 62410331365556002908529 58, Cm 2 55, Cm 3 37, Cm 2 56, Pr 84073972478866943802167
        81, Cm 2 57, Cm 5 23, Cm 2 58, Cm 3 39, Cm 2 59, Cm 7 17, Cm 2 60, Cm 11 11, Cm 2 61, Cm 3 41, Cm 2
        62, Cm 5 25]"])
     (simp_all add: small_prime_product_def)

lemma primes_upto_189: "primes_state (189, 42, 3447)"
  by (rule sieve_run_sound [OF primes_upto_125, where certs = "[
        Cm 2 63, Pr 73882444950807540776863 80, Cm 2 64, Cm 3 43, Cm 2 65, Pr 103858414028177165145491
        116, Cm 2 66, Cm 7 19, Cm 2 67, Cm 3 45, Cm 2 68, Pr 79619120192882104390103 93, Cm 2 69, Pr
        31220648275525596592669 37, Cm 2 70, Cm 3 47, Cm 2 71, Cm 11 13, Cm 2 72, Cm 5 29, Cm 2 73, Cm 3
        49, Cm 2 74, Pr 94460441363280781999949 120, Cm 2 75, Pr 36506979628424686332541 47, Cm 2 76,
        Cm 3 51, Cm 2 77, Cm 5 31, Cm 2 78, Pr 73958915634275733295183 99, Cm 2 79, Cm 3 53, Cm 2 80, Cm
        7 23, Cm 2 81, Pr 69077819696337847941067 96, Cm 2 82, Cm 3 55, Cm 2 83, Pr
        61102330408792853146973 87, Cm 2 84, Cm 13 13, Cm 2 85, Cm 3 57, Cm 2 86, Pr
        79322200110119165347067 117, Cm 2 87, Cm 5 35, Cm 2 88, Cm 3 59, Cm 2 89, Pr
        62248023626500906387769 95, Cm 2 90, Pr 33696109561818577299061 52, Cm 2 91, Cm 3 61, Cm 2
        92, Cm 5 37, Cm 2 93, Cm 11 17, Cm 2 94, Cm 3 63]"])
     (simp_all add: small_prime_product_def)

lemma primes_upto_253: "primes_state (253, 54, 6081)"
  by (rule sieve_run_sound [OF primes_upto_189, where certs = "[
        Cm 2 95, Pr 70004583638598925089491 114, Cm 2 96, Pr 82041095769533373485707 135, Cm 2 97, Cm
        3 65, Cm 2 98, Pr 69658581822591957386003 117, Cm 2 99, Pr 73084217530484745738319 124, Cm 2
        100, Cm 3 67, Cm 2 101, Cm 7 29, Cm 2 102, Cm 5 41, Cm 2 103, Cm 3 69, Cm 2 104, Cm 11 19, Cm 2
        105, Pr 67260161822219163454861 121, Cm 2 106, Cm 3 71, Cm 2 107, Cm 5 43, Cm 2 108, Cm 7 31, Cm
        2 109, Cm 3 73, Cm 2 110, Cm 13 17, Cm 2 111, Pr 525956867082542470777 1, Cm 2 112, Cm 3 75, Cm
        2 113, Pr 55285712799368043591233 107, Cm 2 114, Pr 110630088967824915861949 216, Cm 2 115,
        Cm 3 77, Cm 2 116, Pr 27686098604151860103347 55, Cm 2 117, Cm 5 47, Cm 2 118, Cm 3 79, Cm 2
        119, Pr 102075244028270501943599 208, Cm 2 120, Pr 99281451441157767969241 204, Cm 2 121, Cm
        3 81, Cm 2 122, Cm 5 49, Cm 2 123, Cm 13 19, Cm 2 124, Cm 3 83, Cm 2 125, Pr
        114017390644204386135131 244, Cm 2 126, Cm 11 23]"])
     (simp_all add: small_prime_product_def)

lemma primes_upto_317: "primes_state (317, 66, 9523)"
  by (rule sieve_run_sound [OF primes_upto_253, where certs = "[
        Cm 2 127, Cm 3 85, Cm 2 128, Pr 111811881062469680509343 245, Cm 2 129, Cm 7 37, Cm 2 130, Cm 3
        87, Cm 2 131, Pr 83841124317750990664847 188, Cm 2 132, Cm 5 53, Cm 2 133, Cm 3 89, Cm 2 134, Pr
        71506671163355922829949 164, Cm 2 135, Pr 114258792173001624869311 264, Cm 2 136, Cm 3 91, Cm
        2 137, Cm 5 55, Cm 2 138, Pr 46153189776806353202803 109, Cm 2 139, Cm 3 93, Cm 2 140, Pr
        61357267116842792649611 147, Cm 2 141, Pr 79988189407652103886117 193, Cm 2 142, Cm 3 95, Cm
        2 143, Cm 7 41, Cm 2 144, Cm 17 17, Cm 2 145, Cm 3 97, Cm 2 146, Pr 73255200644271248088527
        183, Cm 2 147, Cm 5 59, Cm 2 148, Cm 3 99, Cm 2 149, Cm 13 23, Cm 2 150, Cm 7 43, Cm 2 151, Cm 3
        101, Cm 2 152, Cm 5 61, Cm 2 153, Pr 96275804894366634162163 252, Cm 2 154, Cm 3 103, Cm 2 155,
        Pr 82215006869294918567051 218, Cm 2 156, Pr 63328231468817182415887 169, Cm 2 157, Cm 3 105,
        Cm 2 158, Pr 67709065579720743501383 183]"])
     (simp_all add: small_prime_product_def)

lemma primes_upto_381: "primes_state (381, 75, 12718)"
  by (rule sieve_run_sound [OF primes_upto_317, where certs = "[
        Cm 2 159, Cm 11 29, Cm 2 160, Cm 3 107, Cm 2 161, Cm 17 19, Cm 2 162, Cm 5 65, Cm 2 163, Cm 3 109,
        Cm 2 164, Cm 7 47, Cm 2 165, Pr 12047749142658117865351 34, Cm 2 166, Cm 3 111, Cm 2 167, Cm 5
        67, Cm 2 168, Pr 16357726777127975181643 47, Cm 2 169, Cm 3 113, Cm 2 170, Cm 11 31, Cm 2 171,
        Cm 7 49, Cm 2 172, Cm 3 115, Cm 2 173, Pr 82135667637855602158313 243, Cm 2 174, Pr
        54107247561216396356179 161, Cm 2 175, Cm 3 117, Cm 2 176, Pr 88713874852582609780547 267, Cm
        2 177, Cm 5 71, Cm 2 178, Cm 3 119, Cm 2 179, Pr 30057189651992872786799 92, Cm 2 180, Cm 19
        19, Cm 2 181, Cm 3 121, Cm 2 182, Cm 5 73, Cm 2 183, Pr 63917374037823962388703 200, Cm 2 184,
        Cm 3 123, Cm 2 185, Cm 7 53, Cm 2 186, Pr 15722303131287797718937 50, Cm 2 187, Cm 3 125, Cm 2
        188, Cm 13 29, Cm 2 189, Pr 79842750371311341724759 258, Cm 2 190, Cm 3 127]"])
     (simp_all add: small_prime_product_def)

lemma primes_upto_445: "primes_state (445, 86, 17283)"
  by (rule sieve_run_sound [OF primes_upto_381, where certs = "[
        Cm 2 191, Pr 75946523700085975989167 248, Cm 2 192, Cm 5 77, Cm 2 193, Cm 3 129, Cm 2 194, Pr
        87137126511230371758779 289, Cm 2 195, Cm 17 23, Cm 2 196, Cm 3 131, Cm 2 197, Cm 5 79, Cm 2
        198, Pr 114924887528486931265723 389, Cm 2 199, Cm 3 133, Cm 2 200, Pr
        64347740396682128719001 220, Cm 2 201, Cm 13 31, Cm 2 202, Cm 3 135, Cm 2 203, Cm 11 37, Cm 2
        204, Pr 12617820977540114237809 44, Cm 2 205, Cm 3 137, Cm 2 206, Cm 7 59, Cm 2 207, Cm 5 83, Cm
        2 208, Cm 3 139, Cm 2 209, Pr 66062190932744737833059 236, Cm 2 210, Pr
        112830865678289366385331 405, Cm 2 211, Cm 3 141, Cm 2 212, Cm 5 85, Cm 2 213, Cm 7 61, Cm 2
        214, Cm 3 143, Cm 2 215, Pr 32927828641504045218041 121, Cm 2 216, Pr 77740797806350578919627
        287, Cm 2 217, Cm 3 145, Cm 2 218, Cm 19 23, Cm 2 219, Pr 6679292788121125910209 25, Cm 2 220,
        Cm 3 147, Cm 2 221, Pr 29123525845450940876207 110, Cm 2 222, Cm 5 89]"])
     (simp_all add: small_prime_product_def)

lemma primes_upto_509: "primes_state (509, 97, 22548)"
  by (rule sieve_run_sound [OF primes_upto_445, where certs = "[
        Cm 2 223, Cm 3 149, Cm 2 224, Pr 53027931884097138328739 203, Cm 2 225, Cm 11 41, Cm 2 226, Cm 3
        151, Cm 2 227, Cm 5 91, Cm 2 228, Pr 65445376907327740920643 255, Cm 2 229, Cm 3 153, Cm 2 230,
        Pr 14502034137714094026131 57, Cm 2 231, Pr 49904559671281151800657 197, Cm 2 232, Cm 3 155,
        Cm 2 233, Pr 74090091008618964539753 295, Cm 2 234, Cm 7 67, Cm 2 235, Cm 3 157, Cm 2 236, Cm 11
        43, Cm 2 237, Cm 5 95, Cm 2 238, Cm 3 159, Cm 2 239, Pr 8814993171061901785799 36, Cm 2 240, Cm
        13 37, Cm 2 241, Cm 3 161, Cm 2 242, Cm 5 97, Cm 2 243, Pr 77550018065152042416043 322, Cm 2
        244, Cm 3 163, Cm 2 245, Pr 65929925163332635420331 276, Cm 2 246, Cm 17 29, Cm 2 247, Cm 3
        165, Cm 2 248, Cm 7 71, Cm 2 249, Pr 21389263935282633986929 91, Cm 2 250, Cm 3 167, Cm 2 251,
        Pr 51532270935246402758057 221, Cm 2 252, Cm 5 101, Cm 2 253, Cm 3 169, Cm 2 254, Pr
        70741715279642318451599 307]"])
     (simp_all add: small_prime_product_def)

lemma primes_upto_573: "primes_state (573, 105, 26940)"
  by (rule sieve_run_sound [OF primes_upto_509, where certs = "[
        Cm 2 255, Cm 7 73, Cm 2 256, Cm 3 171, Cm 2 257, Cm 5 103, Cm 2 258, Cm 11 47, Cm 2 259, Cm 3 173,
        Cm 2 260, Pr 61458211345716128749391 273, Cm 2 261, Pr 57410756458906662661027 256, Cm 2 262,
        Cm 3 175, Cm 2 263, Cm 17 31, Cm 2 264, Cm 23 23, Cm 2 265, Cm 3 177, Cm 2 266, Cm 13 41, Cm 2
        267, Cm 5 107, Cm 2 268, Cm 3 179, Cm 2 269, Cm 7 77, Cm 2 270, Pr 28183899402445298018161 130,
        Cm 2 271, Cm 3 181, Cm 2 272, Cm 5 109, Cm 2 273, Pr 81051203206317797132863 378, Cm 2 274, Cm 3
        183, Cm 2 275, Cm 19 29, Cm 2 276, Cm 7 79, Cm 2 277, Cm 3 185, Cm 2 278, Pr
        72226058898162641018423 343, Cm 2 279, Cm 13 43, Cm 2 280, Cm 3 187, Cm 2 281, Pr
        106455351464754817357817 511, Cm 2 282, Cm 5 113, Cm 2 283, Cm 3 189, Cm 2 284, Pr
        98736616293771421970099 479, Cm 2 285, Pr 40054701164771207253481 195, Cm 2 286, Cm 3 191]"])
     (simp_all add: small_prime_product_def)

lemma primes_upto_637: "primes_state (637, 115, 32984)"
  by (rule sieve_run_sound [OF primes_upto_573, where certs = "[
        Cm 2 287, Cm 5 115, Cm 2 288, Pr 84764740081235193934183 417, Cm 2 289, Cm 3 193, Cm 2 290, Cm 7
        83, Cm 2 291, Cm 11 53, Cm 2 292, Cm 3 195, Cm 2 293, Pr 49353032701488112151393 247, Cm 2 294,
        Cm 19 31, Cm 2 295, Cm 3 197, Cm 2 296, Pr 73379408911197278642147 371, Cm 2 297, Cm 5 119, Cm 2
        298, Cm 3 199, Cm 2 299, Pr 64420496606418853845569 329, Cm 2 300, Pr 70841401719575258680411
        363, Cm 2 301, Cm 3 201, Cm 2 302, Cm 5 121, Cm 2 303, Pr 91589279677691769762883 474, Cm 2
        304, Cm 3 203, Cm 2 305, Cm 13 47, Cm 2 306, Pr 82465403533286141099167 431, Cm 2 307, Cm 3
        205, Cm 2 308, Pr 69574631406066371766413 366, Cm 2 309, Pr 82045022824916346422869 433, Cm 2
        310, Cm 3 207, Cm 2 311, Cm 7 89, Cm 2 312, Cm 5 125, Cm 2 313, Cm 3 209, Cm 2 314, Cm 17 37, Cm 2
        315, Pr 16914806186538881710741 91, Cm 2 316, Cm 3 211, Cm 2 317, Cm 5 127, Cm 2 318, Cm 7 91]"])
     (simp_all add: small_prime_product_def)

lemma primes_upto_701: "primes_state (701, 126, 40313)"
  by (rule sieve_run_sound [OF primes_upto_637, where certs = "[
        Cm 2 319, Cm 3 213, Cm 2 320, Pr 30740168593417115639921 168, Cm 2 321, Pr
        15687092996748055217047 86, Cm 2 322, Cm 3 215, Cm 2 323, Pr 87014564223362204129783 480, Cm
        2 324, Cm 11 59, Cm 2 325, Cm 3 217, Cm 2 326, Pr 99686143421854316838767 555, Cm 2 327, Cm 5
        131, Cm 2 328, Cm 3 219, Cm 2 329, Pr 75285258444657281829929 423, Cm 2 330, Pr
        73637939885255511282991 415, Cm 2 331, Cm 3 221, Cm 2 332, Cm 5 133, Cm 2 333, Cm 23 29, Cm 2
        334, Cm 3 223, Cm 2 335, Cm 11 61, Cm 2 336, Pr 46531943273345707656067 267, Cm 2 337, Cm 3
        225, Cm 2 338, Pr 54053138824423892092733 312, Cm 2 339, Cm 7 97, Cm 2 340, Cm 3 227, Cm 2 341,
        Pr 39840270095728282969427 232, Cm 2 342, Cm 5 137, Cm 2 343, Cm 3 229, Cm 2 344, Cm 13 53, Cm 2
        345, Pr 91997543700142660308151 542, Cm 2 346, Cm 3 231, Cm 2 347, Cm 5 139, Cm 2 348, Cm 17
        41, Cm 2 349, Cm 3 233, Cm 2 350, Pr 66591691556410805208761 398]"])
     (simp_all add: small_prime_product_def)

lemma primes_upto_765: "primes_state (765, 135, 46952)"
  by (rule sieve_run_sound [OF primes_upto_701, where certs = "[
        Cm 2 351, Cm 19 37, Cm 2 352, Cm 3 235, Cm 2 353, Cm 7 101, Cm 2 354, Pr 46485240002811507540619
        281, Cm 2 355, Cm 3 237, Cm 2 356, Cm 23 31, Cm 2 357, Cm 5 143, Cm 2 358, Cm 3 239, Cm 2 359, Pr
        53342560089744199598789 327, Cm 2 360, Cm 7 103, Cm 2 361, Cm 3 241, Cm 2 362, Cm 5 145, Cm 2
        363, Pr 110512436356525137721513 685, Cm 2 364, Cm 3 243, Cm 2 365, Cm 17 43, Cm 2 366, Pr
        65604688072792439431297 410, Cm 2 367, Cm 3 245, Cm 2 368, Cm 11 67, Cm 2 369, Pr
        21584871265060010898139 136, Cm 2 370, Cm 3 247, Cm 2 371, Pr 44042339702926709157917 279, Cm
        2 372, Cm 5 149, Cm 2 373, Cm 3 249, Cm 2 374, Cm 7 107, Cm 2 375, Pr 112446916882520664591151
        720, Cm 2 376, Cm 3 251, Cm 2 377, Cm 5 151, Cm 2 378, Pr 65538950218004159479423 423, Cm 2
        379, Cm 3 253, Cm 2 380, Pr 25430463763866163222391 165, Cm 2 381, Cm 7 109, Cm 2 382, Cm 3 255]"])
     (simp_all add: small_prime_product_def)

lemma primes_upto_829: "primes_state (829, 145, 54998)"
  by (rule sieve_run_sound [OF primes_upto_765, where certs = "[
        Cm 2 383, Cm 13 59, Cm 2 384, Pr 97460696604240642988699 639, Cm 2 385, Cm 3 257, Cm 2 386, Pr
        78748602749718263829647 519, Cm 2 387, Cm 5 155, Cm 2 388, Cm 3 259, Cm 2 389, Cm 19 41, Cm 2
        390, Cm 11 71, Cm 2 391, Cm 3 261, Cm 2 392, Cm 5 157, Cm 2 393, Pr 42027094718364378420943
        282, Cm 2 394, Cm 3 263, Cm 2 395, Cm 7 113, Cm 2 396, Cm 13 61, Cm 2 397, Cm 3 265, Cm 2 398, Pr
        22368674989497941768453 152, Cm 2 399, Cm 17 47, Cm 2 400, Cm 3 267, Cm 2 401, Cm 11 73, Cm 2
        402, Cm 5 161, Cm 2 403, Cm 3 269, Cm 2 404, Pr 12468233370715697780669 86, Cm 2 405, Pr
        12437485569554869919311 86, Cm 2 406, Cm 3 271, Cm 2 407, Cm 5 163, Cm 2 408, Cm 19 43, Cm 2
        409, Cm 3 273, Cm 2 410, Pr 47858231127163623970031 335, Cm 2 411, Pr 34915739286822245310937
        245, Cm 2 412, Cm 3 275, Cm 2 413, Pr 72330198903624613302863 510, Cm 2 414, Pr
        79512750692384460425329 562]"])
     (simp_all add: small_prime_product_def)

lemma primes_upto_893: "primes_state (893, 154, 62797)"
  by (rule sieve_run_sound [OF primes_upto_829, where certs = "[
        Cm 2 415, Cm 3 277, Cm 2 416, Cm 7 119, Cm 2 417, Cm 5 167, Cm 2 418, Cm 3 279, Cm 2 419, Pr
        106803722715836621968079 764, Cm 2 420, Cm 29 29, Cm 2 421, Cm 3 281, Cm 2 422, Cm 5 169, Cm 2
        423, Cm 7 121, Cm 2 424, Cm 3 283, Cm 2 425, Cm 23 37, Cm 2 426, Pr 93225700541240241883537
        678, Cm 2 427, Cm 3 285, Cm 2 428, Pr 20255169709675882970273 148, Cm 2 429, Pr
        40552560260470163424949 297, Cm 2 430, Cm 3 287, Cm 2 431, Pr 54634912290245193899507 402, Cm
        2 432, Cm 5 173, Cm 2 433, Cm 3 289, Cm 2 434, Cm 11 79, Cm 2 435, Cm 13 67, Cm 2 436, Cm 3 291,
        Cm 2 437, Cm 5 175, Cm 2 438, Pr 95890273015615505353483 717, Cm 2 439, Cm 3 293, Cm 2 440, Pr
        76550305654550520221771 575, Cm 2 441, Pr 27495690760359278588377 207, Cm 2 442, Cm 3 295, Cm
        2 443, Pr 77354794921367618968673 585, Cm 2 444, Cm 7 127, Cm 2 445, Cm 3 297, Cm 2 446, Cm 19
        47]"])
     (simp_all add: small_prime_product_def)

lemma primes_upto_957: "primes_state (957, 162, 70241)"
  by (rule sieve_run_sound [OF primes_upto_893, where certs = "[
        Cm 2 447, Cm 5 179, Cm 2 448, Cm 3 299, Cm 2 449, Cm 29 31, Cm 2 450, Cm 17 53, Cm 2 451, Cm 3
        301, Cm 2 452, Cm 5 181, Cm 2 453, Pr 1681090361270441700973 13, Cm 2 454, Cm 3 303, Cm 2 455,
        Pr 19827015070635206949971 154, Cm 2 456, Cm 11 83, Cm 2 457, Cm 3 305, Cm 2 458, Cm 7 131, Cm 2
        459, Pr 39819341658471137047639 312, Cm 2 460, Cm 3 307, Cm 2 461, Cm 13 71, Cm 2 462, Cm 5
        185, Cm 2 463, Cm 3 309, Cm 2 464, Pr 29290532266288931397329 232, Cm 2 465, Cm 7 133, Cm 2
        466, Cm 3 311, Cm 2 467, Cm 5 187, Cm 2 468, Pr 3254533527582263869333 26, Cm 2 469, Cm 3 313,
        Cm 2 470, Pr 107815568412207258130211 865, Cm 2 471, Cm 23 41, Cm 2 472, Cm 3 315, Cm 2 473, Pr
        18082474845272880426143 146, Cm 2 474, Cm 13 73, Cm 2 475, Cm 3 317, Cm 2 476, Pr
        94150694375599509760967 765, Cm 2 477, Cm 5 191, Cm 2 478, Cm 3 319]"])
     (simp_all add: small_prime_product_def)

lemma primes_upto_1021: "primes_state (1021, 172, 80189)"
  by (rule sieve_run_sound [OF primes_upto_957, where certs = "[
        Cm 2 479, Cm 7 137, Cm 2 480, Cm 31 31, Cm 2 481, Cm 3 321, Cm 2 482, Cm 5 193, Cm 2 483, Pr
        84175942775003555183443 694, Cm 2 484, Cm 3 323, Cm 2 485, Pr 77789616473180318551211 644, Cm
        2 486, Cm 7 139, Cm 2 487, Cm 3 325, Cm 2 488, Pr 15486388122173489515703 129, Cm 2 489, Cm 11
        89, Cm 2 490, Cm 3 327, Cm 2 491, Pr 34840495785296882530127 292, Cm 2 492, Cm 5 197, Cm 2 493,
        Cm 3 329, Cm 2 494, Cm 23 43, Cm 2 495, Pr 48524961006414589407811 410, Cm 2 496, Cm 3 331, Cm 2
        497, Cm 5 199, Cm 2 498, Pr 6352630484862564125473 54, Cm 2 499, Cm 3 333, Cm 2 500, Cm 7 143,
        Cm 2 501, Cm 17 59, Cm 2 502, Cm 3 335, Cm 2 503, Cm 19 53, Cm 2 504, Pr 9066891720548804496229
        78, Cm 2 505, Cm 3 337, Cm 2 506, Pr 112657053368907189305747 973, Cm 2 507, Cm 5 203, Cm 2
        508, Cm 3 339, Cm 2 509, Pr 36141856473850626976199 314, Cm 2 510, Pr 40436346952508573737621
        352]"])
     (simp_all add: small_prime_product_def)

lemma primes_upto_1085: "primes_state (1085, 180, 88585)"
  by (rule sieve_run_sound [OF primes_upto_1021, where certs = "[
        Cm 2 511, Cm 3 341, Cm 2 512, Cm 5 205, Cm 2 513, Cm 13 79, Cm 2 514, Cm 3 343, Cm 2 515, Pr
        74855242419485729298731 658, Cm 2 516, Pr 66875950262043277743607 589, Cm 2 517, Cm 3 345, Cm
        2 518, Cm 17 61, Cm 2 519, Pr 113563148842698183646939 1006, Cm 2 520, Cm 3 347, Cm 2 521, Cm 7
        149, Cm 2 522, Cm 5 209, Cm 2 523, Cm 3 349, Cm 2 524, Pr 62278006117435350655559 557, Cm 2
        525, Pr 62494285024993248097651 560, Cm 2 526, Cm 3 351, Cm 2 527, Cm 5 211, Cm 2 528, Cm 7
        151, Cm 2 529, Cm 3 353, Cm 2 530, Pr 13044325165325186216801 118, Cm 2 531, Pr
        55720256431326924126577 505, Cm 2 532, Cm 3 355, Cm 2 533, Cm 11 97, Cm 2 534, Pr
        37633222456760141297719 343, Cm 2 535, Cm 3 357, Cm 2 536, Cm 29 37, Cm 2 537, Cm 5 215, Cm 2
        538, Cm 3 359, Cm 2 539, Cm 13 83, Cm 2 540, Cm 23 47, Cm 2 541, Cm 3 361, Cm 2 542, Cm 5 217]"])
     (simp_all add: small_prime_product_def)

lemma primes_upto_1149: "primes_state (1149, 189, 98534)"
  by (rule sieve_run_sound [OF primes_upto_1085, where certs = "[
        Cm 2 543, Pr 35067823313530143118273 325, Cm 2 544, Cm 3 363, Cm 2 545, Pr
        115138273543469171331881 1071, Cm 2 546, Pr 115142207867011600974427 1073, Cm 2 547, Cm 3
        365, Cm 2 548, Pr 37314170550987267888023 349, Cm 2 549, Cm 7 157, Cm 2 550, Cm 3 367, Cm 2
        551, Pr 319007383570463203037 3, Cm 2 552, Cm 5 221, Cm 2 553, Cm 3 369, Cm 2 554, Pr
        103962559852386882305279 983, Cm 2 555, Cm 11 101, Cm 2 556, Cm 3 371, Cm 2 557, Cm 5 223, Cm 2
        558, Pr 67936958585081745950023 647, Cm 2 559, Cm 3 373, Cm 2 560, Cm 19 59, Cm 2 561, Pr
        20261750653361489199247 194, Cm 2 562, Cm 3 375, Cm 2 563, Cm 7 161, Cm 2 564, Pr
        22024036180862956464529 212, Cm 2 565, Cm 3 377, Cm 2 566, Cm 11 103, Cm 2 567, Cm 5 227, Cm 2
        568, Cm 3 379, Cm 2 569, Cm 17 67, Cm 2 570, Cm 7 163, Cm 2 571, Cm 3 381, Cm 2 572, Cm 5 229, Cm
        2 573, Cm 31 37, Cm 2 574, Cm 3 383]"])
     (simp_all add: small_prime_product_def)

lemma primes_upto_1213: "primes_state (1213, 198, 109147)"
  by (rule sieve_run_sound [OF primes_upto_1149, where certs = "[
        Cm 2 575, Pr 32098905411132229243901 315, Cm 2 576, Pr 56965735959469127277217 560, Cm 2 577,
        Cm 3 385, Cm 2 578, Cm 13 89, Cm 2 579, Cm 19 61, Cm 2 580, Cm 3 387, Cm 2 581, Pr
        33280452148412984027927 330, Cm 2 582, Cm 5 233, Cm 2 583, Cm 3 389, Cm 2 584, Cm 7 167, Cm 2
        585, Pr 22035391886481241346131 220, Cm 2 586, Cm 3 391, Cm 2 587, Cm 5 235, Cm 2 588, Cm 11
        107, Cm 2 589, Cm 3 393, Cm 2 590, Pr 91169122851765960510281 918, Cm 2 591, Cm 7 169, Cm 2
        592, Cm 3 395, Cm 2 593, Pr 10473941385086047956383 106, Cm 2 594, Cm 29 41, Cm 2 595, Cm 3
        397, Cm 2 596, Pr 117190067544352983580937 1192, Cm 2 597, Cm 5 239, Cm 2 598, Cm 3 399, Cm 2
        599, Cm 11 109, Cm 2 600, Pr 40137822430238355598771 411, Cm 2 601, Cm 3 401, Cm 2 602, Cm 5
        241, Cm 2 603, Cm 17 71, Cm 2 604, Cm 3 403, Cm 2 605, Cm 7 173, Cm 2 606, Pr
        65557726761482214613897 678]"])
     (simp_all add: small_prime_product_def)

lemma primes_upto_1277: "primes_state (1277, 206, 119069)"
  by (rule sieve_run_sound [OF primes_upto_1213, where certs = "[
        Cm 2 607, Cm 3 405, Cm 2 608, Pr 47416502570935275040073 492, Cm 2 609, Cm 23 53, Cm 2 610, Cm 3
        407, Cm 2 611, Pr 52362597074600332098827 546, Cm 2 612, Cm 5 245, Cm 2 613, Cm 3 409, Cm 2
        614, Pr 21854385135316677262139 229, Cm 2 615, Pr 57548482811601795673351 604, Cm 2 616, Cm 3
        411, Cm 2 617, Cm 5 247, Cm 2 618, Pr 94627166205891800356753 998, Cm 2 619, Cm 3 413, Cm 2
        620, Cm 17 73, Cm 2 621, Cm 11 113, Cm 2 622, Cm 3 415, Cm 2 623, Cm 29 43, Cm 2 624, Pr
        40097789303816474467459 427, Cm 2 625, Cm 3 417, Cm 2 626, Cm 7 179, Cm 2 627, Cm 5 251, Cm 2
        628, Cm 3 419, Cm 2 629, Pr 39779300111570116449449 427, Cm 2 630, Cm 13 97, Cm 2 631, Cm 3
        421, Cm 2 632, Cm 5 253, Cm 2 633, Cm 7 181, Cm 2 634, Cm 3 423, Cm 2 635, Cm 31 41, Cm 2 636, Cm
        19 67, Cm 2 637, Cm 3 425, Cm 2 638, Pr 69528038127698572462283 757]"])
     (simp_all add: small_prime_product_def)

lemma primes_upto_1341: "primes_state (1341, 217, 133386)"
  by (rule sieve_run_sound [OF primes_upto_1277, where certs = "[
        Cm 2 639, Pr 76480461339910409538739 834, Cm 2 640, Cm 3 427, Cm 2 641, Pr
        105952637564733187349657 1159, Cm 2 642, Cm 5 257, Cm 2 643, Cm 3 429, Cm 2 644, Pr
        86715149290546814078399 953, Cm 2 645, Pr 68410651559747055887221 753, Cm 2 646, Cm 3 431, Cm
        2 647, Cm 5 259, Cm 2 648, Pr 69360207018246065338603 767, Cm 2 649, Cm 3 433, Cm 2 650, Pr
        48321731290270665985421 536, Cm 2 651, Pr 65800312182445507128757 731, Cm 2 652, Cm 3 435, Cm
        2 653, Pr 106250530627037378457683 1184, Cm 2 654, Cm 7 187, Cm 2 655, Cm 3 437, Cm 2 656, Cm
        13 101, Cm 2 657, Cm 5 263, Cm 2 658, Cm 3 439, Cm 2 659, Pr 106350950800493356554959 1196, Cm
        2 660, Pr 68188854567770290473241 768, Cm 2 661, Cm 3 441, Cm 2 662, Cm 5 265, Cm 2 663, Pr
        77072696718464867141983 872, Cm 2 664, Cm 3 443, Cm 2 665, Cm 11 121, Cm 2 666, Cm 31 43, Cm 2
        667, Cm 3 445, Cm 2 668, Cm 7 191, Cm 2 669, Cm 13 103, Cm 2 670, Cm 3 447]"])
     (simp_all add: small_prime_product_def)

lemma primes_upto_1405: "primes_state (1405, 222, 140267)"
  by (rule sieve_run_sound [OF primes_upto_1341, where certs = "[
        Cm 2 671, Cm 17 79, Cm 2 672, Cm 5 269, Cm 2 673, Cm 3 449, Cm 2 674, Cm 19 71, Cm 2 675, Cm 7
        193, Cm 2 676, Cm 3 451, Cm 2 677, Cm 5 271, Cm 2 678, Cm 23 59, Cm 2 679, Cm 3 453, Cm 2 680, Pr
        106257585757640554902551 1233, Cm 2 681, Cm 29 47, Cm 2 682, Cm 3 455, Cm 2 683, Pr
        79536451733848033724573 927, Cm 2 684, Cm 37 37, Cm 2 685, Cm 3 457, Cm 2 686, Pr
        54757357939825104443027 641, Cm 2 687, Cm 5 275, Cm 2 688, Cm 3 459, Cm 2 689, Cm 7 197, Cm 2
        690, Pr 53675783504087766590461 632, Cm 2 691, Cm 3 461, Cm 2 692, Cm 5 277, Cm 2 693, Cm 19
        73, Cm 2 694, Cm 3 463, Cm 2 695, Cm 13 107, Cm 2 696, Cm 7 199, Cm 2 697, Cm 3 465, Cm 2 698, Cm
        11 127, Cm 2 699, Pr 106305695184937840748239 1268, Cm 2 700, Cm 3 467, Cm 2 701, Cm 23 61, Cm
        2 702, Cm 5 281]"])
     (simp_all add: small_prime_product_def)

lemma primes_upto_1469: "primes_state (1469, 232, 154637)"
  by (rule sieve_run_sound [OF primes_upto_1405, where certs = "[
        Cm 2 703, Cm 3 469, Cm 2 704, Pr 86155766293105901325539 1035, Cm 2 705, Cm 17 83, Cm 2 706, Cm
        3 471, Cm 2 707, Cm 5 283, Cm 2 708, Cm 13 109, Cm 2 709, Cm 3 473, Cm 2 710, Cm 7 203, Cm 2 711,
        Pr 72202826472832400970727 876, Cm 2 712, Cm 3 475, Cm 2 713, Pr 77918279978078352131843 948,
        Cm 2 714, Pr 93814289638769886517759 1143, Cm 2 715, Cm 3 477, Cm 2 716, Pr
        95107536036029937391877 1162, Cm 2 717, Cm 5 287, Cm 2 718, Cm 3 479, Cm 2 719, Pr
        46214393489078354793269 567, Cm 2 720, Cm 11 131, Cm 2 721, Cm 3 481, Cm 2 722, Cm 5 289, Cm 2
        723, Pr 74814910846394356750213 923, Cm 2 724, Cm 3 483, Cm 2 725, Pr 4688301942691663898711
        58, Cm 2 726, Pr 81851630212277129096377 1014, Cm 2 727, Cm 3 485, Cm 2 728, Cm 31 47, Cm 2
        729, Pr 43008419484086860504489 535, Cm 2 730, Cm 3 487, Cm 2 731, Cm 7 209, Cm 2 732, Cm 5
        293, Cm 2 733, Cm 3 489, Cm 2 734, Cm 13 113]"])
     (simp_all add: small_prime_product_def)

lemma primes_upto_1533: "primes_state (1533, 242, 169605)"
  by (rule sieve_run_sound [OF primes_upto_1469, where certs = "[
        Cm 2 735, Pr 22724125552298427416881 285, Cm 2 736, Cm 3 491, Cm 2 737, Cm 5 295, Cm 2 738, Cm 7
        211, Cm 2 739, Cm 3 493, Cm 2 740, Pr 58208616002136477834371 735, Cm 2 741, Pr
        62321810189624203057867 788, Cm 2 742, Cm 3 495, Cm 2 743, Pr 32181344717308704883103 408, Cm
        2 744, Pr 62070681337281862414249 788, Cm 2 745, Cm 3 497, Cm 2 746, Pr
        27966954965806350750197 356, Cm 2 747, Cm 5 299, Cm 2 748, Cm 3 499, Cm 2 749, Pr
        52110781844806566160679 666, Cm 2 750, Cm 19 79, Cm 2 751, Cm 3 501, Cm 2 752, Cm 5 301, Cm 2
        753, Cm 11 137, Cm 2 754, Cm 3 503, Cm 2 755, Pr 102695253830903654937701 1323, Cm 2 756, Cm 17
        89, Cm 2 757, Cm 3 505, Cm 2 758, Cm 37 41, Cm 2 759, Cm 7 217, Cm 2 760, Cm 3 507, Cm 2 761, Pr
        90873466844451888220787 1180, Cm 2 762, Cm 5 305, Cm 2 763, Cm 3 509, Cm 2 764, Cm 11 139, Cm 2
        765, Pr 97599867963347146330951 1274, Cm 2 766, Cm 3 511]"])
     (simp_all add: small_prime_product_def)

lemma primes_upto_1597: "primes_state (1597, 251, 183706)"
  by (rule sieve_run_sound [OF primes_upto_1533, where certs = "[
        Cm 2 767, Cm 5 307, Cm 2 768, Cm 29 53, Cm 2 769, Cm 3 513, Cm 2 770, Cm 23 67, Cm 2 771, Pr
        1292224551594244009537 17, Cm 2 772, Cm 3 515, Cm 2 773, Cm 7 221, Cm 2 774, Pr
        47778546570552484629079 631, Cm 2 775, Cm 3 517, Cm 2 776, Pr 58681952553933816132647 777, Cm
        2 777, Cm 5 311, Cm 2 778, Cm 3 519, Cm 2 779, Pr 106830982379960166001439 1420, Cm 2 780, Cm 7
        223, Cm 2 781, Cm 3 521, Cm 2 782, Cm 5 313, Cm 2 783, Pr 45508191363445716884383 608, Cm 2
        784, Cm 3 523, Cm 2 785, Pr 13363857583280616044561 179, Cm 2 786, Cm 11 143, Cm 2 787, Cm 3
        525, Cm 2 788, Cm 19 83, Cm 2 789, Pr 111271687952116303060759 1498, Cm 2 790, Cm 3 527, Cm 2
        791, Pr 1852311771310912365497 25, Cm 2 792, Cm 5 317, Cm 2 793, Cm 3 529, Cm 2 794, Cm 7 227,
        Cm 2 795, Cm 37 43, Cm 2 796, Cm 3 531, Cm 2 797, Cm 5 319, Cm 2 798, Pr 81081010031800435795573
        1104]"])
     (simp_all add: small_prime_product_def)

lemma primes_upto_1661: "primes_state (1661, 260, 198297)"
  by (rule sieve_run_sound [OF primes_upto_1597, where certs = "[
        Cm 2 799, Cm 3 533, Cm 2 800, Pr 51281615834843772447401 700, Cm 2 801, Cm 7 229, Cm 2 802, Cm 3
        535, Cm 2 803, Pr 17589607907664642194753 241, Cm 2 804, Pr 90098470702440656392369 1236, Cm
        2 805, Cm 3 537, Cm 2 806, Pr 55481112819111914978447 763, Cm 2 807, Cm 5 323, Cm 2 808, Cm 3
        539, Cm 2 809, Pr 83311697691981480315479 1150, Cm 2 810, Pr 77275750334266900067941 1068, Cm
        2 811, Cm 3 541, Cm 2 812, Cm 5 325, Cm 2 813, Pr 73530515664778801722763 1020, Cm 2 814, Cm 3
        543, Cm 2 815, Cm 7 233, Cm 2 816, Cm 23 71, Cm 2 817, Cm 3 545, Cm 2 818, Pr
        25721764757499757228463 359, Cm 2 819, Cm 11 149, Cm 2 820, Cm 3 547, Cm 2 821, Cm 31 53, Cm 2
        822, Cm 5 329, Cm 2 823, Cm 3 549, Cm 2 824, Cm 17 97, Cm 2 825, Cm 13 127, Cm 2 826, Cm 3 551, Cm
        2 827, Cm 5 331, Cm 2 828, Pr 68306148468212267349943 965, Cm 2 829, Cm 3 553, Cm 2 830, Cm 11
        151]"])
     (simp_all add: small_prime_product_def)

lemma primes_upto_1725: "primes_state (1725, 269, 213538)"
  by (rule sieve_run_sound [OF primes_upto_1661, where certs = "[
        Cm 2 831, Pr 91475063513620469852857 1297, Cm 2 832, Cm 3 555, Cm 2 833, Pr
        109197101301619447490123 1552, Cm 2 834, Pr 48840877797955569103279 695, Cm 2 835, Cm 3 557,
        Cm 2 836, Cm 7 239, Cm 2 837, Cm 5 335, Cm 2 838, Cm 3 559, Cm 2 839, Cm 23 73, Cm 2 840, Cm 41
        41, Cm 2 841, Cm 3 561, Cm 2 842, Cm 5 337, Cm 2 843, Cm 7 241, Cm 2 844, Cm 3 563, Cm 2 845, Cm
        19 89, Cm 2 846, Pr 60826461212970655949977 878, Cm 2 847, Cm 3 565, Cm 2 848, Pr
        91439321472301368656963 1323, Cm 2 849, Pr 77386860214181997923629 1121, Cm 2 850, Cm 3 567,
        Cm 2 851, Cm 13 131, Cm 2 852, Cm 5 341, Cm 2 853, Cm 3 569, Cm 2 854, Pr
        59570693399628584443229 868, Cm 2 855, Cm 29 59, Cm 2 856, Cm 3 571, Cm 2 857, Cm 5 343, Cm 2
        858, Cm 17 101, Cm 2 859, Cm 3 573, Cm 2 860, Pr 30872537336322694860791 453, Cm 2 861, Pr
        78214944969215675948797 1149, Cm 2 862, Cm 3 575]"])
     (simp_all add: small_prime_product_def)

lemma primes_upto_1789: "primes_state (1789, 278, 229407)"
  by (rule sieve_run_sound [OF primes_upto_1725, where certs = "[
        Cm 2 863, Cm 11 157, Cm 2 864, Cm 7 247, Cm 2 865, Cm 3 577, Cm 2 866, Pr
        104293938646766383315187 1541, Cm 2 867, Cm 5 347, Cm 2 868, Cm 3 579, Cm 2 869, Cm 37 47, Cm 2
        870, Pr 71882080936523399218351 1067, Cm 2 871, Cm 3 581, Cm 2 872, Cm 5 349, Cm 2 873, Pr
        84189828405664763373223 1254, Cm 2 874, Cm 3 583, Cm 2 875, Cm 17 103, Cm 2 876, Pr
        98755077516534334952257 1476, Cm 2 877, Cm 3 585, Cm 2 878, Cm 7 251, Cm 2 879, Pr
        5667715983825805874689 85, Cm 2 880, Cm 3 587, Cm 2 881, Cm 41 43, Cm 2 882, Cm 5 353, Cm 2
        883, Cm 3 589, Cm 2 884, Cm 29 61, Cm 2 885, Cm 7 253, Cm 2 886, Cm 3 591, Cm 2 887, Cm 5 355, Cm
        2 888, Pr 40592208517746363058363 615, Cm 2 889, Cm 3 593, Cm 2 890, Cm 13 137, Cm 2 891, Pr
        7367525918257757010727 112, Cm 2 892, Cm 3 595, Cm 2 893, Pr 110724957668337750446993 1687,
        Cm 2 894, Pr 82344442139415961741189 1256]"])
     (simp_all add: small_prime_product_def)

lemma primes_upto_1853: "primes_state (1853, 283, 238520)"
  by (rule sieve_run_sound [OF primes_upto_1789, where certs = "[
        Cm 2 895, Cm 3 597, Cm 2 896, Cm 11 163, Cm 2 897, Cm 5 359, Cm 2 898, Cm 3 599, Cm 2 899, Cm 7
        257, Cm 2 900, Pr 11722325732755832746801 180, Cm 2 901, Cm 3 601, Cm 2 902, Cm 5 361, Cm 2
        903, Cm 13 139, Cm 2 904, Cm 3 603, Cm 2 905, Pr 106731779392767911750651 1648, Cm 2 906, Cm 7
        259, Cm 2 907, Cm 3 605, Cm 2 908, Cm 23 79, Cm 2 909, Cm 17 107, Cm 2 910, Cm 3 607, Cm 2 911, Pr
        86856453557432479883387 1350, Cm 2 912, Cm 5 365, Cm 2 913, Cm 3 609, Cm 2 914, Cm 31 59, Cm 2
        915, Pr 117032153328037430904661 1827, Cm 2 916, Cm 3 611, Cm 2 917, Cm 5 367, Cm 2 918, Cm 11
        167, Cm 2 919, Cm 3 613, Cm 2 920, Cm 7 263, Cm 2 921, Cm 19 97, Cm 2 922, Cm 3 615, Cm 2 923, Pr
        20955693475151218421483 330, Cm 2 924, Cm 43 43, Cm 2 925, Cm 3 617, Cm 2 926, Cm 17 109]"])
     (simp_all add: small_prime_product_def)

lemma primes_upto_1917: "primes_state (1917, 293, 257358)"
  by (rule sieve_run_sound [OF primes_upto_1853, where certs = "[
        Cm 2 927, Cm 5 371, Cm 2 928, Cm 3 619, Cm 2 929, Cm 11 169, Cm 2 930, Pr
        74431799239903080457411 1181, Cm 2 931, Cm 3 621, Cm 2 932, Cm 5 373, Cm 2 933, Pr
        89646770326659746970073 1427, Cm 2 934, Cm 3 623, Cm 2 935, Pr 98795558002365251881151 1576,
        Cm 2 936, Pr 108709359337923385812577 1736, Cm 2 937, Cm 3 625, Cm 2 938, Pr
        33680574082429599019703 539, Cm 2 939, Pr 64355679181239269336749 1031, Cm 2 940, Cm 3 627,
        Cm 2 941, Cm 7 269, Cm 2 942, Cm 5 377, Cm 2 943, Cm 3 629, Cm 2 944, Pr 8878898112437901985499
        143, Cm 2 945, Cm 31 61, Cm 2 946, Cm 3 631, Cm 2 947, Cm 5 379, Cm 2 948, Cm 7 271, Cm 2 949, Cm
        3 633, Cm 2 950, Pr 36648763033923061948481 594, Cm 2 951, Cm 11 173, Cm 2 952, Cm 3 635, Cm 2
        953, Pr 101235802683578329438103 1646, Cm 2 954, Cm 23 83, Cm 2 955, Cm 3 637, Cm 2 956, Pr
        78171817163222105595227 1275, Cm 2 957, Cm 5 383, Cm 2 958, Cm 3 639]"])
     (simp_all add: small_prime_product_def)

lemma primes_upto_1981: "primes_state (1981, 299, 269074)"
  by (rule sieve_run_sound [OF primes_upto_1917, where certs = "[
        Cm 2 959, Cm 19 101, Cm 2 960, Cm 17 113, Cm 2 961, Cm 3 641, Cm 2 962, Cm 5 385, Cm 2 963, Cm 41
        47, Cm 2 964, Cm 3 643, Cm 2 965, Pr 34317936544829072297021 565, Cm 2 966, Pr
        83370013444296522571657 1374, Cm 2 967, Cm 3 645, Cm 2 968, Cm 13 149, Cm 2 969, Cm 7 277, Cm 2
        970, Cm 3 647, Cm 2 971, Cm 29 67, Cm 2 972, Cm 5 389, Cm 2 973, Cm 3 649, Cm 2 974, Pr
        71010923552642496541949 1180, Cm 2 975, Pr 12444231133468602251941 207, Cm 2 976, Cm 3 651,
        Cm 2 977, Cm 5 391, Cm 2 978, Cm 19 103, Cm 2 979, Cm 3 653, Cm 2 980, Cm 37 53, Cm 2 981, Cm 13
        151, Cm 2 982, Cm 3 655, Cm 2 983, Cm 7 281, Cm 2 984, Cm 11 179, Cm 2 985, Cm 3 657, Cm 2 986, Pr
        51064733698799081639447 859, Cm 2 987, Cm 5 395, Cm 2 988, Cm 3 659, Cm 2 989, Pr
        26195788055006508931079 442, Cm 2 990, Cm 7 283]"])
     (simp_all add: small_prime_product_def)

lemma primes_upto_2045: "primes_state (2045, 309, 289176)"
  by (rule sieve_run_sound [OF primes_upto_1981, where certs = "[
        Cm 2 991, Cm 3 661, Cm 2 992, Cm 5 397, Cm 2 993, Pr 84114717381557591168173 1425, Cm 2 994, Cm
        3 663, Cm 2 995, Cm 11 181, Cm 2 996, Pr 45550028686493224054717 774, Cm 2 997, Cm 3 665, Cm 2
        998, Pr 55795674657704868519833 950, Cm 2 999, Pr 75806197456905355933159 1292, Cm 2 1000, Cm
        3 667, Cm 2 1001, Pr 23715324238921529330117 405, Cm 2 1002, Cm 5 401, Cm 2 1003, Cm 3 669, Cm
        2 1004, Cm 7 287, Cm 2 1005, Pr 100141298256639368064781 1717, Cm 2 1006, Cm 3 671, Cm 2 1007,
        Cm 5 403, Cm 2 1008, Pr 98157058866970236499633 1688, Cm 2 1009, Cm 3 673, Cm 2 1010, Cm 43 47,
        Cm 2 1011, Cm 7 289, Cm 2 1012, Cm 3 675, Cm 2 1013, Pr 19499844360197409581333 337, Cm 2 1014,
        Pr 30521569915114283232709 528, Cm 2 1015, Cm 3 677, Cm 2 1016, Cm 19 107, Cm 2 1017, Cm 5 407,
        Cm 2 1018, Cm 3 679, Cm 2 1019, Pr 7650492751741602325049 133, Cm 2 1020, Cm 13 157, Cm 2 1021,
        Cm 3 681, Cm 2 1022, Cm 5 409]"])
     (simp_all add: small_prime_product_def)

lemma primes_upto_2109: "primes_state (2109, 317, 305800)"
  by (rule sieve_run_sound [OF primes_upto_2045, where certs = "[
        Cm 2 1023, Cm 23 89, Cm 2 1024, Cm 3 683, Cm 2 1025, Cm 7 293, Cm 2 1026, Pr
        41248032801506007330697 722, Cm 2 1027, Cm 3 685, Cm 2 1028, Cm 11 187, Cm 2 1029, Cm 29 71, Cm
        2 1030, Cm 3 687, Cm 2 1031, Pr 74193571339809063079577 1305, Cm 2 1032, Cm 5 413, Cm 2 1033,
        Cm 3 689, Cm 2 1034, Pr 51473103080880391325669 908, Cm 2 1035, Cm 19 109, Cm 2 1036, Cm 3 691,
        Cm 2 1037, Cm 5 415, Cm 2 1038, Cm 31 67, Cm 2 1039, Cm 3 693, Cm 2 1040, Pr
        88431268790441872884551 1569, Cm 2 1041, Pr 5461820927442379349677 97, Cm 2 1042, Cm 3 695,
        Cm 2 1043, Pr 9216719953494366670463 164, Cm 2 1044, Pr 99939357979772335256209 1780, Cm 2
        1045, Cm 3 697, Cm 2 1046, Cm 7 299, Cm 2 1047, Cm 5 419, Cm 2 1048, Cm 3 699, Cm 2 1049, Pr
        115835547669390495878189 2073, Cm 2 1050, Cm 11 191, Cm 2 1051, Cm 3 701, Cm 2 1052, Cm 5 421,
        Cm 2 1053, Cm 7 301, Cm 2 1054, Cm 3 703]"])
     (simp_all add: small_prime_product_def)

lemma primes_upto_2173: "primes_state (2173, 326, 325019)"
  by (rule sieve_run_sound [OF primes_upto_2109, where certs = "[
        Cm 2 1055, Pr 48726627405116017788881 877, Cm 2 1056, Pr 34303937378189071494397 618, Cm 2
        1057, Cm 3 705, Cm 2 1058, Cm 29 73, Cm 2 1059, Cm 13 163, Cm 2 1060, Cm 3 707, Cm 2 1061, Cm 11
        193, Cm 2 1062, Cm 5 425, Cm 2 1063, Cm 3 709, Cm 2 1064, Pr 97841317658199521120849 1776, Cm 2
        1065, Pr 19538890371933118113121 355, Cm 2 1066, Cm 3 711, Cm 2 1067, Cm 5 427, Cm 2 1068, Pr
        36114064077908182923253 658, Cm 2 1069, Cm 3 713, Cm 2 1070, Pr 21419783798004729404231 391,
        Cm 2 1071, Pr 61900680969430370593597 1131, Cm 2 1072, Cm 3 715, Cm 2 1073, Cm 19 113, Cm 2
        1074, Cm 7 307, Cm 2 1075, Cm 3 717, Cm 2 1076, Pr 99256586547533442234797 1822, Cm 2 1077, Cm
        5 431, Cm 2 1078, Cm 3 719, Cm 2 1079, Cm 17 127, Cm 2 1080, Pr 83312200549139148754891 1535,
        Cm 2 1081, Cm 3 721, Cm 2 1082, Cm 5 433, Cm 2 1083, Cm 11 197, Cm 2 1084, Cm 3 723, Cm 2 1085, Cm
        13 167, Cm 2 1086, Cm 41 53]"])
     (simp_all add: small_prime_product_def)

lemma primes_upto_2237: "primes_state (2237, 332, 338279)"
  by (rule sieve_run_sound [OF primes_upto_2173, where certs = "[
        Cm 2 1087, Cm 3 725, Cm 2 1088, Cm 7 311, Cm 2 1089, Pr 112874591881907488826029 2097, Cm 2
        1090, Cm 3 727, Cm 2 1091, Cm 37 59, Cm 2 1092, Cm 5 437, Cm 2 1093, Cm 3 729, Cm 2 1094, Cm 11
        199, Cm 2 1095, Cm 7 313, Cm 2 1096, Cm 3 731, Cm 2 1097, Cm 5 439, Cm 2 1098, Cm 13 169, Cm 2
        1099, Cm 3 733, Cm 2 1100, Cm 31 71, Cm 2 1101, Pr 93064044764522644248187 1748, Cm 2 1102, Cm
        3 735, Cm 2 1103, Pr 30398257425274484550263 572, Cm 2 1104, Cm 47 47, Cm 2 1105, Cm 3 737, Cm
        2 1106, Pr 60949678519348403357777 1150, Cm 2 1107, Cm 5 443, Cm 2 1108, Cm 3 739, Cm 2 1109,
        Cm 7 317, Cm 2 1110, Pr 39289759446825207749461 744, Cm 2 1111, Cm 3 741, Cm 2 1112, Cm 5 445,
        Cm 2 1113, Cm 17 131, Cm 2 1114, Cm 3 743, Cm 2 1115, Cm 23 97, Cm 2 1116, Cm 7 319, Cm 2 1117, Cm
        3 745, Cm 2 1118, Pr 67636125146908803115073 1290]"])
     (simp_all add: small_prime_product_def)

lemma primes_upto_2301: "primes_state (2301, 342, 360979)"
  by (rule sieve_run_sound [OF primes_upto_2237, where certs = "[
        Cm 2 1119, Pr 1519143840742653934129 29, Cm 2 1120, Cm 3 747, Cm 2 1121, Pr
        77181297764817070517747 1476, Cm 2 1122, Cm 5 449, Cm 2 1123, Cm 3 749, Cm 2 1124, Cm 13 173,
        Cm 2 1125, Pr 29283016581069177117991 562, Cm 2 1126, Cm 3 751, Cm 2 1127, Cm 5 451, Cm 2 1128,
        Cm 37 61, Cm 2 1129, Cm 3 753, Cm 2 1130, Cm 7 323, Cm 2 1131, Cm 31 73, Cm 2 1132, Cm 3 755, Cm 2
        1133, Pr 1500380705523953312093 29, Cm 2 1134, Pr 110465081959036005725539 2137, Cm 2 1135,
        Cm 3 757, Cm 2 1136, Pr 45666615707468178319487 885, Cm 2 1137, Cm 5 455, Cm 2 1138, Cm 3 759,
        Cm 2 1139, Cm 43 53, Cm 2 1140, Pr 45043674735133935371041 876, Cm 2 1141, Cm 3 761, Cm 2 1142,
        Cm 5 457, Cm 2 1143, Pr 3589937339378438114923 70, Cm 2 1144, Cm 3 763, Cm 2 1145, Cm 29 79, Cm
        2 1146, Pr 113758988287536460299517 2224, Cm 2 1147, Cm 3 765, Cm 2 1148, Pr
        102020977778012680898813 1998, Cm 2 1149, Cm 11 209, Cm 2 1150, Cm 3 767]"])
     (simp_all add: small_prime_product_def)

lemma primes_upto_2365: "primes_state (2365, 350, 379667)"
  by (rule sieve_run_sound [OF primes_upto_2301, where certs = "[
        Cm 2 1151, Cm 7 329, Cm 2 1152, Cm 5 461, Cm 2 1153, Cm 3 769, Cm 2 1154, Pr
        101643157687385599366619 2001, Cm 2 1155, Pr 20605401485036447520211 406, Cm 2 1156, Cm 3
        771, Cm 2 1157, Cm 5 463, Cm 2 1158, Cm 7 331, Cm 2 1159, Cm 3 773, Cm 2 1160, Cm 11 211, Cm 2
        1161, Cm 23 101, Cm 2 1162, Cm 3 775, Cm 2 1163, Cm 13 179, Cm 2 1164, Cm 17 137, Cm 2 1165, Cm 3
        777, Cm 2 1166, Pr 27650497105732462083497 550, Cm 2 1167, Cm 5 467, Cm 2 1168, Cm 3 779, Cm 2
        1169, Pr 68397328847469477734579 1364, Cm 2 1170, Pr 57166186728356836348531 1141, Cm 2
        1171, Cm 3 781, Cm 2 1172, Cm 5 469, Cm 2 1173, Pr 55820674042802550740653 1117, Cm 2 1174, Cm
        3 783, Cm 2 1175, Pr 42804521993352267589811 858, Cm 2 1176, Cm 13 181, Cm 2 1177, Cm 3 785, Cm
        2 1178, Pr 87779679557910011376533 1764, Cm 2 1179, Cm 7 337, Cm 2 1180, Cm 3 787, Cm 2 1181,
        Cm 17 139, Cm 2 1182, Cm 5 473]"])
     (simp_all add: small_prime_product_def)

lemma primes_upto_2429: "primes_state (2429, 360, 403611)"
  by (rule sieve_run_sound [OF primes_upto_2365, where certs = "[
        Cm 2 1183, Cm 3 789, Cm 2 1184, Cm 23 103, Cm 2 1185, Pr 16522277256027806119111 334, Cm 2
        1186, Cm 3 791, Cm 2 1187, Cm 5 475, Cm 2 1188, Pr 101153210680178498323813 2050, Cm 2 1189, Cm
        3 793, Cm 2 1190, Pr 82904807151567380161631 1683, Cm 2 1191, Pr 17078920827408400726477
        347, Cm 2 1192, Cm 3 795, Cm 2 1193, Cm 7 341, Cm 2 1194, Pr 94606408907315710793119 1927, Cm 2
        1195, Cm 3 797, Cm 2 1196, Pr 10782885039310294031057 220, Cm 2 1197, Cm 5 479, Cm 2 1198, Cm 3
        799, Cm 2 1199, Pr 22098519539162964103559 452, Cm 2 1200, Cm 7 343, Cm 2 1201, Cm 3 801, Cm 2
        1202, Cm 5 481, Cm 2 1203, Cm 29 83, Cm 2 1204, Cm 3 803, Cm 2 1205, Pr
        113591194721781533490641 2335, Cm 2 1206, Cm 19 127, Cm 2 1207, Cm 3 805, Cm 2 1208, Pr
        11937501785028595309013 246, Cm 2 1209, Cm 41 59, Cm 2 1210, Cm 3 807, Cm 2 1211, Pr
        53198485808497012426997 1099, Cm 2 1212, Cm 5 485, Cm 2 1213, Cm 3 809, Cm 2 1214, Cm 7 347]"])
     (simp_all add: small_prime_product_def)

lemma primes_upto_2493: "primes_state (2493, 367, 420812)"
  by (rule sieve_run_sound [OF primes_upto_2429, where certs = "[
        Cm 2 1215, Cm 11 221, Cm 2 1216, Cm 3 811, Cm 2 1217, Cm 5 487, Cm 2 1218, Pr
        93513059081381922289903 1943, Cm 2 1219, Cm 3 813, Cm 2 1220, Pr 106669482432561849890561
        2220, Cm 2 1221, Cm 7 349, Cm 2 1222, Cm 3 815, Cm 2 1223, Pr 92507795677832224764083 1930, Cm
        2 1224, Cm 31 79, Cm 2 1225, Cm 3 817, Cm 2 1226, Cm 11 223, Cm 2 1227, Cm 5 491, Cm 2 1228, Cm 3
        819, Cm 2 1229, Pr 98161646538291804100679 2058, Cm 2 1230, Cm 23 107, Cm 2 1231, Cm 3 821, Cm
        2 1232, Cm 5 493, Cm 2 1233, Pr 2567317630080249871543 54, Cm 2 1234, Cm 3 823, Cm 2 1235, Cm 7
        353, Cm 2 1236, Pr 43016806264853264327467 907, Cm 2 1237, Cm 3 825, Cm 2 1238, Pr
        4593045212701847470883 97, Cm 2 1239, Cm 37 67, Cm 2 1240, Cm 3 827, Cm 2 1241, Cm 13 191, Cm 2
        1242, Cm 5 497, Cm 2 1243, Cm 3 829, Cm 2 1244, Cm 19 131, Cm 2 1245, Cm 47 53, Cm 2 1246, Cm 3
        831]"])
     (simp_all add: small_prime_product_def)

lemma primes_upto_2557: "primes_state (2557, 375, 441106)"
  by (rule sieve_run_sound [OF primes_upto_2493, where certs = "[
        Cm 2 1247, Cm 5 499, Cm 2 1248, Cm 11 227, Cm 2 1249, Cm 3 833, Cm 2 1250, Cm 41 61, Cm 2 1251, Pr
        93390229344505830271537 1993, Cm 2 1252, Cm 3 835, Cm 2 1253, Cm 23 109, Cm 2 1254, Cm 13 193,
        Cm 2 1255, Cm 3 837, Cm 2 1256, Cm 7 359, Cm 2 1257, Cm 5 503, Cm 2 1258, Cm 3 839, Cm 2 1259, Cm
        11 229, Cm 2 1260, Pr 87652245331663123098961 1884, Cm 2 1261, Cm 3 841, Cm 2 1262, Cm 5 505,
        Cm 2 1263, Cm 7 361, Cm 2 1264, Cm 3 843, Cm 2 1265, Pr 39806684941813744794401 859, Cm 2 1266,
        Cm 17 149, Cm 2 1267, Cm 3 845, Cm 2 1268, Cm 43 59, Cm 2 1269, Pr 74881632998660378087389
        1621, Cm 2 1270, Cm 3 847, Cm 2 1271, Pr 97133044098667353869747 2106, Cm 2 1272, Cm 5 509, Cm
        2 1273, Cm 3 849, Cm 2 1274, Pr 39755653783651480160669 864, Cm 2 1275, Pr
        53563686508706045157001 1165, Cm 2 1276, Cm 3 851, Cm 2 1277, Cm 5 511, Cm 2 1278, Pr
        20687156821702207240303 451]"])
     (simp_all add: small_prime_product_def)

lemma primes_upto_2621: "primes_state (2621, 381, 456716)"
  by (rule sieve_run_sound [OF primes_upto_2557, where certs = "[
        Cm 2 1279, Cm 3 853, Cm 2 1280, Cm 13 197, Cm 2 1281, Cm 11 233, Cm 2 1282, Cm 3 855, Cm 2 1283,
        Cm 17 151, Cm 2 1284, Cm 7 367, Cm 2 1285, Cm 3 857, Cm 2 1286, Cm 31 83, Cm 2 1287, Cm 5 515, Cm
        2 1288, Cm 3 859, Cm 2 1289, Pr 45478240154868930199019 1000, Cm 2 1290, Cm 29 89, Cm 2 1291,
        Cm 3 861, Cm 2 1292, Cm 5 517, Cm 2 1293, Cm 13 199, Cm 2 1294, Cm 3 863, Cm 2 1295, Pr
        66271783215041221736591 1464, Cm 2 1296, Pr 34105452967602335565517 754, Cm 2 1297, Cm 3
        865, Cm 2 1298, Cm 7 371, Cm 2 1299, Cm 23 113, Cm 2 1300, Cm 3 867, Cm 2 1301, Cm 19 137, Cm 2
        1302, Cm 5 521, Cm 2 1303, Cm 3 869, Cm 2 1304, Pr 101958623581117290222329 2268, Cm 2 1305, Cm
        7 373, Cm 2 1306, Cm 3 871, Cm 2 1307, Cm 5 523, Cm 2 1308, Pr 28504169103776397992113 636, Cm
        2 1309, Cm 3 873, Cm 2 1310, Pr 41751262803634759224491 933]"])
     (simp_all add: small_prime_product_def)

lemma primes_upto_2685: "primes_state (2685, 389, 478006)"
  by (rule sieve_run_sound [OF primes_upto_2621, where certs = "[
        Cm 2 1311, Cm 43 61, Cm 2 1312, Cm 3 875, Cm 2 1313, Cm 37 71, Cm 2 1314, Cm 11 239, Cm 2 1315, Cm
        3 877, Cm 2 1316, Pr 30558233806514691262637 686, Cm 2 1317, Cm 5 527, Cm 2 1318, Cm 3 879, Cm
        2 1319, Cm 7 377, Cm 2 1320, Cm 19 139, Cm 2 1321, Cm 3 881, Cm 2 1322, Cm 5 529, Cm 2 1323, Pr
        42404601798622014065353 957, Cm 2 1324, Cm 3 883, Cm 2 1325, Cm 11 241, Cm 2 1326, Cm 7 379, Cm
        2 1327, Cm 3 885, Cm 2 1328, Pr 91376345281886499787493 2070, Cm 2 1329, Pr
        71546353728829675417399 1622, Cm 2 1330, Cm 3 887, Cm 2 1331, Pr 3919889576037258887537 89,
        Cm 2 1332, Cm 5 533, Cm 2 1333, Cm 3 889, Cm 2 1334, Cm 17 157, Cm 2 1335, Pr
        69907563880260538302271 1592, Cm 2 1336, Cm 3 891, Cm 2 1337, Cm 5 535, Cm 2 1338, Pr
        38424322171161715932883 877, Cm 2 1339, Cm 3 893, Cm 2 1340, Cm 7 383, Cm 2 1341, Pr
        39125270710648244140897 895, Cm 2 1342, Cm 3 895]"])
     (simp_all add: small_prime_product_def)

lemma primes_upto_2749: "primes_state (2749, 401, 510574)"
  by (rule sieve_run_sound [OF primes_upto_2685, where certs = "[
        Cm 2 1343, Pr 26321136568560626536253 603, Cm 2 1344, Pr 88849547351845295609119 2037, Cm 2
        1345, Cm 3 897, Cm 2 1346, Pr 114588091851689469237647 2631, Cm 2 1347, Cm 5 539, Cm 2 1348, Cm
        3 899, Cm 2 1349, Pr 99254043358608937282619 2284, Cm 2 1350, Cm 37 73, Cm 2 1351, Cm 3 901, Cm
        2 1352, Cm 5 541, Cm 2 1353, Pr 20710693125155719294423 478, Cm 2 1354, Cm 3 903, Cm 2 1355, Pr
        75322416800711005710761 1741, Cm 2 1356, Pr 10721532833443762920697 248, Cm 2 1357, Cm 3
        905, Cm 2 1358, Cm 11 247, Cm 2 1359, Pr 112931586023879165146819 2618, Cm 2 1360, Cm 3 907, Cm
        2 1361, Cm 7 389, Cm 2 1362, Cm 5 545, Cm 2 1363, Cm 3 909, Cm 2 1364, Pr
        97260390991695850251059 2263, Cm 2 1365, Pr 51922978053285619889701 1209, Cm 2 1366, Cm 3
        911, Cm 2 1367, Cm 5 547, Cm 2 1368, Cm 7 391, Cm 2 1369, Cm 3 913, Cm 2 1370, Pr
        78177990785711979564551 1827, Cm 2 1371, Cm 13 211, Cm 2 1372, Cm 3 915, Cm 2 1373, Cm 41 67,
        Cm 2 1374, Pr 27775458808648213208479 651]"])
     (simp_all add: small_prime_product_def)

lemma primes_upto_2813: "primes_state (2813, 409, 532852)"
  by (rule sieve_run_sound [OF primes_upto_2749, where certs = "[
        Cm 2 1375, Cm 3 917, Cm 2 1376, Pr 77368579930506015003857 1816, Cm 2 1377, Cm 5 551, Cm 2
        1378, Cm 3 919, Cm 2 1379, Cm 31 89, Cm 2 1380, Cm 11 251, Cm 2 1381, Cm 3 921, Cm 2 1382, Cm 5
        553, Cm 2 1383, Pr 10809012376815604481653 255, Cm 2 1384, Cm 3 923, Cm 2 1385, Cm 17 163, Cm 2
        1386, Cm 47 59, Cm 2 1387, Cm 3 925, Cm 2 1388, Pr 16218487015488756520553 384, Cm 2 1389, Cm 7
        397, Cm 2 1390, Cm 3 927, Cm 2 1391, Cm 11 253, Cm 2 1392, Cm 5 557, Cm 2 1393, Cm 3 929, Cm 2
        1394, Pr 33937513000014853203119 807, Cm 2 1395, Pr 57740679322044134049091 1374, Cm 2 1396,
        Cm 3 931, Cm 2 1397, Cm 5 559, Cm 2 1398, Pr 80931918492547534500433 1930, Cm 2 1399, Cm 3 933,
        Cm 2 1400, Pr 29395374407105924180741 702, Cm 2 1401, Pr 74984223830202387442747 1792, Cm 2
        1402, Cm 3 935, Cm 2 1403, Cm 7 401, Cm 2 1404, Cm 53 53, Cm 2 1405, Cm 3 937, Cm 2 1406, Cm 29
        97]"])
     (simp_all add: small_prime_product_def)

lemma primes_upto_2877: "primes_state (2877, 416, 552753)"
  by (rule sieve_run_sound [OF primes_upto_2813, where certs = "[
        Cm 2 1407, Cm 5 563, Cm 2 1408, Cm 3 939, Cm 2 1409, Pr 51217452094157496020009 1231, Cm 2
        1410, Cm 7 403, Cm 2 1411, Cm 3 941, Cm 2 1412, Cm 5 565, Cm 2 1413, Cm 11 257, Cm 2 1414, Cm 3
        943, Cm 2 1415, Cm 19 149, Cm 2 1416, Pr 12089024834785328459977 292, Cm 2 1417, Cm 3 945, Cm 2
        1418, Pr 89506290321859743453923 2165, Cm 2 1419, Cm 17 167, Cm 2 1420, Cm 3 947, Cm 2 1421, Pr
        54910599925913006816297 1331, Cm 2 1422, Cm 5 569, Cm 2 1423, Cm 3 949, Cm 2 1424, Cm 7 407, Cm
        2 1425, Pr 77424319087479452609791 1882, Cm 2 1426, Cm 3 951, Cm 2 1427, Cm 5 571, Cm 2 1428,
        Pr 86293376834957456425213 2102, Cm 2 1429, Cm 3 953, Cm 2 1430, Pr 7912148760001938273251
        193, Cm 2 1431, Cm 7 409, Cm 2 1432, Cm 3 955, Cm 2 1433, Cm 47 61, Cm 2 1434, Cm 19 151, Cm 2
        1435, Cm 3 957, Cm 2 1436, Cm 13 221, Cm 2 1437, Cm 5 575, Cm 2 1438, Cm 3 959]"])
     (simp_all add: small_prime_product_def)

lemma primes_upto_2941: "primes_state (2941, 424, 576011)"
  by (rule sieve_run_sound [OF primes_upto_2877, where certs = "[
        Cm 2 1439, Pr 325914223992794639759 8, Cm 2 1440, Cm 43 67, Cm 2 1441, Cm 3 961, Cm 2 1442, Cm 5
        577, Cm 2 1443, Pr 1096912468550047875493 27, Cm 2 1444, Cm 3 963, Cm 2 1445, Cm 7 413, Cm 2
        1446, Cm 11 263, Cm 2 1447, Cm 3 965, Cm 2 1448, Pr 55304083167742465434293 1366, Cm 2 1449, Cm
        13 223, Cm 2 1450, Cm 3 967, Cm 2 1451, Pr 112965316665829104674207 2796, Cm 2 1452, Cm 5 581,
        Cm 2 1453, Cm 3 969, Cm 2 1454, Pr 2661063310319993153969 66, Cm 2 1455, Cm 41 71, Cm 2 1456, Cm
        3 971, Cm 2 1457, Cm 5 583, Cm 2 1458, Pr 114111904798764821272033 2838, Cm 2 1459, Cm 3 973,
        Cm 2 1460, Cm 23 127, Cm 2 1461, Cm 37 79, Cm 2 1462, Cm 3 975, Cm 2 1463, Pr
        40111264004361591374873 1001, Cm 2 1464, Cm 29 101, Cm 2 1465, Cm 3 977, Cm 2 1466, Cm 7 419,
        Cm 2 1467, Cm 5 587, Cm 2 1468, Cm 3 979, Cm 2 1469, Pr 71434570477488423974159 1790, Cm 2
        1470, Cm 17 173]"])
     (simp_all add: small_prime_product_def)

lemma primes_upto_3005: "primes_state (3005, 431, 596824)"
  by (rule sieve_run_sound [OF primes_upto_2941, where certs = "[
        Cm 2 1471, Cm 3 981, Cm 2 1472, Cm 5 589, Cm 2 1473, Cm 7 421, Cm 2 1474, Cm 3 983, Cm 2 1475, Cm
        13 227, Cm 2 1476, Pr 30463998815667167878147 767, Cm 2 1477, Cm 3 985, Cm 2 1478, Pr
        5553051535447066600493 140, Cm 2 1479, Cm 11 269, Cm 2 1480, Cm 3 987, Cm 2 1481, Pr
        26244413378767067756297 663, Cm 2 1482, Cm 5 593, Cm 2 1483, Cm 3 989, Cm 2 1484, Pr
        23465577139605166980149 594, Cm 2 1485, Pr 23015525524245797402641 583, Cm 2 1486, Cm 3 991,
        Cm 2 1487, Cm 5 595, Cm 2 1488, Cm 13 229, Cm 2 1489, Cm 3 993, Cm 2 1490, Cm 11 271, Cm 2 1491,
        Cm 19 157, Cm 2 1492, Cm 3 995, Cm 2 1493, Cm 29 103, Cm 2 1494, Cm 7 427, Cm 2 1495, Cm 3 997, Cm
        2 1496, Cm 41 73, Cm 2 1497, Cm 5 599, Cm 2 1498, Cm 3 999, Cm 2 1499, Pr
        53344899024418508976719 1364, Cm 2 1500, Pr 61946712580693118629951 1585, Cm 2 1501, Cm 3
        1001, Cm 2 1502, Cm 5 601]"])
     (simp_all add: small_prime_product_def)

lemma primes_upto_3069: "primes_state (3069, 439, 621132)"
  by (rule sieve_run_sound [OF primes_upto_3005, where certs = "[
        Cm 2 1503, Cm 31 97, Cm 2 1504, Cm 3 1003, Cm 2 1505, Pr 78179269806818263289081 2007, Cm 2
        1506, Cm 23 131, Cm 2 1507, Cm 3 1005, Cm 2 1508, Cm 7 431, Cm 2 1509, Pr
        101670650552357748613189 2617, Cm 2 1510, Cm 3 1007, Cm 2 1511, Pr 97966643378267483206337
        2525, Cm 2 1512, Cm 5 605, Cm 2 1513, Cm 3 1009, Cm 2 1514, Cm 13 233, Cm 2 1515, Cm 7 433, Cm 2
        1516, Cm 3 1011, Cm 2 1517, Cm 5 607, Cm 2 1518, Pr 110491293733705414548283 2861, Cm 2 1519,
        Cm 3 1013, Cm 2 1520, Pr 9333702166713741196301 242, Cm 2 1521, Cm 17 179, Cm 2 1522, Cm 3
        1015, Cm 2 1523, Cm 11 277, Cm 2 1524, Pr 59932862629700249521789 1558, Cm 2 1525, Cm 3 1017,
        Cm 2 1526, Cm 43 71, Cm 2 1527, Cm 5 611, Cm 2 1528, Cm 3 1019, Cm 2 1529, Cm 7 437, Cm 2 1530, Pr
        78205026577768581436411 2041, Cm 2 1531, Cm 3 1021, Cm 2 1532, Cm 5 613, Cm 2 1533, Pr
        48911587792201341991393 1279, Cm 2 1534, Cm 3 1023]"])
     (simp_all add: small_prime_product_def)

lemma primes_upto_3133: "primes_state (3133, 445, 639732)"
  by (rule sieve_run_sound [OF primes_upto_3069, where certs = "[
        Cm 2 1535, Cm 37 83, Cm 2 1536, Cm 7 439, Cm 2 1537, Cm 3 1025, Cm 2 1538, Cm 17 181, Cm 2 1539,
        Pr 78471602988105995526319 2060, Cm 2 1540, Cm 3 1027, Cm 2 1541, Pr 25222898748390146533217
        663, Cm 2 1542, Cm 5 617, Cm 2 1543, Cm 3 1029, Cm 2 1544, Pr 23769027753638317848989 626, Cm 2
        1545, Cm 11 281, Cm 2 1546, Cm 3 1031, Cm 2 1547, Cm 5 619, Cm 2 1548, Cm 19 163, Cm 2 1549, Cm 3
        1033, Cm 2 1550, Cm 7 443, Cm 2 1551, Cm 29 107, Cm 2 1552, Cm 3 1035, Cm 2 1553, Cm 13 239, Cm 2
        1554, Pr 51344318761708873434619 1361, Cm 2 1555, Cm 3 1037, Cm 2 1556, Cm 11 283, Cm 2 1557,
        Cm 5 623, Cm 2 1558, Cm 3 1039, Cm 2 1559, Pr 46554349510402638691019 1238, Cm 2 1560, Pr
        70613543279181575930011 1879, Cm 2 1561, Cm 3 1041, Cm 2 1562, Cm 5 625, Cm 2 1563, Cm 53 59,
        Cm 2 1564, Cm 3 1043, Cm 2 1565, Cm 31 101, Cm 2 1566, Cm 13 241]"])
     (simp_all add: small_prime_product_def)

lemma primes_upto_3197: "primes_state (3197, 452, 661927)"
  by (rule sieve_run_sound [OF primes_upto_3133, where certs = "[
        Cm 2 1567, Cm 3 1045, Cm 2 1568, Pr 26957259470874219342983 721, Cm 2 1569, Cm 43 73, Cm 2
        1570, Cm 3 1047, Cm 2 1571, Cm 7 449, Cm 2 1572, Cm 5 629, Cm 2 1573, Cm 3 1049, Cm 2 1574, Cm 47
        67, Cm 2 1575, Cm 23 137, Cm 2 1576, Cm 3 1051, Cm 2 1577, Cm 5 631, Cm 2 1578, Cm 7 451, Cm 2
        1579, Cm 3 1053, Cm 2 1580, Cm 29 109, Cm 2 1581, Pr 105533586262684868611567 2846, Cm 2 1582,
        Cm 3 1055, Cm 2 1583, Pr 76846666031187074452253 2075, Cm 2 1584, Pr 68766744261842269513069
        1858, Cm 2 1585, Cm 3 1057, Cm 2 1586, Cm 19 167, Cm 2 1587, Cm 5 635, Cm 2 1588, Cm 3 1059, Cm 2
        1589, Cm 11 289, Cm 2 1590, Pr 82555386942380448925351 2239, Cm 2 1591, Cm 3 1061, Cm 2 1592,
        Cm 5 637, Cm 2 1593, Pr 70255262006623127583013 1909, Cm 2 1594, Cm 3 1063, Cm 2 1595, Pr
        60757660415888349431321 1653, Cm 2 1596, Cm 31 103, Cm 2 1597, Cm 3 1065, Cm 2 1598, Cm 23 139]"])
     (simp_all add: small_prime_product_def)

lemma primes_upto_3261: "primes_state (3261, 461, 691026)"
  by (rule sieve_run_sound [OF primes_upto_3197, where certs = "[
        Cm 2 1599, Cm 7 457, Cm 2 1600, Cm 3 1067, Cm 2 1601, Pr 12523455018706582602647 342, Cm 2
        1602, Cm 5 641, Cm 2 1603, Cm 3 1069, Cm 2 1604, Pr 50329105993114178573999 1377, Cm 2 1605, Cm
        13 247, Cm 2 1606, Cm 3 1071, Cm 2 1607, Cm 5 643, Cm 2 1608, Pr 9078273844728733532743 249, Cm
        2 1609, Cm 3 1073, Cm 2 1610, Pr 44060522025731895339881 1210, Cm 2 1611, Cm 11 293, Cm 2
        1612, Cm 3 1075, Cm 2 1613, Cm 7 461, Cm 2 1614, Pr 91680357556873086020989 2524, Cm 2 1615, Cm
        3 1077, Cm 2 1616, Cm 53 61, Cm 2 1617, Cm 5 647, Cm 2 1618, Cm 3 1079, Cm 2 1619, Cm 41 79, Cm 2
        1620, Cm 7 463, Cm 2 1621, Cm 3 1081, Cm 2 1622, Cm 5 649, Cm 2 1623, Cm 17 191, Cm 2 1624, Cm 3
        1083, Cm 2 1625, Pr 98419779867259986724811 2728, Cm 2 1626, Pr 73949729532168366888007
        2051, Cm 2 1627, Cm 3 1085, Cm 2 1628, Pr 30897584036343623304773 858, Cm 2 1629, Pr
        87417452691623053856509 2429, Cm 2 1630, Cm 3 1087]"])
     (simp_all add: small_prime_product_def)

lemma primes_upto_3325: "primes_state (3325, 468, 714159)"
  by (rule sieve_run_sound [OF primes_upto_3261, where certs = "[
        Cm 2 1631, Cm 13 251, Cm 2 1632, Cm 5 653, Cm 2 1633, Cm 3 1089, Cm 2 1634, Cm 7 467, Cm 2 1635,
        Pr 50235714547395037098001 1401, Cm 2 1636, Cm 3 1091, Cm 2 1637, Cm 5 655, Cm 2 1638, Cm 29
        113, Cm 2 1639, Cm 3 1093, Cm 2 1640, Cm 17 193, Cm 2 1641, Cm 7 469, Cm 2 1642, Cm 3 1095, Cm 2
        1643, Cm 19 173, Cm 2 1644, Cm 11 299, Cm 2 1645, Cm 3 1097, Cm 2 1646, Cm 37 89, Cm 2 1647, Cm 5
        659, Cm 2 1648, Cm 3 1099, Cm 2 1649, Pr 104560512148534677678629 2941, Cm 2 1650, Pr
        27465591878467612411411 773, Cm 2 1651, Cm 3 1101, Cm 2 1652, Cm 5 661, Cm 2 1653, Pr
        90404621737262887522333 2549, Cm 2 1654, Cm 3 1103, Cm 2 1655, Cm 7 473, Cm 2 1656, Pr
        50306909119141957671967 1421, Cm 2 1657, Cm 3 1105, Cm 2 1658, Cm 31 107, Cm 2 1659, Pr
        83752173492556348668379 2370, Cm 2 1660, Cm 3 1107, Cm 2 1661, Pr 67803484980866924844677
        1921, Cm 2 1662, Cm 5 665]"])
     (simp_all add: small_prime_product_def)

lemma primes_upto_3389: "primes_state (3389, 477, 744362)"
  by (rule sieve_run_sound [OF primes_upto_3325, where certs = "[
        Cm 2 1663, Cm 3 1109, Cm 2 1664, Pr 86037316695605834527229 2442, Cm 2 1665, Pr
        109858826130696412328971 3120, Cm 2 1666, Cm 3 1111, Cm 2 1667, Cm 5 667, Cm 2 1668, Cm 47 71,
        Cm 2 1669, Cm 3 1113, Cm 2 1670, Cm 13 257, Cm 2 1671, Pr 11437634556735468902347 326, Cm 2
        1672, Cm 3 1115, Cm 2 1673, Pr 60869410941526713055853 1737, Cm 2 1674, Cm 17 197, Cm 2 1675,
        Cm 3 1117, Cm 2 1676, Cm 7 479, Cm 2 1677, Cm 5 671, Cm 2 1678, Cm 3 1119, Cm 2 1679, Pr
        74304756038350114394879 2128, Cm 2 1680, Pr 69095803359603035568841 1980, Cm 2 1681, Cm 3
        1121, Cm 2 1682, Cm 5 673, Cm 2 1683, Cm 7 481, Cm 2 1684, Cm 3 1123, Cm 2 1685, Pr
        106641616394714436684581 3065, Cm 2 1686, Pr 54836577943606520379667 1577, Cm 2 1687, Cm 3
        1125, Cm 2 1688, Cm 11 307, Cm 2 1689, Cm 31 109, Cm 2 1690, Cm 3 1127, Cm 2 1691, Cm 17 199, Cm
        2 1692, Cm 5 677, Cm 2 1693, Cm 3 1129, Cm 2 1694, Pr 57692455510808917270319 1667]"])
     (simp_all add: small_prime_product_def)

lemma primes_upto_3453: "primes_state (3453, 482, 761455)"
  by (rule sieve_run_sound [OF primes_upto_3389, where certs = "[
        Cm 2 1695, Pr 84222119908627535931661 2435, Cm 2 1696, Cm 3 1131, Cm 2 1697, Cm 5 679, Cm 2
        1698, Cm 43 79, Cm 2 1699, Cm 3 1133, Cm 2 1700, Cm 19 179, Cm 2 1701, Cm 41 83, Cm 2 1702, Cm 3
        1135, Cm 2 1703, Pr 103965633021840050592743 3020, Cm 2 1704, Cm 7 487, Cm 2 1705, Cm 3 1137,
        Cm 2 1706, Pr 62097891918092117365007 1807, Cm 2 1707, Cm 5 683, Cm 2 1708, Cm 3 1139, Cm 2
        1709, Cm 13 263, Cm 2 1710, Cm 11 311, Cm 2 1711, Cm 3 1141, Cm 2 1712, Cm 5 685, Cm 2 1713, Cm
        23 149, Cm 2 1714, Cm 3 1143, Cm 2 1715, Cm 47 73, Cm 2 1716, Pr 51589122007778772555997 1510,
        Cm 2 1717, Cm 3 1145, Cm 2 1718, Cm 7 491, Cm 2 1719, Cm 19 181, Cm 2 1720, Cm 3 1147, Cm 2 1721,
        Cm 11 313, Cm 2 1722, Cm 5 689, Cm 2 1723, Cm 3 1149, Cm 2 1724, Pr 76140529389304786324019
        2239, Cm 2 1725, Cm 7 493, Cm 2 1726, Cm 3 1151]"])
     (simp_all add: small_prime_product_def)

lemma primes_upto_3517: "primes_state (3517, 491, 792790)"
  by (rule sieve_run_sound [OF primes_upto_3453, where certs = "[
        Cm 2 1727, Cm 5 691, Cm 2 1728, Pr 3358851534446424682483 99, Cm 2 1729, Cm 3 1153, Cm 2 1730,
        Pr 6438830528254066595441 190, Cm 2 1731, Pr 98965246991679806298907 2922, Cm 2 1732, Cm 3
        1155, Cm 2 1733, Pr 105752373847564520130863 3126, Cm 2 1734, Pr 22281073310997173213599
        659, Cm 2 1735, Cm 3 1157, Cm 2 1736, Cm 23 151, Cm 2 1737, Cm 5 695, Cm 2 1738, Cm 3 1159, Cm 2
        1739, Cm 7 497, Cm 2 1740, Cm 59 59, Cm 2 1741, Cm 3 1161, Cm 2 1742, Cm 5 697, Cm 2 1743, Cm 11
        317, Cm 2 1744, Cm 3 1163, Cm 2 1745, Pr 61886335853345070338351 1842, Cm 2 1746, Cm 7 499, Cm
        2 1747, Cm 3 1165, Cm 2 1748, Cm 13 269, Cm 2 1749, Pr 14547915835948163877319 434, Cm 2 1750,
        Cm 3 1167, Cm 2 1751, Cm 31 113, Cm 2 1752, Cm 5 701, Cm 2 1753, Cm 3 1169, Cm 2 1754, Cm 11 319,
        Cm 2 1755, Pr 64039255786380849722281 1917, Cm 2 1756, Cm 3 1171, Cm 2 1757, Cm 5 703, Cm 2
        1758, Pr 10138091536326334711093 304]"])
     (simp_all add: small_prime_product_def)

lemma primes_upto_3581: "primes_state (3581, 501, 828274)"
  by (rule sieve_run_sound [OF primes_upto_3517, where certs = "[
        Cm 2 1759, Cm 3 1173, Cm 2 1760, Cm 7 503, Cm 2 1761, Cm 13 271, Cm 2 1762, Cm 3 1175, Cm 2 1763,
        Pr 68736910765493112850133 2067, Cm 2 1764, Pr 50484854430416318765539 1519, Cm 2 1765, Cm 3
        1177, Cm 2 1766, Pr 88605346687873536811307 2669, Cm 2 1767, Cm 5 707, Cm 2 1768, Cm 3 1179, Cm
        2 1769, Pr 18625620323251403699519 562, Cm 2 1770, Pr 2417975667674868365371 73, Cm 2 1771,
        Cm 3 1181, Cm 2 1772, Cm 5 709, Cm 2 1773, Pr 75657123357858232198963 2288, Cm 2 1774, Cm 3
        1183, Cm 2 1775, Cm 53 67, Cm 2 1776, Cm 11 323, Cm 2 1777, Cm 3 1185, Cm 2 1778, Pr
        28687346579332039571393 870, Cm 2 1779, Pr 22904025019608835300189 695, Cm 2 1780, Cm 3
        1187, Cm 2 1781, Cm 7 509, Cm 2 1782, Cm 5 713, Cm 2 1783, Cm 3 1189, Cm 2 1784, Cm 43 83, Cm 2
        1785, Pr 30447025908756724195321 927, Cm 2 1786, Cm 3 1191, Cm 2 1787, Cm 5 715, Cm 2 1788, Cm
        7 511, Cm 2 1789, Cm 3 1193, Cm 2 1790, Pr 6943629390727248770861 212]"])
     (simp_all add: small_prime_product_def)

lemma primes_upto_3645: "primes_state (3645, 510, 860821)"
  by (rule sieve_run_sound [OF primes_upto_3581, where certs = "[
        Cm 2 1791, Pr 71787167267981994799417 2193, Cm 2 1792, Cm 3 1195, Cm 2 1793, Cm 17 211, Cm 2
        1794, Cm 37 97, Cm 2 1795, Cm 3 1197, Cm 2 1796, Pr 114481033517239144792187 3507, Cm 2 1797,
        Cm 5 719, Cm 2 1798, Cm 3 1199, Cm 2 1799, Cm 59 61, Cm 2 1800, Cm 13 277, Cm 2 1801, Cm 3 1201,
        Cm 2 1802, Cm 5 721, Cm 2 1803, Pr 93258408022949596002223 2868, Cm 2 1804, Cm 3 1203, Cm 2
        1805, Cm 23 157, Cm 2 1806, Pr 551868940799866733107 17, Cm 2 1807, Cm 3 1205, Cm 2 1808, Pr
        64335125412514080848993 1984, Cm 2 1809, Cm 7 517, Cm 2 1810, Cm 3 1207, Cm 2 1811, Pr
        31725811132271275617887 980, Cm 2 1812, Cm 5 725, Cm 2 1813, Cm 3 1209, Cm 2 1814, Cm 19 191,
        Cm 2 1815, Pr 32172742449454514761591 996, Cm 2 1816, Cm 3 1211, Cm 2 1817, Cm 5 727, Cm 2
        1818, Pr 41729767797380429049313 1294, Cm 2 1819, Cm 3 1213, Cm 2 1820, Cm 11 331, Cm 2 1821,
        Pr 34352649714654745550137 1067, Cm 2 1822, Cm 3 1215]"])
     (simp_all add: small_prime_product_def)

lemma primes_upto_3709: "primes_state (3709, 518, 890299)"
  by (rule sieve_run_sound [OF primes_upto_3645, where certs = "[
        Cm 2 1823, Cm 7 521, Cm 2 1824, Cm 41 89, Cm 2 1825, Cm 3 1217, Cm 2 1826, Cm 13 281, Cm 2 1827,
        Cm 5 731, Cm 2 1828, Cm 3 1219, Cm 2 1829, Pr 58147341838197388730159 1814, Cm 2 1830, Cm 7
        523, Cm 2 1831, Cm 3 1221, Cm 2 1832, Cm 5 733, Cm 2 1833, Cm 19 193, Cm 2 1834, Cm 3 1223, Cm 2
        1835, Pr 37189778235453477042911 1164, Cm 2 1836, Pr 15455370699143200096897 484, Cm 2 1837,
        Cm 3 1225, Cm 2 1838, Pr 77830745313286105303013 2440, Cm 2 1839, Cm 13 283, Cm 2 1840, Cm 3
        1227, Cm 2 1841, Cm 29 127, Cm 2 1842, Cm 5 737, Cm 2 1843, Cm 3 1229, Cm 2 1844, Cm 7 527, Cm 2
        1845, Pr 40610823998190763727071 1278, Cm 2 1846, Cm 3 1231, Cm 2 1847, Cm 5 739, Cm 2 1848, Pr
        84611337053161588210003 2667, Cm 2 1849, Cm 3 1233, Cm 2 1850, Pr 90826398534466462804121
        2866, Cm 2 1851, Cm 7 529, Cm 2 1852, Cm 3 1235, Cm 2 1853, Cm 11 337, Cm 2 1854, Pr
        96417437251235334194659 3049]"])
     (simp_all add: small_prime_product_def)

lemma primes_upto_3773: "primes_state (3773, 525, 916514)"
  by (rule sieve_run_sound [OF primes_upto_3709, where certs = "[
        Cm 2 1855, Cm 3 1237, Cm 2 1856, Cm 47 79, Cm 2 1857, Cm 5 743, Cm 2 1858, Cm 3 1239, Cm 2 1859,
        Pr 86097682471411946970779 2730, Cm 2 1860, Cm 61 61, Cm 2 1861, Cm 3 1241, Cm 2 1862, Cm 5
        745, Cm 2 1863, Pr 1258796687517112648063 40, Cm 2 1864, Cm 3 1243, Cm 2 1865, Cm 7 533, Cm 2
        1866, Pr 71541828115555765585027 2277, Cm 2 1867, Cm 3 1245, Cm 2 1868, Cm 37 101, Cm 2 1869,
        Pr 47712123040293662173189 1521, Cm 2 1870, Cm 3 1247, Cm 2 1871, Cm 19 197, Cm 2 1872, Cm 5
        749, Cm 2 1873, Cm 3 1249, Cm 2 1874, Cm 23 163, Cm 2 1875, Cm 11 341, Cm 2 1876, Cm 3 1251, Cm 2
        1877, Cm 5 751, Cm 2 1878, Cm 13 289, Cm 2 1879, Cm 3 1253, Cm 2 1880, Pr
        55697168069104187762861 1786, Cm 2 1881, Cm 53 71, Cm 2 1882, Cm 3 1255, Cm 2 1883, Pr
        79894342067490917850563 2566, Cm 2 1884, Pr 1929392317400698381789 62, Cm 2 1885, Cm 3 1257,
        Cm 2 1886, Cm 7 539]"])
     (simp_all add: small_prime_product_def)

lemma primes_upto_3837: "primes_state (3837, 532, 943163)"
  by (rule sieve_run_sound [OF primes_upto_3773, where certs = "[
        Cm 2 1887, Cm 5 755, Cm 2 1888, Cm 3 1259, Cm 2 1889, Pr 17101322606253834615449 551, Cm 2
        1890, Cm 19 199, Cm 2 1891, Cm 3 1261, Cm 2 1892, Cm 5 757, Cm 2 1893, Cm 7 541, Cm 2 1894, Cm 3
        1263, Cm 2 1895, Cm 17 223, Cm 2 1896, Pr 115865954377457927833987 3747, Cm 2 1897, Cm 3 1265,
        Cm 2 1898, Pr 82074066176440432421003 2657, Cm 2 1899, Cm 29 131, Cm 2 1900, Cm 3 1267, Cm 2
        1901, Pr 15327984626774984112197 497, Cm 2 1902, Cm 5 761, Cm 2 1903, Cm 3 1269, Cm 2 1904, Cm
        13 293, Cm 2 1905, Cm 37 103, Cm 2 1906, Cm 3 1271, Cm 2 1907, Cm 5 763, Cm 2 1908, Cm 11 347, Cm
        2 1909, Cm 3 1273, Cm 2 1910, Pr 105501221337943407293771 3437, Cm 2 1911, Pr
        38104151098190807732467 1242, Cm 2 1912, Cm 3 1275, Cm 2 1913, Cm 43 89, Cm 2 1914, Cm 7 547,
        Cm 2 1915, Cm 3 1277, Cm 2 1916, Pr 71847930976229472441617 2348, Cm 2 1917, Cm 5 767, Cm 2
        1918, Cm 3 1279]"])
     (simp_all add: small_prime_product_def)

lemma primes_upto_3863: "primes_state (3863, 536, 958577)"
  by (rule sieve_run_sound [OF primes_upto_3837, where certs = "[
        Cm 2 1919, Cm 11 349, Cm 2 1920, Cm 23 167, Cm 2 1921, Cm 3 1281, Cm 2 1922, Cm 5 769, Cm 2 1923,
        Pr 91617256559661540890233 3005, Cm 2 1924, Cm 3 1283, Cm 2 1925, Pr 90730222817365195159481
        2979, Cm 2 1926, Pr 45448106246974982527387 1493, Cm 2 1927, Cm 3 1285, Cm 2 1928, Cm 7 551, Cm
        2 1929, Cm 17 227, Cm 2 1930, Cm 3 1287, Cm 2 1931, Pr 92239736621765047332947 3038]"])
     (simp_all add: small_prime_product_def)

lemma primes_upto_3877: "primes_state (3877, 537, 962454)"
  by (rule sieve_run_sound [OF primes_upto_3863, where certs = "[
        Cm 2 1932, Cm 5 773, Cm 2 1933, Cm 3 1289, Cm 2 1934, Cm 53 73, Cm 2 1935, Cm 7 553, Cm 2 1936, Cm
        3 1291, Cm 2 1937, Cm 5 775, Cm 2 1938, Pr 45953327646360378881503 1519]"])
     (simp_all add: small_prime_product_def)

lemma primes_upto_3881: "primes_state (3881, 538, 966335)"
  by (rule sieve_run_sound [OF primes_upto_3877, where certs = "[
        Cm 2 1939, Cm 3 1293, Cm 2 1940, Pr 112301887434052126816241 3716]"])
     (simp_all add: small_prime_product_def)

lemma primes_upto_3889: "primes_state (3889, 539, 970224)"
  by (rule sieve_run_sound [OF primes_upto_3881, where certs = "[
        Cm 2 1941, Cm 11 353, Cm 2 1942, Cm 3 1295, Cm 2 1943, Cm 13 299, Cm 2 1944, Pr
        4131784069487980206919 137]"])
     (simp_all add: small_prime_product_def)

lemma primes_upto_3907: "primes_state (3907, 540, 974131)"
  by (rule sieve_run_sound [OF primes_upto_3889, where certs = "[
        Cm 2 1945, Cm 3 1297, Cm 2 1946, Cm 17 229, Cm 2 1947, Cm 5 779, Cm 2 1948, Cm 3 1299, Cm 2 1949,
        Cm 7 557, Cm 2 1950, Cm 47 83, Cm 2 1951, Cm 3 1301, Cm 2 1952, Cm 5 781, Cm 2 1953, Pr
        60070143614070475796653 2001]"])
     (simp_all add: small_prime_product_def)

lemma primes_upto_3911: "primes_state (3911, 541, 978042)"
  by (rule sieve_run_sound [OF primes_upto_3907, where certs = "[
        Cm 2 1954, Cm 3 1303, Cm 2 1955, Pr 98275128027301622069081 3277]"])
     (simp_all add: small_prime_product_def)

lemma primes_upto_3917: "primes_state (3917, 542, 981959)"
  by (rule sieve_run_sound [OF primes_upto_3911, where certs = "[
        Cm 2 1956, Cm 7 559, Cm 2 1957, Cm 3 1305, Cm 2 1958, Pr 39076164838913989566803 1305]"])
     (simp_all add: small_prime_product_def)

lemma primes_upto_3919: "primes_state (3919, 543, 985878)"
  by (rule sieve_run_sound [OF primes_upto_3917, where certs = "[
        Cm 2 1959, Pr 56833538198906312298349 1899]"])
     (simp_all add: small_prime_product_def)

lemma primes_upto_3923: "primes_state (3923, 544, 989801)"
  by (rule sieve_run_sound [OF primes_upto_3919, where certs = "[
        Cm 2 1960, Cm 3 1307, Cm 2 1961, Pr 34202882558032519705547 1144]"])
     (simp_all add: small_prime_product_def)

lemma primes_upto_3929: "primes_state (3929, 545, 993730)"
  by (rule sieve_run_sound [OF primes_upto_3923, where certs = "[
        Cm 2 1962, Cm 5 785, Cm 2 1963, Cm 3 1309, Cm 2 1964, Pr 70898423448356211780419 2375]"])
     (simp_all add: small_prime_product_def)

lemma primes_upto_3931: "primes_state (3931, 546, 997661)"
  by (rule sieve_run_sound [OF primes_upto_3929, where certs = "[
        Cm 2 1965, Pr 95984920588453885945861 3217]"])
     (simp_all add: small_prime_product_def)

lemma primes_upto_3943: "primes_state (3943, 547, 1001604)"
  by (rule sieve_run_sound [OF primes_upto_3931, where certs = "[
        Cm 2 1966, Cm 3 1311, Cm 2 1967, Cm 5 787, Cm 2 1968, Cm 31 127, Cm 2 1969, Cm 3 1313, Cm 2 1970,
        Cm 7 563, Cm 2 1971, Pr 12820515436445448768397 431]"])
     (simp_all add: small_prime_product_def)

lemma prefix_sum_generate_primes:
  assumes "1 \<le> b" "b \<le> n" "length (generate_primes b) = j" "sum_list (generate_primes b) = s"
  shows "prefix_sum (generate_primes n) j s"
  using assms by (simp add: prefix_sum_def generate_primes_split [OF assms(1,2)])

lemma prefix_sum_state:
  assumes "primes_state (b, j, s)" "b \<le> n"
  shows "prefix_sum (generate_primes n) j s"
  using assms by (intro prefix_sum_generate_primes [of b]) (simp_all add: primes_state_def)

lemma small_prefix:
  "length (generate_primes 1) = 0 \<and> sum_list (generate_primes 1) = 0"
  "length (generate_primes 2) = 1 \<and> sum_list (generate_primes 2) = 2"
  "length (generate_primes 3) = 2 \<and> sum_list (generate_primes 3) = 5"
  "length (generate_primes 5) = 3 \<and> sum_list (generate_primes 5) = 10"
  "length (generate_primes 7) = 4 \<and> sum_list (generate_primes 7) = 17"
  by code_simp+

section \<open>The run on one million\<close>

lemma million_nonneg: "\<forall>x \<in> set (generate_primes 1000000). 0 \<le> x"
  using generate_primes_props [of 1000000] by auto

lemma million_sorted: "sorted_wrt (<) (generate_primes 1000000)"
  using generate_primes_props [of 1000000] by simp

lemma ps_0: "prefix_sum (generate_primes 1000000) 0 0"
  using small_prefix(1) by (intro prefix_sum_generate_primes [of 1]) simp_all

lemma ps_1: "prefix_sum (generate_primes 1000000) 1 2"
  using small_prefix(2) by (intro prefix_sum_generate_primes [of 2]) simp_all

lemma ps_2: "prefix_sum (generate_primes 1000000) 2 5"
  using small_prefix(3) by (intro prefix_sum_generate_primes [of 3]) simp_all

lemma ps_3: "prefix_sum (generate_primes 1000000) 3 10"
  using small_prefix(4) by (intro prefix_sum_generate_primes [of 5]) simp_all

lemma ps_4: "prefix_sum (generate_primes 1000000) 4 17"
  using small_prefix(5) by (intro prefix_sum_generate_primes [of 7]) simp_all

lemma ps_536: "prefix_sum (generate_primes 1000000) 536 958577"
  by (rule prefix_sum_state [OF primes_upto_3863]) simp

lemma ps_537: "prefix_sum (generate_primes 1000000) 537 962454"
  by (rule prefix_sum_state [OF primes_upto_3877]) simp

lemma ps_538: "prefix_sum (generate_primes 1000000) 538 966335"
  by (rule prefix_sum_state [OF primes_upto_3881]) simp

lemma ps_539: "prefix_sum (generate_primes 1000000) 539 970224"
  by (rule prefix_sum_state [OF primes_upto_3889]) simp

lemma ps_540: "prefix_sum (generate_primes 1000000) 540 974131"
  by (rule prefix_sum_state [OF primes_upto_3907]) simp

lemma ps_541: "prefix_sum (generate_primes 1000000) 541 978042"
  by (rule prefix_sum_state [OF primes_upto_3911]) simp

lemma ps_542: "prefix_sum (generate_primes 1000000) 542 981959"
  by (rule prefix_sum_state [OF primes_upto_3917]) simp

lemma ps_543: "prefix_sum (generate_primes 1000000) 543 985878"
  by (rule prefix_sum_state [OF primes_upto_3919]) simp

lemma ps_544: "prefix_sum (generate_primes 1000000) 544 989801"
  by (rule prefix_sum_state [OF primes_upto_3923]) simp

lemma ps_545: "prefix_sum (generate_primes 1000000) 545 993730"
  by (rule prefix_sum_state [OF primes_upto_3929]) simp

lemma ps_546: "prefix_sum (generate_primes 1000000) 546 997661"
  by (rule prefix_sum_state [OF primes_upto_3931]) simp

lemma ps_547: "prefix_sum (generate_primes 1000000) 547 1001604"
  by (rule prefix_sum_state [OF primes_upto_3943]) simp

lemma beyond_547:
  assumes "i \<le> 4" "547 \<le> j" "j < length (generate_primes 1000000)"
  shows "1000000 < sum_list (py_slice (generate_primes 1000000) i j)"
proof -
  let ?P = "generate_primes 1000000"
  have "sum_list (py_slice ?P i 547) \<le> sum_list (py_slice ?P i j)"
    using million_nonneg assms(2) by (rule py_slice_sum_mono)
  moreover have "1000000 < sum_list (py_slice ?P i 547)"
  proof -
    from assms(1) have "i = 0 \<or> i = 1 \<or> i = 2 \<or> i = 3 \<or> i = 4" by arith
    then show ?thesis
      using slice_sum [OF ps_0 ps_547] slice_sum [OF ps_1 ps_547] slice_sum [OF ps_2 ps_547]
        slice_sum [OF ps_3 ps_547] slice_sum [OF ps_4 ps_547]
      by (elim disjE) simp_all
  qed
  ultimately show ?thesis by simp
qed

lemma run_from_0:
  "inner_loop (generate_primes 1000000) 1000000 0 (0 + 0) (0, 0) = (536, 958577)"
proof -
  let ?P = "(generate_primes 1000000)"
  have sums: "sum_list (py_slice (generate_primes 1000000) 0 537) = 962454" "sum_list (py_slice (generate_primes 1000000) 0 538) = 966335" "sum_list (py_slice (generate_primes 1000000) 0 539) = 970224" "sum_list (py_slice (generate_primes 1000000) 0 540) = 974131" "sum_list (py_slice (generate_primes 1000000) 0 541) = 978042" "sum_list (py_slice (generate_primes 1000000) 0 542) = 981959" "sum_list (py_slice (generate_primes 1000000) 0 543) = 985878" "sum_list (py_slice (generate_primes 1000000) 0 544) = 989801" "sum_list (py_slice (generate_primes 1000000) 0 545) = 993730" "sum_list (py_slice (generate_primes 1000000) 0 546) = 997661"
    using slice_sum [OF ps_0 ps_537] slice_sum [OF ps_0 ps_538] slice_sum [OF ps_0 ps_539] slice_sum [OF ps_0 ps_540] slice_sum [OF ps_0 ps_541] slice_sum [OF ps_0 ps_542] slice_sum [OF ps_0 ps_543] slice_sum [OF ps_0 ps_544] slice_sum [OF ps_0 ps_545] slice_sum [OF ps_0 ps_546]
    by simp_all
  have comp: "\<not> is_prime 962454" "\<not> is_prime 966335" "\<not> is_prime 970224" "\<not> is_prime 974131" "\<not> is_prime 978042" "\<not> is_prime 981959" "\<not> is_prime 985878" "\<not> is_prime 989801" "\<not> is_prime 993730" "\<not> is_prime 997661"
    using product_not_prime [of 2 481227] product_not_prime [of 5 193267] product_not_prime [of 2 485112] product_not_prime [of 251 3881] product_not_prime [of 2 489021] product_not_prime [of 11 89269] product_not_prime [of 2 492939] product_not_prime [of 211 4691] product_not_prime [of 2 496865] product_not_prime [of 7 142523]
    by simp_all
  have later: "\<not> is_prime (sum_list (py_slice ?P 0 j))"
    if j: "536 < j" "j < length ?P" "sum_list (py_slice ?P 0 j) \<le> 1000000" for j
  proof (cases "j < 547")
    case True
    with j(1) have "j = 537 \<or> j = 538 \<or> j = 539 \<or> j = 540 \<or> j = 541 \<or> j = 542 \<or> j = 543 \<or> j = 544 \<or> j = 545 \<or> j = 546" by arith
    then show ?thesis by (elim disjE) (simp_all only: sums comp simp_thms)
  next
    case False
    then have "1000000 < sum_list (py_slice ?P 0 j)"
      using j(2) by (intro beyond_547) simp_all
    with j(3) show ?thesis by simp
  qed
  have here: "sum_list (py_slice ?P 0 536) = 958577"
    using slice_sum [OF ps_0 ps_536] by simp
  have len: "536 < length ?P" using ps_547 by (simp add: prefix_sum_def)
  have "inner_loop ?P 1000000 0 (0 + 0) (0, 0)
        = (536 - 0, sum_list (py_slice ?P 0 536))"
  proof (rule inner_loop_last [OF million_nonneg])
    show "0 + 0 < (536 :: nat)" by simp
    show "536 < length ?P" by (rule len)
    show "is_prime (sum_list (py_slice ?P 0 536))"
      unfolding here by (rule is_prime_958577)
    show "sum_list (py_slice ?P 0 536) \<le> 1000000"
      unfolding here by simp
    show "\<forall>j. 536 < j \<and> j < length ?P \<and> sum_list (py_slice ?P 0 j) \<le> 1000000
             \<longrightarrow> \<not> is_prime (sum_list (py_slice ?P 0 j))"
      using later by blast
  qed
  then show ?thesis unfolding here by simp
qed

lemma run_from_1:
  "inner_loop (generate_primes 1000000) 1000000 1 (1 + 536) (536, 958577) = (536, 958577)"
proof -
  let ?P = "(generate_primes 1000000)"
  have sums: "sum_list (py_slice (generate_primes 1000000) 1 538) = 966333" "sum_list (py_slice (generate_primes 1000000) 1 539) = 970222" "sum_list (py_slice (generate_primes 1000000) 1 540) = 974129" "sum_list (py_slice (generate_primes 1000000) 1 541) = 978040" "sum_list (py_slice (generate_primes 1000000) 1 542) = 981957" "sum_list (py_slice (generate_primes 1000000) 1 543) = 985876" "sum_list (py_slice (generate_primes 1000000) 1 544) = 989799" "sum_list (py_slice (generate_primes 1000000) 1 545) = 993728" "sum_list (py_slice (generate_primes 1000000) 1 546) = 997659"
    using slice_sum [OF ps_1 ps_538] slice_sum [OF ps_1 ps_539] slice_sum [OF ps_1 ps_540] slice_sum [OF ps_1 ps_541] slice_sum [OF ps_1 ps_542] slice_sum [OF ps_1 ps_543] slice_sum [OF ps_1 ps_544] slice_sum [OF ps_1 ps_545] slice_sum [OF ps_1 ps_546]
    by simp_all
  have comp: "\<not> is_prime 966333" "\<not> is_prime 970222" "\<not> is_prime 974129" "\<not> is_prime 978040" "\<not> is_prime 981957" "\<not> is_prime 985876" "\<not> is_prime 989799" "\<not> is_prime 993728" "\<not> is_prime 997659"
    using product_not_prime [of 3 322111] product_not_prime [of 2 485111] product_not_prime [of 13 74933] product_not_prime [of 2 489020] product_not_prime [of 3 327319] product_not_prime [of 2 492938] product_not_prime [of 3 329933] product_not_prime [of 2 496864] product_not_prime [of 3 332553]
    by simp_all
  have later: "\<not> is_prime (sum_list (py_slice ?P 1 j))"
    if j: "537 < j" "j < length ?P" "sum_list (py_slice ?P 1 j) \<le> 1000000" for j
  proof (cases "j < 547")
    case True
    with j(1) have "j = 538 \<or> j = 539 \<or> j = 540 \<or> j = 541 \<or> j = 542 \<or> j = 543 \<or> j = 544 \<or> j = 545 \<or> j = 546" by arith
    then show ?thesis by (elim disjE) (simp_all only: sums comp simp_thms)
  next
    case False
    then have "1000000 < sum_list (py_slice ?P 1 j)"
      using j(2) by (intro beyond_547) simp_all
    with j(3) show ?thesis by simp
  qed
  show ?thesis
  proof (rule inner_loop_unchanged)
    show "\<forall>j. 1 + 536 < j \<and> j < length ?P \<and> sum_list (py_slice ?P 1 j) \<le> 1000000
             \<longrightarrow> \<not> is_prime (sum_list (py_slice ?P 1 j))"
      using later by simp
  qed
qed

lemma run_from_2:
  "inner_loop (generate_primes 1000000) 1000000 2 (2 + 536) (536, 958577) = (539, 978037)"
proof -
  let ?P = "(generate_primes 1000000)"
  have sums: "sum_list (py_slice (generate_primes 1000000) 2 542) = 981954" "sum_list (py_slice (generate_primes 1000000) 2 543) = 985873" "sum_list (py_slice (generate_primes 1000000) 2 544) = 989796" "sum_list (py_slice (generate_primes 1000000) 2 545) = 993725" "sum_list (py_slice (generate_primes 1000000) 2 546) = 997656"
    using slice_sum [OF ps_2 ps_542] slice_sum [OF ps_2 ps_543] slice_sum [OF ps_2 ps_544] slice_sum [OF ps_2 ps_545] slice_sum [OF ps_2 ps_546]
    by simp_all
  have comp: "\<not> is_prime 981954" "\<not> is_prime 985873" "\<not> is_prime 989796" "\<not> is_prime 993725" "\<not> is_prime 997656"
    using product_not_prime [of 2 490977] product_not_prime [of 7 140839] product_not_prime [of 2 494898] product_not_prime [of 5 198745] product_not_prime [of 2 498828]
    by simp_all
  have later: "\<not> is_prime (sum_list (py_slice ?P 2 j))"
    if j: "541 < j" "j < length ?P" "sum_list (py_slice ?P 2 j) \<le> 1000000" for j
  proof (cases "j < 547")
    case True
    with j(1) have "j = 542 \<or> j = 543 \<or> j = 544 \<or> j = 545 \<or> j = 546" by arith
    then show ?thesis by (elim disjE) (simp_all only: sums comp simp_thms)
  next
    case False
    then have "1000000 < sum_list (py_slice ?P 2 j)"
      using j(2) by (intro beyond_547) simp_all
    with j(3) show ?thesis by simp
  qed
  have here: "sum_list (py_slice ?P 2 541) = 978037"
    using slice_sum [OF ps_2 ps_541] by simp
  have len: "541 < length ?P" using ps_547 by (simp add: prefix_sum_def)
  have "inner_loop ?P 1000000 2 (2 + 536) (536, 958577)
        = (541 - 2, sum_list (py_slice ?P 2 541))"
  proof (rule inner_loop_last [OF million_nonneg])
    show "2 + 536 < (541 :: nat)" by simp
    show "541 < length ?P" by (rule len)
    show "is_prime (sum_list (py_slice ?P 2 541))"
      unfolding here by (rule is_prime_978037)
    show "sum_list (py_slice ?P 2 541) \<le> 1000000"
      unfolding here by simp
    show "\<forall>j. 541 < j \<and> j < length ?P \<and> sum_list (py_slice ?P 2 j) \<le> 1000000
             \<longrightarrow> \<not> is_prime (sum_list (py_slice ?P 2 j))"
      using later by blast
  qed
  then show ?thesis unfolding here by simp
qed

lemma run_from_3:
  "inner_loop (generate_primes 1000000) 1000000 3 (3 + 539) (539, 978037) = (543, 997651)"
proof -
  let ?P = "(generate_primes 1000000)"
  have later: "\<not> is_prime (sum_list (py_slice ?P 3 j))"
    if j: "546 < j" "j < length ?P" "sum_list (py_slice ?P 3 j) \<le> 1000000" for j
  proof (cases "j < 547")
    case True
    with j(1) show ?thesis by simp
  next
    case False
    then have "1000000 < sum_list (py_slice ?P 3 j)"
      using j(2) by (intro beyond_547) simp_all
    with j(3) show ?thesis by simp
  qed
  have here: "sum_list (py_slice ?P 3 546) = 997651"
    using slice_sum [OF ps_3 ps_546] by simp
  have len: "546 < length ?P" using ps_547 by (simp add: prefix_sum_def)
  have "inner_loop ?P 1000000 3 (3 + 539) (539, 978037)
        = (546 - 3, sum_list (py_slice ?P 3 546))"
  proof (rule inner_loop_last [OF million_nonneg])
    show "3 + 539 < (546 :: nat)" by simp
    show "546 < length ?P" by (rule len)
    show "is_prime (sum_list (py_slice ?P 3 546))"
      unfolding here by (rule is_prime_997651)
    show "sum_list (py_slice ?P 3 546) \<le> 1000000"
      unfolding here by simp
    show "\<forall>j. 546 < j \<and> j < length ?P \<and> sum_list (py_slice ?P 3 j) \<le> 1000000
             \<longrightarrow> \<not> is_prime (sum_list (py_slice ?P 3 j))"
      using later by blast
  qed
  then show ?thesis unfolding here by simp
qed

lemma run_from_later:
  assumes "4 \<le> i"
  shows "inner_loop (generate_primes 1000000) 1000000 i (i + 543) (543, 997651) = (543, 997651)"
proof (rule inner_loop_unchanged, intro allI impI)
  let ?P = "generate_primes 1000000"
  fix j assume j: "i + 543 < j \<and> j < length ?P \<and> sum_list (py_slice ?P i j) \<le> 1000000"
  have "sum_list (py_slice ?P 4 (4 + 543)) \<le> sum_list (py_slice ?P i (i + 543))"
    using million_sorted assms j by (intro window_sum_mono) simp_all
  moreover have "sum_list (py_slice ?P i (i + 543)) \<le> sum_list (py_slice ?P i j)"
    using million_nonneg j by (intro py_slice_sum_mono) simp_all
  moreover have "sum_list (py_slice ?P 4 (4 + 543)) = 1001587"
    using slice_sum [OF ps_4 ps_547] by simp
  ultimately have "1000000 < sum_list (py_slice ?P i j)" by simp
  with j show "\<not> is_prime (sum_list (py_slice ?P i j))" by simp
qed

lemma outer_loop_million:
  "outer_loop (generate_primes 1000000) 1000000 0 (0, 0) = (543, 997651)"
proof -
  let ?P = "generate_primes 1000000"
  have len: "547 \<le> length ?P" using ps_547 by (simp add: prefix_sum_def)
  then have l: "0 < length ?P" "1 < length ?P" "2 < length ?P" "3 < length ?P" by linarith+
  have "outer_loop ?P 1000000 0 (0, 0) = outer_loop ?P 1000000 (0 + 1) (536, 958577)"
    using outer_loop_step [OF l(1), of 1000000 0 0] by (simp only: run_from_0)
  also have "0 + 1 = (1 :: nat)" by simp
  also have "outer_loop ?P 1000000 1 (536, 958577) = outer_loop ?P 1000000 (1 + 1) (536, 958577)"
    using outer_loop_step [OF l(2), of 1000000 536 958577] by (simp only: run_from_1)
  also have "1 + 1 = (2 :: nat)" by simp
  also have "outer_loop ?P 1000000 2 (536, 958577) = outer_loop ?P 1000000 (2 + 1) (539, 978037)"
    using outer_loop_step [OF l(3), of 1000000 536 958577] by (simp only: run_from_2)
  also have "2 + 1 = (3 :: nat)" by simp
  also have "outer_loop ?P 1000000 3 (539, 978037) = outer_loop ?P 1000000 (3 + 1) (543, 997651)"
    using outer_loop_step [OF l(4), of 1000000 539 978037] by (simp only: run_from_3)
  also have "3 + 1 = (4 :: nat)" by simp
  also have "outer_loop ?P 1000000 4 (543, 997651) = (543, 997651)"
    by (rule outer_loop_fixed) (simp add: run_from_later)
  finally show ?thesis .
qed

text \<open>
  Claim C1, as stated, fails: the run on one million does not return \<open>(997651, 21)\<close>.
\<close>

theorem longest_sum_million_counterexample:
  "longest_sum_of_consecutive_primes (generate_primes 1000000) 1000000 \<noteq> (997651, 21)"
  by (simp add: longest_sum_of_consecutive_primes_def outer_loop_million)

text \<open>
  Claim C1, amended: \<open>longest_sum_of_consecutive_primes(generate_primes(1000000),
  1000000)\<close> returns the pair \<open>(997651, 543)\<close>: the prime 997651 is the sum of 543
  consecutive primes, the longest run the function finds below one million.
\<close>

theorem longest_sum_million:
  "longest_sum_of_consecutive_primes (generate_primes 1000000) 1000000 = (997651, 543)"
  by (simp add: longest_sum_of_consecutive_primes_def outer_loop_million)

section \<open>The Rust \<open>is_prime\<close> against the Python one\<close>

lemma rs_loop_small:
  fixes n i :: u32
  assumes "2 \<le> uint i" "uint i \<le> 65535"
  shows "(\<not> is_prime_loop (uint n) (uint i) \<longrightarrow> rs_is_prime_loop c n i = Inr False)
       \<and> (is_prime_loop (uint n) (uint i) \<and> uint n < 65535 * 65535
            \<longrightarrow> rs_is_prime_loop c n i = Inr True)
       \<and> (is_prime_loop (uint n) (uint i) \<and> 65535 * 65535 \<le> uint n
            \<longrightarrow> rs_is_prime_loop True n i = Inl Overflow)"
  using assms
proof (induction "nat (65535 - uint i)" arbitrary: i c)
  case 0
  then have i: "uint i = 65535" by simp
  then have i_ne: "i \<noteq> 0" by auto
  have sq: "uint (i * i) = 65535 * 65535"
    by (simp add: uint_word_ariths i)
  have mul: "mul_u32 c i i = Inr (i * i)" for c
    by (simp add: mul_u32_def i)
  have le: "i * i \<le> n \<longleftrightarrow> 65535 * 65535 \<le> uint n"
    by (simp add: word_le_def sq)
  have md: "uint (n mod i) = uint n mod 65535"
    by (simp add: uint_mod i)
  have md0: "n mod i = 0 \<longleftrightarrow> uint n mod 65535 = 0"
    using md by (metis uint_0_iff)
  have nxt: "uint (i + 1) = 65536"
    by (simp add: uint_word_ariths i)
  have add: "add_u32 c i 1 = Inr (i + 1)" for c
    by (simp add: add_u32_def i)
  have n_lt: "uint n < 65536 * 65536" using uint_bounded [of n] by simp
  have py_next: "is_prime_loop (uint n) 65536"
    using n_lt by (subst is_prime_loop.simps) simp
  have ovf: "mul_u32 True (i + 1) (i + 1) = Inl Overflow"
    by (simp add: mul_u32_def nxt)
  have rs_next: "rs_is_prime_loop True n (i + 1) = Inl Overflow"
    by (subst rs_is_prime_loop.simps) (simp add: ovf)
  show ?case
  proof (cases "65535 * 65535 \<le> uint n")
    case False
    then have "is_prime_loop (uint n) (uint i)"
      by (subst is_prime_loop.simps) (simp add: i)
    moreover have "rs_is_prime_loop c n i = Inr True"
      using False by (subst rs_is_prime_loop.simps) (simp add: mul le)
    ultimately show ?thesis using False by simp
  next
    case True
    show ?thesis
    proof (cases "uint n mod 65535 = 0")
      case z: True
      have "\<not> is_prime_loop (uint n) (uint i)"
        using True z by (subst is_prime_loop.simps) (simp add: i)
      moreover have "rs_is_prime_loop c n i = Inr False"
        using True z
        by (subst rs_is_prime_loop.simps) (simp add: mul le rem_u32_def i_ne md0)
      ultimately show ?thesis by simp
    next
      case nz: False
      have "is_prime_loop (uint n) (uint i)"
        using True nz py_next by (subst is_prime_loop.simps) (simp add: i)
      moreover have "rs_is_prime_loop True n i = Inl Overflow"
        using True nz rs_next
        by (subst rs_is_prime_loop.simps) (simp add: mul le rem_u32_def i_ne md0 add)
      ultimately show ?thesis using True by simp
    qed
  qed
next
  case (Suc k)
  then have lt: "uint i < 65535" by simp
  have i2: "2 \<le> uint i" by fact
  have i_ne: "i \<noteq> 0" using i2 by auto
  have bound: "uint i * uint i < 65535 * 65535"
    using lt i2 by (intro mult_strict_mono) auto
  then have nov: "uint i * uint i < 2 ^ 32" by simp
  have sq: "uint (i * i) = uint i * uint i"
    using nov i2 by (simp add: uint_word_ariths)
  have mul: "mul_u32 c i i = Inr (i * i)" for c
    using nov by (simp add: mul_u32_def)
  have le: "i * i \<le> n \<longleftrightarrow> uint i * uint i \<le> uint n"
    by (simp add: word_le_def sq)
  have md0: "n mod i = 0 \<longleftrightarrow> uint n mod uint i = 0"
    by (metis uint_0_iff uint_mod)
  have nxt: "uint (i + 1) = uint i + 1"
    using lt i2 by (simp add: uint_word_ariths)
  have add: "add_u32 c i 1 = Inr (i + 1)" for c
    using lt by (simp add: add_u32_def)
  have k: "k = nat (65535 - uint (i + 1))" using Suc.hyps(2) nxt by simp
  have IH: "(\<not> is_prime_loop (uint n) (uint i + 1) \<longrightarrow> rs_is_prime_loop c n (i + 1) = Inr False)
       \<and> (is_prime_loop (uint n) (uint i + 1) \<and> uint n < 65535 * 65535
            \<longrightarrow> rs_is_prime_loop c n (i + 1) = Inr True)
       \<and> (is_prime_loop (uint n) (uint i + 1) \<and> 65535 * 65535 \<le> uint n
            \<longrightarrow> rs_is_prime_loop True n (i + 1) = Inl Overflow)" for c
    using Suc.hyps(1) [OF k, of c] lt i2 nxt by simp
  show ?case
  proof (cases "uint i * uint i \<le> uint n")
    case False
    then have "is_prime_loop (uint n) (uint i)"
      by (subst is_prime_loop.simps) simp
    moreover have "rs_is_prime_loop c n i = Inr True" for c
      using False by (subst rs_is_prime_loop.simps) (simp add: mul le)
    moreover have "uint n < 65535 * 65535" using False bound by linarith
    ultimately show ?thesis by simp
  next
    case True
    show ?thesis
    proof (cases "uint n mod uint i = 0")
      case z: True
      have "\<not> is_prime_loop (uint n) (uint i)"
        using True z by (subst is_prime_loop.simps) simp
      moreover have "rs_is_prime_loop c n i = Inr False"
        using True z
        by (subst rs_is_prime_loop.simps) (simp add: mul le rem_u32_def i_ne md0)
      ultimately show ?thesis by simp
    next
      case nz: False
      have py: "is_prime_loop (uint n) (uint i) = is_prime_loop (uint n) (uint i + 1)"
        using True nz by (subst is_prime_loop.simps) simp
      have rs: "rs_is_prime_loop c n i = rs_is_prime_loop c n (i + 1)" for c
        using True nz
        by (subst rs_is_prime_loop.simps) (simp add: mul le rem_u32_def i_ne md0 add)
      show ?thesis using IH [of c] unfolding py rs by simp
    qed
  qed
qed

lemma rs_is_prime_cases:
  fixes n :: u32
  shows "(\<not> is_prime (uint n) \<longrightarrow> rs_is_prime c n = Inr False)
       \<and> (is_prime (uint n) \<and> uint n < 65535 * 65535 \<longrightarrow> rs_is_prime c n = Inr True)
       \<and> (is_prime (uint n) \<and> 65535 * 65535 \<le> uint n
            \<longrightarrow> rs_is_prime True n = Inl Overflow)"
proof (cases "n \<le> 1")
  case True
  then have "uint n \<le> 1" by (simp add: word_le_def)
  then have "\<not> is_prime (uint n)" by (simp add: is_prime_def)
  then show ?thesis using True by (simp add: rs_is_prime_def)
next
  case False
  then have "\<not> uint n \<le> 1" by (simp add: word_le_def)
  then have py: "is_prime (uint n) = is_prime_loop (uint n) (uint (2 :: u32))"
    by (simp add: is_prime_def)
  have rs: "rs_is_prime c n = rs_is_prime_loop c n 2" for c
    using False by (simp add: rs_is_prime_def)
  have "2 \<le> uint (2 :: u32)" "uint (2 :: u32) \<le> 65535" by simp_all
  from rs_loop_small [OF this, of n c] show ?thesis
    unfolding py rs by simp
qed

lemma rs_is_prime_below:
  fixes n :: u32
  assumes "uint n < 65535 * 65535"
  shows "rs_is_prime overflow_checks n = Inr (is_prime (uint n))"
  using rs_is_prime_cases [of n overflow_checks] assms by (cases "is_prime (uint n)") simp_all

lemma rs_is_prime_debug_panics:
  fixes n :: u32
  assumes "is_prime (uint n)" "65535 * 65535 \<le> uint n"
  shows "rs_is_prime True n = Inl Overflow"
  using rs_is_prime_cases [of n True] assms by simp

text \<open>Squares modulo \<open>2 ^ 32\<close> never fall into the top four values.\<close>

lemma square_mod_16:
  fixes x :: int
  shows "(x * x) mod 16 \<in> {0, 1, 4, 9}"
proof -
  define y where "y = x mod 16"
  have "0 \<le> y" "y < 16" by (simp_all add: y_def)
  then have "y = 0 \<or> y = 1 \<or> y = 2 \<or> y = 3 \<or> y = 4 \<or> y = 5 \<or> y = 6 \<or> y = 7
      \<or> y = 8 \<or> y = 9 \<or> y = 10 \<or> y = 11 \<or> y = 12 \<or> y = 13 \<or> y = 14 \<or> y = 15"
    by arith
  then have "(y * y) mod 16 \<in> {0, 1, 4, 9}"
    by (elim disjE) simp_all
  moreover have "(x * x) mod 16 = (y * y) mod 16"
    by (simp add: y_def mod_mult_eq)
  ultimately show ?thesis by simp
qed

lemma square_u32_le:
  fixes i :: u32
  shows "i * i \<le> 4294967291"
proof -
  let ?s = "uint i * uint i"
  have u: "uint (i * i) = ?s mod 4294967296"
    by (simp add: uint_word_ariths)
  have "(?s mod 4294967296) mod 16 = ?s mod 16"
    by (rule mod_mod_cancel) simp
  with square_mod_16 [of "uint i"] have m: "(?s mod 4294967296) mod 16 \<in> {0, 1, 4, 9}" by simp
  have lt: "?s mod 4294967296 < 4294967296" by simp
  have "?s mod 4294967296 \<le> 4294967291"
  proof (rule ccontr)
    assume "\<not> ?s mod 4294967296 \<le> 4294967291"
    with lt have "?s mod 4294967296 = 4294967292 \<or> ?s mod 4294967296 = 4294967293
        \<or> ?s mod 4294967296 = 4294967294 \<or> ?s mod 4294967296 = 4294967295"
      by arith
    then have "(?s mod 4294967296) mod 16 \<in> {12, 13, 14, 15}"
      by (elim disjE) simp_all
    with m show False by auto
  qed
  then show ?thesis by (simp add: word_le_def u)
qed

lemma rs_loop_release_top:
  fixes i :: u32
  assumes prime: "\<forall>d. 1 < d \<and> d < 4294967291 \<longrightarrow> \<not> d dvd (4294967291 :: int)"
    and "2 \<le> uint i" "uint i \<le> 4294967291"
  shows "rs_is_prime_loop False 4294967291 i = Inr False"
  using assms(2,3)
proof (induction "nat (4294967291 - uint i)" arbitrary: i)
  case 0
  then have "uint i = 4294967291" by simp
  moreover have "uint (4294967291 :: u32) = 4294967291" by simp
  ultimately have i: "i = 4294967291" by (simp add: word_uint_eq_iff)
  show ?case
    by (subst rs_is_prime_loop.simps) (simp add: mul_u32_def rem_u32_def i square_u32_le)
next
  case (Suc k)
  then have lt: "uint i < 4294967291" by simp
  have i2: "2 \<le> uint i" by fact
  have i_ne: "i \<noteq> 0" using i2 by auto
  have "\<not> uint i dvd 4294967291" using prime lt i2 by simp
  then have "(4294967291 :: int) mod uint i \<noteq> 0" by (simp add: dvd_eq_mod_eq_0)
  moreover have "uint ((4294967291 :: u32) mod i) = 4294967291 mod uint i"
    by (simp add: uint_mod)
  ultimately have md: "(4294967291 :: u32) mod i \<noteq> 0" by (metis uint_0_iff)
  have nxt: "uint (i + 1) = uint i + 1"
    using lt i2 by (simp add: uint_word_ariths)
  have k: "k = nat (4294967291 - uint (i + 1))" using Suc.hyps(2) nxt by simp
  have "rs_is_prime_loop False 4294967291 (i + 1) = Inr False"
    using Suc.hyps(1) [OF k] lt i2 nxt by simp
  then show ?case
    by (subst rs_is_prime_loop.simps)
       (simp add: mul_u32_def rem_u32_def add_u32_def i_ne md square_u32_le)
qed

lemma rs_is_prime_release_top:
  assumes "is_prime 4294967291"
  shows "rs_is_prime False 4294967291 = Inr False"
proof -
  from assms have "\<forall>d. 1 < d \<and> d < 4294967291 \<longrightarrow> \<not> d dvd (4294967291 :: int)"
    by (simp add: is_prime_iff_no_proper_divisor)
  then have "rs_is_prime_loop False 4294967291 2 = Inr False"
    by (rule rs_loop_release_top) simp_all
  then show ?thesis by (simp add: rs_is_prime_def)
qed

text \<open>
  Claim C2 says that the Rust \<open>is_prime\<close> returns the boolean of the Python \<open>is_prime\<close> for
  every \<open>u32\<close>. The two agree below \<open>65535 * 65535\<close> and on every composite number
  (\<open>rs_is_prime_below\<close>, \<open>rs_is_prime_cases\<close>). At the prime 4294967291 the Python
  function returns \<open>True\<close>; the Rust loop reaches \<open>i = 65536\<close>, where \<open>i * i\<close> overflows:
  with overflow checks it panics, without them it runs on and returns \<open>false\<close>.
\<close>

theorem rs_is_prime_diverges:
  "is_prime (uint (4294967291 :: u32))
   \<and> rs_is_prime True 4294967291 = Inl Overflow
   \<and> rs_is_prime False 4294967291 = Inr False"
proof -
  have u: "uint (4294967291 :: u32) = 4294967291" by simp
  have p: "is_prime (uint (4294967291 :: u32))"
    unfolding u by (rule is_prime_4294967291)
  have "65535 * 65535 \<le> uint (4294967291 :: u32)" by simp
  with p have "rs_is_prime True 4294967291 = Inl Overflow"
    by (rule rs_is_prime_debug_panics)
  moreover have "rs_is_prime False 4294967291 = Inr False"
    by (rule rs_is_prime_release_top [OF is_prime_4294967291])
  ultimately show ?thesis using p by simp
qed

section \<open>\<open>overlay_untargeted_data\<close>\<close>

subsection \<open>The example\<close>





subsection \<open>The state outside the function\<close>






subsection \<open>The rows and the columns of the DataFrame\<close>










end
